(* ===== verification/Bank_Prelude.thy ===== *)
theory Bank_Prelude
  imports Complex_Main "HOL-Library.Word"
begin

text \<open>
  Shared vocabulary of the bank model: the names of the model's types, the C-string
  view of a character buffer, the index search that every linear scan of the
  account array in \<^verbatim>\<open>src/bank.c\<close> performs, and generic facts on lists, list
  updates and sums that the component theories use.
\<close>

named_theorems bank_simps "equations of the bank model that component proofs unfold"

type_synonym money = real  \<comment> \<open>the C \<open>double\<close>, read as an exact value\<close>
type_synonym cstring = string  \<comment> \<open>a NUL-terminated \<open>char\<close> buffer\<close>
type_synonym acct_index = nat  \<comment> \<open>a \<open>BankAccount *\<close> pointing into \<open>accounts[]\<close>\<close>

subsection \<open>C strings\<close>

text \<open>
  A \<open>char\<close> buffer is read by the C library up to its first NUL byte.
  \<open>cstr\<close> is that reading; \<open>strcmp (a, b) == 0\<close> is \<open>cstr a = cstr b\<close>.
\<close>

definition cstr :: "string \<Rightarrow> string" where
  "cstr s = takeWhile (\<lambda>c. c \<noteq> CHR 0x00) s"

subsection \<open>Linear search over an array\<close>

text \<open>
  \<open>for (i = 0; i < total; i++) if (P (a[i])) return &a[i]; return NULL;\<close>
  The loop counter is the second argument; the result is the index found.
\<close>

fun find_index_from :: "('a \<Rightarrow> bool) \<Rightarrow> nat \<Rightarrow> 'a list \<Rightarrow> nat option" where
  "find_index_from P i [] = None"
| "find_index_from P i (x # xs) = (if P x then Some i else find_index_from P (Suc i) xs)"

definition find_index :: "('a \<Rightarrow> bool) \<Rightarrow> 'a list \<Rightarrow> nat option" where
  "find_index P xs = find_index_from P 0 xs"

subsection \<open>Lemmas on C strings\<close>

lemma cstr_no_nul [simp]: "CHR 0x00 \<notin> set s \<Longrightarrow> cstr s = s"
  by (induction s) (auto simp: cstr_def)

lemma cstr_nul_free: "CHR 0x00 \<notin> set (cstr s)"
  by (induction s) (auto simp: cstr_def)

lemma cstr_idem [simp]: "cstr (cstr s) = cstr s"
  by (simp add: cstr_nul_free)

lemma cstr_terminated [simp]: "CHR 0x00 \<notin> set s \<Longrightarrow> cstr (s @ CHR 0x00 # rest) = s"
  by (induction s) (auto simp: cstr_def)

subsection \<open>Lemmas on the linear search\<close>

lemma find_index_from_Some:
  "find_index_from P i xs = Some j \<Longrightarrow>
     i \<le> j \<and> j < i + length xs \<and> P (xs ! (j - i)) \<and> (\<forall>k < j - i. \<not> P (xs ! k))"
proof (induction xs arbitrary: i)
  case Nil
  then show ?case by simp
next
  case (Cons x xs)
  show ?case
  proof (cases "P x")
    case True
    with Cons.prems show ?thesis by (auto simp: fun_eq_iff)
  next
    case False
    with Cons.prems have "find_index_from P (Suc i) xs = Some j" by simp
    from Cons.IH [OF this] False show ?thesis
      by (auto simp: less_Suc_eq_0_disj nth_Cons' Suc_diff_Suc)
  qed
qed

lemma find_index_from_None: "find_index_from P i xs = None \<longleftrightarrow> (\<forall>x \<in> set xs. \<not> P x)"
  by (induction xs arbitrary: i) auto

lemma find_index_from_complete:
  "k < length xs \<Longrightarrow> P (xs ! k) \<Longrightarrow> \<exists>j. find_index_from P i xs = Some j \<and> j \<le> i + k"
proof (induction xs arbitrary: i k)
  case Nil
  then show ?case by simp
next
  case (Cons x xs)
  show ?case
  proof (cases "P x")
    case True
    then show ?thesis by simp
  next
    case False
    with Cons.prems obtain k' where k: "k = Suc k'" "k' < length xs" "P (xs ! k')"
      by (cases k) auto
    from Cons.IH [OF k(2,3)] False k(1) show ?thesis by fastforce
  qed
qed

lemma find_index_SomeD:
  assumes "find_index P xs = Some j"
  shows "j < length xs" and "P (xs ! j)" and "\<forall>k < j. \<not> P (xs ! k)"
  using find_index_from_Some [of P 0 xs j] assms by (auto simp: find_index_def)

lemma find_index_None_iff: "find_index P xs = None \<longleftrightarrow> (\<forall>x \<in> set xs. \<not> P x)"
  by (simp add: find_index_def find_index_from_None)

lemma find_index_Some_iff:
  "find_index P xs = Some j \<longleftrightarrow> j < length xs \<and> P (xs ! j) \<and> (\<forall>k < j. \<not> P (xs ! k))"
proof
  assume "find_index P xs = Some j"
  then show "j < length xs \<and> P (xs ! j) \<and> (\<forall>k < j. \<not> P (xs ! k))"
    using find_index_SomeD by blast
next
  assume j: "j < length xs \<and> P (xs ! j) \<and> (\<forall>k < j. \<not> P (xs ! k))"
  then obtain j' where j': "find_index P xs = Some j'" "j' \<le> j"
    using find_index_from_complete [of j xs P 0] by (auto simp: find_index_def)
  with j have "\<not> j' < j" using find_index_SomeD(2) [OF j'(1)] by blast
  with j' show "find_index P xs = Some j" by simp
qed

text \<open>
  The search is unique when at most one element satisfies the predicate: the
  element it returns is the one.
\<close>

lemma find_index_unique:
  "i < length xs \<Longrightarrow> P (xs ! i) \<Longrightarrow> (\<forall>k < length xs. P (xs ! k) \<longrightarrow> k = i) \<Longrightarrow>
     find_index P xs = Some i"
proof -
  assume i: "i < length xs" and p: "P (xs ! i)"
    and u: "\<forall>k < length xs. P (xs ! k) \<longrightarrow> k = i"
  have "\<forall>k < i. \<not> P (xs ! k)"
  proof (intro allI impI)
    fix k assume k: "k < i"
    with i have "k < length xs" by simp
    with u k show "\<not> P (xs ! k)" by auto
  qed
  with i p show ?thesis by (simp add: find_index_Some_iff)
qed

lemma find_index_from_cong:
  "length xs = length ys \<Longrightarrow> (\<And>k. k < length xs \<Longrightarrow> P (xs ! k) = Q (ys ! k)) \<Longrightarrow>
     find_index_from P i xs = find_index_from Q i ys"
proof (induction xs arbitrary: ys i)
  case Nil
  then show ?case by simp
next
  case (Cons x xs)
  then obtain y ys' where ys: "ys = y # ys'" by (cases ys) auto
  from Cons.prems ys have "P x = Q y" by fastforce
  moreover from Cons.prems ys have "find_index_from P (Suc i) xs = find_index_from Q (Suc i) ys'"
    by (intro Cons.IH) fastforce+
  ultimately show ?case by (simp add: ys)
qed

lemma find_index_update_same:
  assumes f: "\<And>x. P (f x) = P x"
  shows "find_index P (xs[i := f (xs ! i)]) = find_index P xs"
proof -
  have "\<And>k. k < length (xs[i := f (xs ! i)]) \<Longrightarrow> P (xs[i := f (xs ! i)] ! k) = P (xs ! k)"
    by (case_tac "k = i") (simp_all add: f)
  then show ?thesis
    unfolding find_index_def by (rule find_index_from_cong [OF length_list_update])
qed

lemma find_index_update_key:
  assumes "P v = P (xs ! i)"
  shows "find_index P (xs[i := v]) = find_index P xs"
proof -
  have "\<And>k. k < length (xs[i := v]) \<Longrightarrow> P (xs[i := v] ! k) = P (xs ! k)"
    using assms by (case_tac "k = i") simp_all
  then show ?thesis
    unfolding find_index_def by (rule find_index_from_cong [OF length_list_update])
qed

lemma map_update_same_key:
  "f v = f (xs ! i) \<Longrightarrow> map f (xs[i := v]) = map f xs"
proof (cases "i < length xs")
  case True
  assume "f v = f (xs ! i)"
  with True have "map f (xs[i := v]) = (map f xs)[i := map f xs ! i]" by (simp add: map_update)
  then show ?thesis by simp
qed (simp add: list_update_beyond)

subsection \<open>Lists with a property at every position\<close>

lemma list_all_update:
  "list_all P xs \<Longrightarrow> P v \<Longrightarrow> list_all P (xs[i := v])"
  unfolding list_all_length by (metis length_list_update nth_list_update_eq nth_list_update_neq)

lemma list_all_nthD: "list_all P xs \<Longrightarrow> i < length xs \<Longrightarrow> P (xs ! i)"
  by (simp add: list_all_length)

subsection \<open>Association lists built from a keyed list\<close>

text \<open>
  A table whose keys are distinct, viewed as a map from key to value: updating
  one entry in place, appending a fresh one, and reading an entry.
\<close>

lemma keyed_nth_other:
  "distinct (map k (y # ys)) \<Longrightarrow> j < length ys \<Longrightarrow> k (ys ! j) \<noteq> k y"
proof -
  assume d: "distinct (map k (y # ys))" and j: "j < length ys"
  from j have "ys ! j \<in> set ys" by simp
  then have "k (ys ! j) \<in> k ` set ys" by (rule imageI)
  with d show ?thesis by auto
qed

lemma map_of_keyed_nth:
  "distinct (map k xs) \<Longrightarrow> i < length xs \<Longrightarrow>
     map_of (map (\<lambda>a. (k a, g a)) xs) (k (xs ! i)) = Some (g (xs ! i))"
proof (induction xs arbitrary: i)
  case (Cons y ys)
  then show ?case by (cases i) (auto dest: keyed_nth_other [OF Cons.prems(1)])
qed simp

lemma map_of_keyed_update:
  "distinct (map k xs) \<Longrightarrow> i < length xs \<Longrightarrow> k x = k (xs ! i) \<Longrightarrow>
     map_of (map (\<lambda>a. (k a, g a)) (xs[i := x])) = (map_of (map (\<lambda>a. (k a, g a)) xs))(k x \<mapsto> g x)"
proof (induction xs arbitrary: i)
  case (Cons y ys)
  show ?case
  proof (cases i)
    case 0
    with Cons.prems show ?thesis by (auto simp: fun_eq_iff)
  next
    case (Suc j)
    with Cons.prems have "k x \<noteq> k y" using keyed_nth_other [OF Cons.prems(1)] by simp
    with Cons Suc show ?thesis by (auto simp: fun_upd_twist)
  qed
qed simp

lemma map_of_keyed_snoc:
  "k x \<notin> set (map k xs) \<Longrightarrow>
     map_of (map (\<lambda>a. (k a, g a)) (xs @ [x])) = (map_of (map (\<lambda>a. (k a, g a)) xs))(k x \<mapsto> g x)"
  by (induction xs) (auto simp: fun_upd_twist)

end
