(* ===== verification/Bank_Types.thy ===== *)
theory Bank_Types
  imports Bank_Prelude
begin

text \<open>
  The data of \<^verbatim>\<open>src/bank.c\<close> (lines 8--82): the limits, the \<open>Transaction\<close> and
  \<open>BankAccount\<close> structs, the global state (\<open>accounts[]\<close>, \<open>total_accounts\<close>,
  \<open>current_user\<close>, the file \<^verbatim>\<open>accounts.dat\<close>), the administrator's fixed credentials,
  and the outcome every menu handler reports.
\<close>

subsection \<open>Limits\<close>

definition MAX_ACCOUNTS :: nat where "MAX_ACCOUNTS = 1000"
definition MAX_TRANSACTIONS :: nat where "MAX_TRANSACTIONS = 100"
definition MIN_BALANCE :: money where "MIN_BALANCE = 500"

subsection \<open>Transactions\<close>

text \<open>
  The \<open>type\<close> field of a transaction is a \<open>char[20]\<close> that only ever receives one
  of four string literals; the datatype names them, \<open>txn_type_name\<close> gives the
  literal that \<open>strcpy\<close> stores.
\<close>

datatype txn_type = DEPOSIT | WITHDRAW | TRANSFER_IN | TRANSFER_OUT

fun txn_type_name :: "txn_type \<Rightarrow> string" where
  "txn_type_name DEPOSIT = ''DEPOSIT''"
| "txn_type_name WITHDRAW = ''WITHDRAW''"
| "txn_type_name TRANSFER_IN = ''TRANSFER_IN''"
| "txn_type_name TRANSFER_OUT = ''TRANSFER_OUT''"

record transaction =
  date :: string
  txn_kind :: txn_type
  amount :: money
  balance_after :: money
  description :: string
  reference_account :: string

subsection \<open>Accounts\<close>

text \<open>
  \<open>transactions\<close> holds the first \<open>transaction_count\<close> entries of the
  \<open>Transaction transactions[MAX_TRANSACTIONS]\<close> array, so
  \<open>transaction_count = length (transactions a)\<close>. \<open>is_active\<close> is a C \<open>int\<close> that
  the code only sets to 0 or 1 and only tests for zero.
\<close>

record bank_account =
  account_number :: string
  name :: string
  username :: string
  password_hash :: string
  dob :: string
  mobile :: string
  email :: string
  balance :: money
  account_type :: string
  is_active :: bool
  failed_attempts :: nat
  created_date :: string
  transactions :: "transaction list"

abbreviation transaction_count :: "bank_account \<Rightarrow> nat" where
  "transaction_count a \<equiv> length (transactions a)"

text \<open>\<open>BankAccount new_account = {0};\<close>: every field zero.\<close>

definition zero_account :: bank_account where
  "zero_account = \<lparr>account_number = [], name = [], username = [], password_hash = [],
     dob = [], mobile = [], email = [], balance = 0, account_type = [], is_active = False,
     failed_attempts = 0, created_date = [], transactions = []\<rparr>"

subsection \<open>Minimum balance by account type\<close>

text \<open>
  \<open>withdraw_money\<close> and \<open>transfer_money\<close> (lines 645--647, 708--710) start from 500
  and overwrite it when the type string is \<open>CURRENT\<close> or \<open>PREMIUM\<close>.
\<close>

definition min_balance :: "string \<Rightarrow> money" where
  "min_balance t =
     (let m = (500::money);
          m = (if t = ''CURRENT'' then 1000 else m);
          m = (if t = ''PREMIUM'' then 5000 else m)
      in m)"

text \<open>
  \<open>create_account\<close> (lines 543--560): the menu choice selects the type string and
  the minimum initial deposit; any other choice is rejected.
\<close>

definition account_type_choice :: "int \<Rightarrow> (string \<times> money) option" where
  "account_type_choice c =
     (if c = 1 then Some (''SAVINGS'', 500)
      else if c = 2 then Some (''CURRENT'', 1000)
      else if c = 3 then Some (''PREMIUM'', 5000)
      else None)"

definition valid_account_type :: "string \<Rightarrow> bool" where
  "valid_account_type t \<longleftrightarrow> t \<in> {''SAVINGS'', ''CURRENT'', ''PREMIUM''}"

subsection \<open>Global state\<close>

text \<open>
  The snapshot file holds the fields of \<^verbatim>\<open>fwrite\<close>'s byte image as a list of cells
  (see theory \<open>Persistence\<close>): a C \<open>int\<close>, a \<open>double\<close>, or a \<open>char[n]\<close> array
  of exactly \<open>n\<close> bytes.
\<close>

datatype cell = CInt int | CDouble money | CChars "char list"

text \<open>
  \<open>accounts\<close> is \<open>accounts[0 .. total_accounts - 1]\<close>; \<open>current_user\<close> is the index
  the global pointer points to; \<open>accounts_dat\<close> is the content of the file
  \<^verbatim>\<open>accounts.dat\<close> (\<open>None\<close>: no file); \<open>fs_writable\<close> says whether
  \<open>fopen(\<dots>, "wb")\<close> succeeds.
\<close>

record bank =
  accounts :: "bank_account list"
  current_user :: "acct_index option"
  accounts_dat :: "cell list option"
  fs_writable :: bool

abbreviation total_accounts :: "bank \<Rightarrow> nat" where
  "total_accounts st \<equiv> length (accounts st)"

text \<open>\<open>AdminCredentials admin = {"admin", "admin"};\<close> (line 82).\<close>

definition admin_username :: string where "admin_username = ''admin''"
definition admin_password :: string where "admin_password = ''admin''"

subsection \<open>Outcomes\<close>

text \<open>
  Every handler returns \<open>void\<close> and reports through \<open>printf\<close>; the model returns the
  message as a value. Each constructor of \<open>error\<close> is one early-return branch of the
  source.
\<close>

datatype error =
    MaxAccountsReached
  | InvalidName
  | InvalidUsernameLength
  | UsernameExists
  | InvalidEmail
  | InvalidMobile
  | PasswordsDontMatch
  | InvalidAccountTypeChoice
  | InsufficientInitialDeposit
  | InvalidAmount
  | InsufficientBalance money
  | TargetNotFound
  | TargetBlocked
  | SameAccount
  | AccountNotFound
  | AccountBlocked
  | InvalidPassword nat  \<comment> \<open>attempts remaining\<close>
  | BlockedAfterFailedAttempts
  | IncorrectCurrentPassword
  | NewPasswordsDontMatch
  | InvalidAdminCredentials
  | NoSession  \<comment> \<open>\<open>current_user == NULL\<close>: not reachable from the menus\<close>

subsection \<open>Values read by \<open>scanf ("%lf")\<close>\<close>

text \<open>
  \<open>scanf ("%lf")\<close> (lines 563, 608, 637, 700) stores a finite number or one of the
  IEEE values that \<open>strtod\<close> also accepts: \<open>inf\<close>, \<open>-inf\<close> and \<open>nan\<close>. Balances in
  the model are numbers (\<open>money\<close>); \<open>double_less\<close> is C's \<open><\<close> between the value
  read and a number, false whenever one side is NaN.
\<close>

datatype double_in = Finite money | PosInf | NegInf | NaN

fun double_less :: "double_in \<Rightarrow> money \<Rightarrow> bool" where
  "double_less (Finite x) m = (x < m)"
| "double_less PosInf m = False"
| "double_less NegInf m = True"
| "double_less NaN m = False"

datatype status = Success | Failure error

type_synonym 'a outcome = "status \<times> 'a"

definition fail :: "error \<Rightarrow> bank \<Rightarrow> bank outcome" where
  "fail e st = (Failure e, st)"

subsection \<open>Lemmas\<close>

lemmas bank_limits [bank_simps] = MAX_ACCOUNTS_def MAX_TRANSACTIONS_def MIN_BALANCE_def

lemma min_balance_simps [simp]:
  "min_balance ''SAVINGS'' = 500" "min_balance ''CURRENT'' = 1000"
  "min_balance ''PREMIUM'' = 5000"
  by (simp_all add: min_balance_def)

lemma account_type_choice_Some:
  "account_type_choice c = Some (t, m) \<Longrightarrow> valid_account_type t \<and> min_balance t = m"
  by (auto simp: account_type_choice_def valid_account_type_def split: if_splits)

lemma min_balance_pos: "0 < min_balance t"
  by (simp add: min_balance_def Let_def)

lemma fail_simps [simp]: "fst (fail e st) = Failure e" "snd (fail e st) = st"
  by (simp_all add: fail_def)

end
