(* ===== verification/Ledger.thy ===== *)
theory Ledger
  imports Bank_Types
begin

text \<open>
  The transaction ledger of one account: \<open>add_transaction\<close> (\<^verbatim>\<open>src/bank.c\<close> lines
  170--185) appends a record stamped with the current date and the account's
  balance at that moment, with \<open>"N/A"\<close> as reference when the caller passes
  \<open>NULL\<close>; it does nothing at all when \<open>MAX_TRANSACTIONS\<close> records are stored.
  \<open>transaction_history\<close> is the order in which \<open>view_transaction_history\<close> (lines
  775--780) prints the ledger, newest first. \<open>ledger_ok\<close> is the ledger's
  invariant: the audit trail's last entry records the current balance while the
  ledger has room.
\<close>

definition add_transaction ::
  "bank_account \<Rightarrow> txn_type \<Rightarrow> money \<Rightarrow> string \<Rightarrow> string option \<Rightarrow> string \<Rightarrow> bank_account" where
  "add_transaction account ty amt desc ref_account now =
     (if transaction_count account < MAX_TRANSACTIONS then
        account\<lparr>transactions := transactions account @
          [\<lparr>date = now, txn_kind = ty, amount = amt, balance_after = balance account,
            description = desc,
            reference_account = (case ref_account of Some r \<Rightarrow> r | None \<Rightarrow> ''N/A'')\<rparr>]\<rparr>
      else account)"

definition transaction_history :: "bank_account \<Rightarrow> transaction list" where
  "transaction_history a = rev (transactions a)"

definition ledger_ok :: "bank_account \<Rightarrow> bool" where
  "ledger_ok a \<longleftrightarrow>
     transactions a \<noteq> [] \<and> transaction_count a \<le> MAX_TRANSACTIONS \<and>
     (transaction_count a < MAX_TRANSACTIONS \<longrightarrow> balance_after (last (transactions a)) = balance a) \<and>
     (\<forall>t \<in> set (transactions a). 0 < amount t)"

subsection \<open>Frame and shape of \<open>add_transaction\<close>\<close>

lemma add_transaction_fields [simp]:
  "account_number (add_transaction a ty amt d r now) = account_number a"
  "name (add_transaction a ty amt d r now) = name a"
  "username (add_transaction a ty amt d r now) = username a"
  "password_hash (add_transaction a ty amt d r now) = password_hash a"
  "balance (add_transaction a ty amt d r now) = balance a"
  "account_type (add_transaction a ty amt d r now) = account_type a"
  "is_active (add_transaction a ty amt d r now) = is_active a"
  "failed_attempts (add_transaction a ty amt d r now) = failed_attempts a"
  by (simp_all add: add_transaction_def)

lemma add_transaction_room:
  "transaction_count a < MAX_TRANSACTIONS \<Longrightarrow>
     transactions (add_transaction a ty amt d r now) =
       transactions a @ [\<lparr>date = now, txn_kind = ty, amount = amt, balance_after = balance a,
         description = d, reference_account = (case r of Some x \<Rightarrow> x | None \<Rightarrow> ''N/A'')\<rparr>]"
  by (simp add: add_transaction_def)

lemma add_transaction_full:
  "\<not> transaction_count a < MAX_TRANSACTIONS \<Longrightarrow> add_transaction a ty amt d r now = a"
  by (simp add: add_transaction_def)

lemma add_transaction_prefix:
  "\<exists>new. transactions (add_transaction a ty amt d r now) = transactions a @ new \<and> length new \<le> 1"
  by (cases "transaction_count a < MAX_TRANSACTIONS")
    (auto simp: add_transaction_room add_transaction_full)

lemma add_transaction_count:
  "transaction_count (add_transaction a ty amt d r now) =
     (if transaction_count a < MAX_TRANSACTIONS then Suc (transaction_count a) else transaction_count a)"
  by (simp add: add_transaction_def)

subsection \<open>The ledger invariant\<close>

text \<open>
  Every balance change in the program is immediately followed by
  \<open>add_transaction\<close> on the same account: the invariant is kept by such a pair.
\<close>

lemma ledger_ok_balance_then_add:
  "ledger_ok a \<Longrightarrow> 0 < amt \<Longrightarrow>
     ledger_ok (add_transaction (a\<lparr>balance := b\<rparr>) ty amt d r now)"
  by (cases "transaction_count a < MAX_TRANSACTIONS")
    (auto simp: ledger_ok_def add_transaction_def)

lemma ledger_ok_update_other:
  "ledger_ok a \<Longrightarrow> transactions a' = transactions a \<Longrightarrow> balance a' = balance a \<Longrightarrow> ledger_ok a'"
  by (simp add: ledger_ok_def)

text \<open>
  C24: \<open>view_transaction_history\<close> lists newest first: after a transaction is
  recorded on a ledger with room, it is the first row shown, with the account's
  balance at that moment, followed by the rows shown before.
\<close>

theorem history_newest_first:
  "transaction_count a < MAX_TRANSACTIONS \<Longrightarrow>
     transaction_history (add_transaction a ty amt d r now) =
       \<lparr>date = now, txn_kind = ty, amount = amt, balance_after = balance a, description = d,
        reference_account = (case r of Some x \<Rightarrow> x | None \<Rightarrow> ''N/A'')\<rparr> # transaction_history a"
  by (simp add: transaction_history_def add_transaction_room)

end
