(* ===== verification/Persistence.thy ===== *)
theory Persistence
  imports Bank_Types "HOL-Library.Monad_Syntax"
begin

text \<open>
  The persistence layer, \<open>save_accounts\<close> and \<open>load_accounts\<close> (\<^verbatim>\<open>src/bank.c\<close>
  lines 187--210). \<open>save_accounts\<close> writes \<open>total_accounts\<close> and then the raw image
  of \<open>accounts[0 .. total_accounts - 1]\<close>; every \<open>BankAccount\<close> image has the same
  layout: its twelve scalar fields, all \<open>MAX_TRANSACTIONS\<close> slots of its
  transaction array (the unused ones included), and \<open>transaction_count\<close>.
  The image is a list of cells (\<open>cell\<close>, theory \<open>Bank_Types\<close>): a \<open>char[n]\<close> field
  is \<open>n\<close> bytes holding the string and NUL padding, an \<open>int\<close> or a \<open>double\<close> is one
  cell. Struct padding is not represented. The bytes after a string's NUL are
  written as zeros: the C code leaves whatever an earlier, longer string left
  there, and nothing reads them.

  \<open>load_accounts\<close> reads the count and that many records with a cursor over the
  cells; a file this program did not write (a short file, a count above
  \<open>MAX_ACCOUNTS\<close>, a record with a transaction count out of range) makes the C
  code read outside its arrays, and is the value \<open>None\<close> here.
\<close>

subsection \<open>Writing\<close>

definition char_array :: "nat \<Rightarrow> string \<Rightarrow> cell" where
  "char_array n s = CChars (take n (s @ replicate n (CHR 0x00)))"

definition encode_transaction :: "transaction \<Rightarrow> cell list" where
  "encode_transaction t =
     [char_array 20 (date t), char_array 20 (txn_type_name (txn_kind t)),
      CDouble (amount t), CDouble (balance_after t),
      char_array 100 (description t), char_array 15 (reference_account t)]"

text \<open>An unused slot of the array, as \<open>BankAccount new_account = {0}\<close> leaves it.\<close>

definition empty_slot :: "cell list" where
  "empty_slot = [char_array 20 [], char_array 20 [], CDouble 0, CDouble 0,
                 char_array 100 [], char_array 15 []]"

definition encode_account :: "bank_account \<Rightarrow> cell list" where
  "encode_account a =
     [char_array 15 (account_number a), char_array 50 (name a), char_array 20 (username a),
      char_array 50 (password_hash a), char_array 12 (dob a), char_array 15 (mobile a),
      char_array 50 (email a), CDouble (balance a), char_array 20 (account_type a),
      CInt (if is_active a then 1 else 0), CInt (int (failed_attempts a)),
      char_array 20 (created_date a)]
     @ concat (map encode_transaction (transactions a))
     @ concat (replicate (MAX_TRANSACTIONS - transaction_count a) empty_slot)
     @ [CInt (int (transaction_count a))]"

definition encode_snapshot :: "bank_account list \<Rightarrow> cell list" where
  "encode_snapshot accs = CInt (int (length accs)) # concat (map encode_account accs)"

text \<open>
  \<open>save_accounts\<close>: when \<open>fopen\<close> fails the function prints an error and returns 0,
  leaving the old file as it was; otherwise the file is replaced and it returns 1.
\<close>

definition save_accounts :: "bank \<Rightarrow> bool \<times> bank" where
  "save_accounts st =
     (if fs_writable st then (True, st\<lparr>accounts_dat := Some (encode_snapshot (accounts st))\<rparr>)
      else (False, st))"

text \<open>Every handler calls \<open>save_accounts ()\<close> and ignores what it returns.\<close>

definition persist :: "bank \<Rightarrow> bank" where
  "persist st = snd (save_accounts st)"

subsection \<open>Reading\<close>

type_synonym 'a reader = "cell list \<Rightarrow> ('a \<times> cell list) option"

fun get_int :: "int reader" where
  "get_int (CInt i # cs) = Some (i, cs)"
| "get_int _ = None"

fun get_double :: "money reader" where
  "get_double (CDouble d # cs) = Some (d, cs)"
| "get_double _ = None"

fun get_chars :: "nat \<Rightarrow> string reader" where
  "get_chars n (CChars bs # cs) = (if length bs = n then Some (cstr bs, cs) else None)"
| "get_chars n _ = None"

definition parse_txn_type :: "string \<Rightarrow> txn_type option" where
  "parse_txn_type s =
     (if s = ''DEPOSIT'' then Some DEPOSIT else if s = ''WITHDRAW'' then Some WITHDRAW
      else if s = ''TRANSFER_IN'' then Some TRANSFER_IN
      else if s = ''TRANSFER_OUT'' then Some TRANSFER_OUT else None)"

definition get_transaction :: "transaction reader" where
  "get_transaction cs = do {
     (d, cs) \<leftarrow> get_chars 20 cs;
     (ty, cs) \<leftarrow> get_chars 20 cs;
     k \<leftarrow> parse_txn_type ty;
     (amt, cs) \<leftarrow> get_double cs;
     (bal, cs) \<leftarrow> get_double cs;
     (desc, cs) \<leftarrow> get_chars 100 cs;
     (r, cs) \<leftarrow> get_chars 15 cs;
     Some (\<lparr>date = d, txn_kind = k, amount = amt, balance_after = bal, description = desc,
            reference_account = r\<rparr>, cs)
   }"

fun get_transactions :: "nat \<Rightarrow> transaction list reader" where
  "get_transactions 0 cs = Some ([], cs)"
| "get_transactions (Suc n) cs = do {
     (t, cs) \<leftarrow> get_transaction cs;
     (ts, cs) \<leftarrow> get_transactions n cs;
     Some (t # ts, cs)
   }"

definition SLOT_CELLS :: nat where "SLOT_CELLS = 6"

text \<open>
  The transaction array is read as a whole; only the first \<open>transaction_count\<close>
  slots are records the program ever looks at.
\<close>

definition get_account :: "bank_account reader" where
  "get_account cs = do {
     (acct_no, cs) \<leftarrow> get_chars 15 cs;
     (nm, cs) \<leftarrow> get_chars 50 cs;
     (un, cs) \<leftarrow> get_chars 20 cs;
     (ph, cs) \<leftarrow> get_chars 50 cs;
     (db, cs) \<leftarrow> get_chars 12 cs;
     (mb, cs) \<leftarrow> get_chars 15 cs;
     (em, cs) \<leftarrow> get_chars 50 cs;
     (bal, cs) \<leftarrow> get_double cs;
     (ty, cs) \<leftarrow> get_chars 20 cs;
     (act, cs) \<leftarrow> get_int cs;
     (fa, cs) \<leftarrow> get_int cs;
     (cd, cs) \<leftarrow> get_chars 20 cs;
     let arr = take (MAX_TRANSACTIONS * SLOT_CELLS) cs;
     (cnt, cs) \<leftarrow> get_int (drop (MAX_TRANSACTIONS * SLOT_CELLS) cs);
     (if length arr = MAX_TRANSACTIONS * SLOT_CELLS \<and> 0 \<le> fa \<and> 0 \<le> cnt
         \<and> cnt \<le> int MAX_TRANSACTIONS then do {
        (txs, _) \<leftarrow> get_transactions (nat cnt) arr;
        Some (\<lparr>account_number = acct_no, name = nm, username = un, password_hash = ph,
                dob = db, mobile = mb, email = em, balance = bal, account_type = ty,
                is_active = (act \<noteq> 0), failed_attempts = nat fa, created_date = cd,
                transactions = txs\<rparr>, cs)
      } else None)
   }"

fun get_accounts :: "nat \<Rightarrow> bank_account list reader" where
  "get_accounts 0 cs = Some ([], cs)"
| "get_accounts (Suc n) cs = do {
     (a, cs) \<leftarrow> get_account cs;
     (as, cs) \<leftarrow> get_accounts n cs;
     Some (a # as, cs)
   }"

definition decode_snapshot :: "cell list \<Rightarrow> bank_account list option" where
  "decode_snapshot cells = do {
     (n, cs) \<leftarrow> get_int cells;
     (if 0 \<le> n \<and> n \<le> int MAX_ACCOUNTS then map_option fst (get_accounts (nat n) cs) else None)
   }"

text \<open>
  \<open>load_accounts\<close>: no file leaves the (empty) table as it is; otherwise the table
  becomes the records of the file.
\<close>

definition load_accounts :: "bank \<Rightarrow> bank option" where
  "load_accounts st =
     (case accounts_dat st of
        None \<Rightarrow> Some st
      | Some cells \<Rightarrow> map_option (\<lambda>accs. st\<lparr>accounts := accs\<rparr>) (decode_snapshot cells))"

subsection \<open>What a record must satisfy to be stored faithfully\<close>

text \<open>
  A string survives \<open>strcpy\<close> into \<open>char[n]\<close> and back when it is shorter than
  \<open>n\<close> (room for the NUL) and has no NUL inside.
\<close>

definition fits :: "nat \<Rightarrow> string \<Rightarrow> bool" where
  "fits n s \<longleftrightarrow> length s < n \<and> CHR 0x00 \<notin> set s"

definition txn_storable :: "transaction \<Rightarrow> bool" where
  "txn_storable t \<longleftrightarrow> fits 20 (date t) \<and> fits 100 (description t) \<and> fits 15 (reference_account t)"

definition account_storable :: "bank_account \<Rightarrow> bool" where
  "account_storable a \<longleftrightarrow>
     fits 15 (account_number a) \<and> fits 50 (name a) \<and> fits 20 (username a) \<and>
     fits 50 (password_hash a) \<and> fits 12 (dob a) \<and> fits 15 (mobile a) \<and> fits 50 (email a) \<and>
     fits 20 (account_type a) \<and> fits 20 (created_date a) \<and>
     transaction_count a \<le> MAX_TRANSACTIONS \<and> (\<forall>t \<in> set (transactions a). txn_storable t)"

subsection \<open>Each reader undoes its writer\<close>

lemma cstr_nul_terminated: "CHR 0x00 \<notin> set s \<Longrightarrow> cstr (s @ CHR 0x00 # r) = s"
  by (induction s) (auto simp: cstr_def)

lemma get_chars_array [simp]: "fits n s \<Longrightarrow> get_chars n (char_array n s # cs) = Some (s, cs)"
proof -
  assume f: "fits n s"
  then obtain k where k: "n - length s = Suc k" by (cases "n - length s") (auto simp: fits_def)
  from k have "Suc k \<le> n" by arith
  with f have "take n (s @ replicate n (CHR 0x00)) = s @ CHR 0x00 # replicate k (CHR 0x00)"
    by (simp add: fits_def min_def k)
  moreover from f k have "length (s @ CHR 0x00 # replicate k (CHR 0x00)) = n"
    by (simp add: fits_def)
  ultimately show ?thesis using f by (simp add: char_array_def cstr_nul_terminated fits_def)
qed

lemma parse_txn_type_name [simp]: "parse_txn_type (txn_type_name k) = Some k"
  by (cases k) (simp_all add: parse_txn_type_def)

lemma fits_txn_type_name [simp]: "fits 20 (txn_type_name k)"
  by (cases k) (simp_all add: fits_def)

lemma length_encode_transaction [simp]: "length (encode_transaction t) = SLOT_CELLS"
  by (simp add: encode_transaction_def SLOT_CELLS_def)

lemma length_empty_slot [simp]: "length empty_slot = SLOT_CELLS"
  by (simp add: empty_slot_def SLOT_CELLS_def)

lemma length_concat_slots:
  "length (concat (map encode_transaction ts)) = SLOT_CELLS * length ts"
  "length (concat (replicate m empty_slot)) = SLOT_CELLS * m"
  by (induction ts) (simp_all add: length_concat sum_list_replicate)

lemma get_transaction_encode:
  "txn_storable t \<Longrightarrow> get_transaction (encode_transaction t @ cs) = Some (t, cs)"
  by (cases t) (simp add: get_transaction_def encode_transaction_def txn_storable_def)

lemma get_transactions_encode:
  "\<forall>t \<in> set ts. txn_storable t \<Longrightarrow>
     get_transactions (length ts) (concat (map encode_transaction ts) @ cs) = Some (ts, cs)"
  by (induction ts) (simp_all add: get_transaction_encode)

lemma get_account_encode:
  assumes a: "account_storable a"
  shows "get_account (encode_account a @ cs) = Some (a, cs)"
proof -
  define n where "n = transaction_count a"
  define arr where "arr = concat (map encode_transaction (transactions a)) @
                          concat (replicate (MAX_TRANSACTIONS - n) empty_slot)"
  from a have le: "n \<le> MAX_TRANSACTIONS" by (simp add: account_storable_def n_def)
  have len: "length arr = MAX_TRANSACTIONS * SLOT_CELLS"
  proof -
    have "length arr = SLOT_CELLS * n + SLOT_CELLS * (MAX_TRANSACTIONS - n)"
      by (simp add: arr_def length_concat_slots n_def)
    also have "\<dots> = MAX_TRANSACTIONS * SLOT_CELLS"
      using le by (simp add: add_mult_distrib2 [symmetric])
    finally show ?thesis .
  qed
  have enc: "encode_account a @ cs =
     [char_array 15 (account_number a), char_array 50 (name a), char_array 20 (username a),
      char_array 50 (password_hash a), char_array 12 (dob a), char_array 15 (mobile a),
      char_array 50 (email a), CDouble (balance a), char_array 20 (account_type a),
      CInt (if is_active a then 1 else 0), CInt (int (failed_attempts a)),
      char_array 20 (created_date a)] @ arr @ CInt (int n) # cs"
    by (simp add: encode_account_def arr_def n_def)
  from a have txs: "get_transactions n arr =
      Some (transactions a, concat (replicate (MAX_TRANSACTIONS - n) empty_slot))"
    by (simp add: account_storable_def get_transactions_encode arr_def n_def)
  from a le have "get_account (encode_account a @ cs) =
      Some (a\<lparr>transactions := transactions a\<rparr>, cs)"
    unfolding enc
    by (simp add: get_account_def account_storable_def len txs Let_def)
  then show ?thesis by simp
qed

lemma get_accounts_encode:
  "\<forall>a \<in> set accs. account_storable a \<Longrightarrow>
     get_accounts (length accs) (concat (map encode_account accs) @ cs) = Some (accs, cs)"
  by (induction accs) (simp_all add: get_account_encode)

lemma decode_snapshot_encode:
  "length accs \<le> MAX_ACCOUNTS \<Longrightarrow> \<forall>a \<in> set accs. account_storable a \<Longrightarrow>
     decode_snapshot (encode_snapshot accs) = Some accs"
  using get_accounts_encode [of accs "[]"] by (simp add: decode_snapshot_def encode_snapshot_def)


subsection \<open>Saving then loading\<close>

text \<open>
  C18: when the file can be written and every string fits its buffer, loading the
  file that \<open>save_accounts\<close> just wrote gives back the same table, field for
  field and with every ledger in order: the load after a save is the identity.
\<close>

theorem load_after_save:
  "fs_writable st \<Longrightarrow> total_accounts st \<le> MAX_ACCOUNTS \<Longrightarrow>
     \<forall>a \<in> set (accounts st). account_storable a \<Longrightarrow> load_accounts (persist st) = Some (persist st)"
  by (simp add: persist_def save_accounts_def load_accounts_def decode_snapshot_encode)

lemma length_encode_account:
  "transaction_count a \<le> MAX_TRANSACTIONS \<Longrightarrow> length (encode_account a) = 13 + MAX_TRANSACTIONS * SLOT_CELLS"
  by (simp add: encode_account_def length_concat_slots algebra_simps)

text \<open>
  C19: the file has the fixed layout of \<open>fwrite\<close>: a count, then one record of the
  same size (\<open>sizeof (BankAccount)\<close>, here 13 scalar fields and 100 transaction slots
  of 6 fields) per account, whatever the number of transactions it holds.
\<close>

theorem encode_snapshot_layout:
  "\<forall>a \<in> set accs. transaction_count a \<le> MAX_TRANSACTIONS \<Longrightarrow>
     length (encode_snapshot accs) = 1 + length accs * (13 + MAX_TRANSACTIONS * SLOT_CELLS)"
  by (induction accs) (simp_all add: encode_snapshot_def length_encode_account)

end
