(* ===== verification/Hasher.thy ===== *)
theory Hasher
  imports Bank_Prelude
begin

text \<open>
  The credential hasher, \<open>hash_password\<close> (\<^verbatim>\<open>src/bank.c\<close> lines 84--96): the djb2
  recurrence \<open>h = (h << 5) + h + c\<close> over the characters up to the first NUL,
  starting from 5381, printed with \<open>sprintf ("%lx")\<close> into a static buffer.
  The program is a Windows console program (\<open>conio.h\<close>, \<open>system ("cls")\<close>), where
  \<open>unsigned long\<close> has 32 bits and \<open>char\<close> is signed: the hash is a \<open>32 word\<close> and
  every character is read as a signed byte before it is added, wrapping modulo
  \<open>2^32\<close> as the C conversion does.
\<close>

type_synonym ulong = "32 word"

subsection \<open>The recurrence\<close>

text \<open>\<open>int c = *password++\<close>: a signed \<open>char\<close> promoted to \<open>int\<close>.\<close>

definition c_char_value :: "char \<Rightarrow> int" where
  "c_char_value c = (let n = int (of_char c) in if n < 128 then n else n - 256)"

definition djb2_step :: "ulong \<Rightarrow> char \<Rightarrow> ulong" where
  "djb2_step h c = (push_bit 5 h + h) + word_of_int (c_char_value c)"

text \<open>\<open>while ((c = *password++)) hash_value = \<dots>;\<close>: the end of the list is the
  terminating NUL of the buffer.\<close>

fun hash_loop :: "ulong \<Rightarrow> string \<Rightarrow> ulong" where
  "hash_loop h [] = h"
| "hash_loop h (c # cs) = (if c = CHR 0x00 then h else hash_loop (djb2_step h c) cs)"

definition hash_value :: "string \<Rightarrow> ulong" where
  "hash_value p = hash_loop 5381 p"

subsection \<open>\<open>sprintf (hash, "%lx", hash_value)\<close>\<close>

definition hex_digit :: "nat \<Rightarrow> char" where
  "hex_digit d = ''0123456789abcdef'' ! d"

function hex_nat :: "nat \<Rightarrow> string" where
  "hex_nat n = (if n < 16 then [hex_digit n] else hex_nat (n div 16) @ [hex_digit (n mod 16)])"
  by pat_completeness auto
termination
  by (relation "measure id") auto

declare hex_nat.simps [simp del]

definition format_lx :: "ulong \<Rightarrow> string" where
  "format_lx w = hex_nat (unat w)"

definition hash_password :: "string \<Rightarrow> string" where
  "hash_password p = format_lx (hash_value p)"

subsection \<open>Reading a token back\<close>

text \<open>
  Nothing in the program parses a token; the parser below is the inverse the
  round-trip lemma is stated with.
\<close>

definition hex_val :: "char \<Rightarrow> nat option" where
  "hex_val c =
     (let n = of_char c :: nat in
      if 48 \<le> n \<and> n < 58 then Some (n - 48)
      else if 97 \<le> n \<and> n < 103 then Some (n - 87)
      else None)"

fun parse_hex_acc :: "nat \<Rightarrow> string \<Rightarrow> nat option" where
  "parse_hex_acc acc [] = Some acc"
| "parse_hex_acc acc (c # cs) =
     (case hex_val c of None \<Rightarrow> None | Some d \<Rightarrow> parse_hex_acc (16 * acc + d) cs)"

definition parse_lx :: "string \<Rightarrow> ulong option" where
  "parse_lx s = (if s = [] then None else map_option word_of_nat (parse_hex_acc 0 s))"

subsection \<open>The recurrence as arithmetic\<close>

lemma djb2_step_mult: "djb2_step h c = 33 * h + word_of_int (c_char_value c)"
  by (simp add: djb2_step_def push_bit_eq_mult)

lemma hash_loop_cstr: "hash_loop h s = foldl djb2_step h (cstr s)"
  by (induction h s rule: hash_loop.induct) (auto simp: cstr_def)

lemma hash_value_cstr: "hash_value (cstr p) = hash_value p"
  by (simp add: hash_value_def hash_loop_cstr)

lemma c_char_value_range: "-128 \<le> c_char_value c \<and> c_char_value c < 128"
proof -
  have "of_char c < (256::nat)" by (rule nat_of_char_less_256)
  then show ?thesis by (simp add: c_char_value_def Let_def; linarith)
qed

subsection \<open>Hex printing\<close>

lemma hex_digit_val: "d < 16 \<Longrightarrow> hex_val (hex_digit d) = Some d"
proof -
  assume "d < 16"
  then have "d = 0 \<or> d = 1 \<or> d = 2 \<or> d = 3 \<or> d = 4 \<or> d = 5 \<or> d = 6 \<or> d = 7 \<or>
      d = 8 \<or> d = 9 \<or> d = 10 \<or> d = 11 \<or> d = 12 \<or> d = 13 \<or> d = 14 \<or> d = 15"
    by presburger
  then show ?thesis by (elim disjE) (simp_all add: hex_digit_def hex_val_def)
qed

lemma hex_nat_nonempty: "hex_nat n \<noteq> []"
  by (subst hex_nat.simps) simp

lemma parse_hex_acc_snoc:
  "parse_hex_acc acc (xs @ [c]) =
     (case parse_hex_acc acc xs of None \<Rightarrow> None
      | Some a \<Rightarrow> (case hex_val c of None \<Rightarrow> None | Some d \<Rightarrow> Some (16 * a + d)))"
  by (induction acc xs rule: parse_hex_acc.induct) (auto split: option.splits)

lemma parse_hex_nat: "parse_hex_acc acc (hex_nat n) = Some (acc * 16 ^ length (hex_nat n) + n)"
proof (induction n arbitrary: acc rule: hex_nat.induct)
  case (1 n)
  show ?case
  proof (cases "n < 16")
    case True
    then show ?thesis by (simp add: hex_nat.simps [of n] hex_digit_val)
  next
    case False
    let ?xs = "hex_nat (n div 16)"
    have IH: "parse_hex_acc acc ?xs = Some (acc * 16 ^ length ?xs + n div 16)"
      using "1.IH" False by simp
    have "16 * (acc * 16 ^ length ?xs + n div 16) + n mod 16 = acc * 16 ^ Suc (length ?xs) + n"
      by (simp add: algebra_simps)
    with False IH show ?thesis
      by (simp add: hex_nat.simps [of n] parse_hex_acc_snoc hex_digit_val)
  qed
qed

lemma hex_nat_length: "n < 16 ^ k \<Longrightarrow> 0 < k \<Longrightarrow> length (hex_nat n) \<le> k"
proof (induction n arbitrary: k rule: hex_nat.induct)
  case (1 n)
  show ?case
  proof (cases "n < 16")
    case True
    with "1.prems" show ?thesis by (simp add: hex_nat.simps [of n])
  next
    case False
    with "1.prems" obtain k' where k: "k = Suc k'" "0 < k'"
      by (cases k; cases "k - 1") auto
    with "1.prems" have "n div 16 < 16 ^ k'" by (simp add: less_mult_imp_div_less)
    with "1.IH" False k have "length (hex_nat (n div 16)) \<le> k'" by simp
    with False k show ?thesis by (simp add: hex_nat.simps [of n])
  qed
qed

subsection \<open>Properties of the hasher\<close>

lemma format_lx_inj: "format_lx a = format_lx b \<Longrightarrow> a = b"
proof -
  assume eq: "format_lx a = format_lx b"
  have "Some a = parse_lx (format_lx a)"
    by (simp add: parse_lx_def format_lx_def hex_nat_nonempty parse_hex_nat)
  also have "\<dots> = parse_lx (format_lx b)" by (simp only: eq)
  also have "\<dots> = Some b"
    by (simp add: parse_lx_def format_lx_def hex_nat_nonempty parse_hex_nat)
  finally show "a = b" by simp
qed

lemma hash_password_neq: "hash_value p \<noteq> hash_value q \<Longrightarrow> hash_password p \<noteq> hash_password q"
  by (auto simp: hash_password_def dest: format_lx_inj)

text \<open>
  Printing a hash value with \<open>%lx\<close> loses nothing: the printed token reads
  back as the same 32-bit value.
\<close>

theorem format_lx_roundtrip: "parse_lx (format_lx w) = Some w"
  by (simp add: parse_lx_def format_lx_def hex_nat_nonempty parse_hex_nat)

text \<open>
  A token is one to eight lowercase hex digits, so \<open>sprintf\<close> never overruns
  \<open>static char hash[50]\<close> and \<open>strcpy\<close> never overruns \<open>password_hash[50]\<close>.
\<close>

theorem hash_password_length: "0 < length (hash_password p) \<and> length (hash_password p) \<le> 8"
proof -
  have "unat (hash_value p) < 16 ^ 8" using unsigned_less [of "hash_value p"] by simp
  then have "length (hex_nat (unat (hash_value p))) \<le> 8" by (rule hex_nat_length) simp
  then show ?thesis by (simp add: hash_password_def format_lx_def hex_nat_nonempty)
qed

text \<open>
  Comparing two stored tokens with \<open>strcmp\<close> is comparing the two 32-bit hash
  values: the printing step neither merges nor splits values.
\<close>

theorem hash_password_eq_iff: "hash_password p = hash_password q \<longleftrightarrow> hash_value p = hash_value q"
proof
  assume "hash_password p = hash_password q"
  then show "hash_value p = hash_value q" unfolding hash_password_def by (rule format_lx_inj)
next
  assume "hash_value p = hash_value q"
  then show "hash_password p = hash_password q" by (simp add: hash_password_def)
qed

text \<open>
  One step of the loop is \<open>33 * h + c\<close> modulo \<open>2^32\<close>, with the signed
  character reduced modulo \<open>2^32\<close> as the C conversion to \<open>unsigned long\<close> does.
\<close>

theorem djb2_step_wraps:
  "unat (djb2_step h c) = (33 * unat h + nat (c_char_value c mod 2 ^ 32)) mod 2 ^ 32"
proof -
  have c: "unat (word_of_int (c_char_value c) :: ulong) = nat (c_char_value c mod 2 ^ 32)"
    by (simp add: unsigned_of_int take_bit_eq_mod nat_take_bit_eq)
  have "unat (djb2_step h c) = (unat (33 * h) + unat (word_of_int (c_char_value c) :: ulong)) mod 2 ^ 32"
    by (simp add: djb2_step_mult unat_word_ariths)
  also have "unat (33 * h) = (33 * unat h) mod 2 ^ 32"
    by (simp add: unat_word_ariths)
  finally show ?thesis by (simp add: c mod_add_left_eq)
qed

lemma hash_loop_append:
  "hash_loop h (p @ s) = (if CHR 0x00 \<in> set p then hash_loop h p else hash_loop (hash_loop h p) s)"
  by (induction h p rule: hash_loop.induct) auto

lemma djb2_pair_collision:
  "djb2_step (djb2_step h (CHR ''a'')) (CHR ''B'') = djb2_step (djb2_step h (CHR ''b'')) (CHR ''!'')"
  by (simp add: djb2_step_mult c_char_value_def algebra_simps)

text \<open>
  C30: the hash is not collision-free, and not only for one pair: in any password,
  replacing the two characters \<open>aB\<close> by \<open>b!\<close> gives another password with the same
  token (\<open>33 * 97 + 66 = 33 * 98 + 33\<close>, and the loop goes on from the same value), so
  either one opens an account whose password is the other.
\<close>

theorem hash_password_collision:
  "p @ ''aB'' @ q \<noteq> p @ ''b!'' @ q \<and> hash_password (p @ ''aB'' @ q) = hash_password (p @ ''b!'' @ q)"
proof -
  have "hash_loop h (''aB'' @ q) = hash_loop h (''b!'' @ q)" for h
    using djb2_pair_collision [of h] by simp
  then have "hash_value (p @ ''aB'' @ q) = hash_value (p @ ''b!'' @ q)"
    by (simp add: hash_value_def hash_loop_append)
  then show ?thesis by (simp add: hash_password_def)
qed

end
