(* ===== verification/Validation.thy ===== *)
theory Validation
  imports Bank_Prelude
begin

text \<open>
  The input validators of \<^verbatim>\<open>src/bank.c\<close>: \<open>validate_email\<close> (lines 120--136),
  \<open>validate_mobile\<close> (138--146), \<open>validate_amount\<close> (148--150), and the two checks
  \<open>create_account\<close> makes inline, on the name (455--461) and on the username length
  (466). Each loop is a recursive function that keeps the loop's variables as
  arguments and its early \<open>return 0\<close> as a \<open>False\<close> branch; each validator is
  proved equal to the declarative rule the specification states.
  Character classes are those of the "C" locale.
\<close>

subsection \<open>Character classes\<close>

definition isdigit :: "char \<Rightarrow> bool" where
  "isdigit c \<longleftrightarrow> (let n = of_char c :: nat in 48 \<le> n \<and> n \<le> 57)"

definition isalpha :: "char \<Rightarrow> bool" where
  "isalpha c \<longleftrightarrow> (let n = of_char c :: nat in (65 \<le> n \<and> n \<le> 90) \<or> (97 \<le> n \<and> n \<le> 122))"

subsection \<open>\<open>validate_email\<close>\<close>

text \<open>
  The loop state is \<open>at_count\<close> and \<open>dot_after_at\<close>; a second \<open>@\<close> returns 0 at
  once, a dot counts only while exactly one \<open>@\<close> has been seen.
\<close>

fun email_scan :: "nat \<Rightarrow> bool \<Rightarrow> string \<Rightarrow> bool" where
  "email_scan at_count dot_after_at [] = (at_count = 1 \<and> dot_after_at)"
| "email_scan at_count dot_after_at (c # cs) =
     (if c = CHR ''@'' then
        (if Suc at_count > 1 then False else email_scan (Suc at_count) dot_after_at cs)
      else if c = CHR ''.'' \<and> at_count = 1 then email_scan at_count True cs
      else email_scan at_count dot_after_at cs)"

definition validate_email :: "string \<Rightarrow> bool" where
  "validate_email email = (if length email < 5 then False else email_scan 0 False email)"

text \<open>The rule of the specification: length at least 5, exactly one \<open>@\<close>, a dot after it.\<close>

definition email_rule :: "string \<Rightarrow> bool" where
  "email_rule e \<longleftrightarrow> 5 \<le> length e \<and> count_list e CHR ''@'' = 1 \<and>
     CHR ''.'' \<in> set (dropWhile (\<lambda>c. c \<noteq> CHR ''@'') e)"

subsection \<open>\<open>validate_mobile\<close>\<close>

function mobile_loop :: "nat \<Rightarrow> string \<Rightarrow> bool" where
  "mobile_loop i m = (if i < 10 then (if \<not> isdigit (m ! i) then False else mobile_loop (Suc i) m)
                      else True)"
  by pat_completeness auto
termination
  by (relation "measure (\<lambda>(i, m). 10 - i)") auto

declare mobile_loop.simps [simp del]

definition validate_mobile :: "string \<Rightarrow> bool" where
  "validate_mobile mobile = (if length mobile \<noteq> 10 then False else mobile_loop 0 mobile)"

subsection \<open>\<open>validate_amount\<close>\<close>

definition validate_amount :: "money \<Rightarrow> bool" where
  "validate_amount amount \<longleftrightarrow> amount > 0 \<and> amount \<le> 1000000"

subsection \<open>The checks inside \<open>create_account\<close>\<close>

text \<open>\<open>for (i = 0; name[i]; i++) if (!isalpha (name[i]) && name[i] != ' ') \<dots> return;\<close>\<close>

fun validate_name :: "string \<Rightarrow> bool" where
  "validate_name [] = True"
| "validate_name (c # cs) = (if \<not> isalpha c \<and> c \<noteq> CHR '' '' then False else validate_name cs)"

definition validate_username_length :: "string \<Rightarrow> bool" where
  "validate_username_length u \<longleftrightarrow> \<not> (length u < 8 \<or> length u > 15)"

subsection \<open>Lemmas\<close>

lemma email_scan_one:
  "email_scan (Suc 0) d cs \<longleftrightarrow> CHR ''@'' \<notin> set cs \<and> (d \<or> CHR ''.'' \<in> set cs)"
  by (induction cs arbitrary: d) auto

lemma email_scan_zero:
  "email_scan 0 d cs \<longleftrightarrow>
     count_list cs CHR ''@'' = 1 \<and> (d \<or> CHR ''.'' \<in> set (dropWhile (\<lambda>c. c \<noteq> CHR ''@'') cs))"
proof (induction cs)
  case Nil
  then show ?case by simp
next
  case (Cons c cs)
  show ?case
  proof (cases "c = CHR ''@''")
    case True
    then show ?thesis
      by (auto simp: email_scan_one count_list_0_iff)
  next
    case False
    with Cons.IH show ?thesis by simp
  qed
qed

lemma mobile_loop_iff: "mobile_loop i m \<longleftrightarrow> (\<forall>k. i \<le> k \<and> k < 10 \<longrightarrow> isdigit (m ! k))"
proof (induction i m rule: mobile_loop.induct)
  case (1 i m)
  show ?case
  proof (cases "i < 10")
    case True
    have step: "(\<forall>k. i \<le> k \<and> k < 10 \<longrightarrow> isdigit (m ! k)) \<longleftrightarrow>
        isdigit (m ! i) \<and> (\<forall>k. Suc i \<le> k \<and> k < 10 \<longrightarrow> isdigit (m ! k))"
      using True by (metis Suc_leD le_refl not_less_eq_eq order_antisym_conv)
    from True "1.IH" show ?thesis
      by (simp add: mobile_loop.simps [of i m] step)
  next
    case False
    then show ?thesis by (auto simp: mobile_loop.simps [of i m])
  qed
qed

lemma validate_name_iff: "validate_name s \<longleftrightarrow> (\<forall>c \<in> set s. isalpha c \<or> c = CHR '' '')"
  by (induction s) auto

subsection \<open>Properties of the validators\<close>

text \<open>
  C25: \<open>validate_email\<close> accepts exactly the strings of length at least five with
  exactly one \<open>@\<close> and a dot somewhere after it.
\<close>

theorem validate_email_iff: "validate_email e \<longleftrightarrow> email_rule e"
  by (auto simp: validate_email_def email_rule_def email_scan_zero)

text \<open>
  C26: \<open>validate_mobile\<close> accepts exactly the strings of ten decimal digits.
\<close>

theorem validate_mobile_iff: "validate_mobile m \<longleftrightarrow> length m = 10 \<and> (\<forall>c \<in> set m. isdigit c)"
proof
  assume "validate_mobile m"
  then have len: "length m = 10" and all: "\<forall>k < 10. isdigit (m ! k)"
    by (auto simp: validate_mobile_def mobile_loop_iff split: if_splits)
  from len all show "length m = 10 \<and> (\<forall>c \<in> set m. isdigit c)"
    by (auto simp: in_set_conv_nth)
next
  assume "length m = 10 \<and> (\<forall>c \<in> set m. isdigit c)"
  then show "validate_mobile m"
    by (auto simp: validate_mobile_def mobile_loop_iff)
qed


end
