(* ===== verification/Printing.thy ===== *)
theory Printing
  imports Bank_Types
begin

text \<open>
  The two places where \<^verbatim>\<open>src/bank.c\<close> prints numbers into fixed buffers with
  \<open>sprintf\<close>: \<open>generate_account_number\<close> (lines 106--109, \<open>"SAR%010d"\<close>) and
  \<open>get_current_date\<close> (98--104, \<open>"%02d/%02d/%04d %02d:%02d"\<close>). The clock and
  \<open>rand ()\<close> stay inputs: \<open>get_current_date\<close> takes the fields of the \<open>struct tm\<close>
  that \<open>localtime\<close> returns, \<open>generate_account_number\<close> the value of \<open>rand ()\<close>.
  \<open>%0wd\<close> of a non-negative value is its decimal digits padded on the left with
  zeros to at least \<open>w\<close> characters.
\<close>

function dec_nat :: "nat \<Rightarrow> string" where
  "dec_nat n = (if n < 10 then [''0123456789'' ! n] else dec_nat (n div 10) @ [''0123456789'' ! (n mod 10)])"
  by pat_completeness auto
termination
  by (relation "measure id") auto

declare dec_nat.simps [simp del]

definition zero_pad :: "nat \<Rightarrow> nat \<Rightarrow> string" where
  "zero_pad w n = (let s = dec_nat n in replicate (w - length s) (CHR ''0'') @ s)"

definition format_010d :: "nat \<Rightarrow> string" where
  "format_010d n = zero_pad 10 n"

text \<open>
  \<open>srand (time (NULL)); sprintf (s, "SAR%010d", rand () % 1000000000)\<close>: \<open>r\<close> is the
  first \<open>rand ()\<close> after seeding with the current second, so two calls in the same
  second get the same \<open>r\<close>.
\<close>

definition generate_account_number :: "nat \<Rightarrow> string" where
  "generate_account_number r = ''SAR'' @ format_010d (r mod 1000000000)"

record tm =
  tm_mday :: nat
  tm_mon :: nat
  tm_year :: nat
  tm_hour :: nat
  tm_min :: nat

definition get_current_date :: "tm \<Rightarrow> string" where
  "get_current_date t =
     zero_pad 2 (tm_mday t) @ ''/'' @ zero_pad 2 (tm_mon t + 1) @ ''/'' @ zero_pad 4 (tm_year t + 1900) @
     '' '' @ zero_pad 2 (tm_hour t) @ '':'' @ zero_pad 2 (tm_min t)"

subsection \<open>Reading digits back\<close>

text \<open>Nothing in the program parses these strings; the parser is the inverse the lemmas use.\<close>

definition dec_val :: "char \<Rightarrow> nat option" where
  "dec_val c = (let n = of_char c :: nat in if 48 \<le> n \<and> n < 58 then Some (n - 48) else None)"

fun parse_dec_acc :: "nat \<Rightarrow> string \<Rightarrow> nat option" where
  "parse_dec_acc acc [] = Some acc"
| "parse_dec_acc acc (c # cs) = (case dec_val c of None \<Rightarrow> None | Some d \<Rightarrow> parse_dec_acc (10 * acc + d) cs)"

subsection \<open>Decimal printing\<close>

lemma dec_digit_val: "d < 10 \<Longrightarrow> dec_val (''0123456789'' ! d) = Some d"
proof -
  assume "d < 10"
  then have "d = 0 \<or> d = 1 \<or> d = 2 \<or> d = 3 \<or> d = 4 \<or> d = 5 \<or> d = 6 \<or> d = 7 \<or> d = 8 \<or> d = 9"
    by presburger
  then show ?thesis by (elim disjE) (simp_all add: dec_val_def)
qed

lemma dec_nat_nonempty: "dec_nat n \<noteq> []"
  by (subst dec_nat.simps) simp

lemma parse_dec_acc_append:
  "parse_dec_acc acc (xs @ ys) = (case parse_dec_acc acc xs of None \<Rightarrow> None | Some a \<Rightarrow> parse_dec_acc a ys)"
  by (induction acc xs rule: parse_dec_acc.induct) (auto split: option.splits)

lemma parse_dec_zeros: "parse_dec_acc 0 (replicate k (CHR ''0'')) = Some 0"
  by (induction k) (simp_all add: dec_val_def)

lemma parse_dec_nat: "parse_dec_acc acc (dec_nat n) = Some (acc * 10 ^ length (dec_nat n) + n)"
proof (induction n arbitrary: acc rule: dec_nat.induct)
  case (1 n)
  show ?case
  proof (cases "n < 10")
    case True
    then show ?thesis by (simp add: dec_nat.simps [of n] dec_digit_val)
  next
    case False
    let ?xs = "dec_nat (n div 10)"
    have IH: "parse_dec_acc acc ?xs = Some (acc * 10 ^ length ?xs + n div 10)"
      using "1.IH" False by simp
    have "10 * (acc * 10 ^ length ?xs + n div 10) + n mod 10 = acc * 10 ^ Suc (length ?xs) + n"
      by (simp add: algebra_simps)
    with False IH show ?thesis
      by (simp add: dec_nat.simps [of n] parse_dec_acc_append dec_digit_val)
  qed
qed

lemma dec_nat_length: "n < 10 ^ k \<Longrightarrow> 0 < k \<Longrightarrow> length (dec_nat n) \<le> k"
proof (induction n arbitrary: k rule: dec_nat.induct)
  case (1 n)
  show ?case
  proof (cases "n < 10")
    case True
    with "1.prems" show ?thesis by (simp add: dec_nat.simps [of n])
  next
    case False
    with "1.prems" obtain k' where k: "k = Suc k'" "0 < k'"
      by (cases k; cases "k - 1") auto
    with "1.prems" have "n div 10 < 10 ^ k'" by (simp add: less_mult_imp_div_less)
    with "1.IH" False k have "length (dec_nat (n div 10)) \<le> k'" by simp
    with False k show ?thesis by (simp add: dec_nat.simps [of n])
  qed
qed

lemma parse_zero_pad: "parse_dec_acc 0 (zero_pad w n) = Some n"
  by (simp add: zero_pad_def Let_def parse_dec_acc_append parse_dec_zeros parse_dec_nat)

lemma zero_pad_inj: "zero_pad w n = zero_pad w m \<Longrightarrow> n = m"
  by (metis option.inject parse_zero_pad)

lemma zero_pad_length: "n < 10 ^ w \<Longrightarrow> 0 < w \<Longrightarrow> length (zero_pad w n) = w"
  using dec_nat_length [of n w] by (simp add: zero_pad_def Let_def)

lemma dec_nat_digits: "set (dec_nat n) \<subseteq> set ''0123456789''"
proof (induction n rule: dec_nat.induct)
  case (1 n)
  have "''0123456789'' ! (n mod 10) \<in> set ''0123456789''" by (rule nth_mem) simp
  moreover have "n < 10 \<Longrightarrow> ''0123456789'' ! n \<in> set ''0123456789''" by (rule nth_mem) simp
  ultimately show ?case using "1.IH" by (subst dec_nat.simps) auto
qed

lemma zero_pad_no_nul: "CHR 0x00 \<notin> set (zero_pad w n)"
  using dec_nat_digits [of n] by (auto simp: zero_pad_def Let_def)

lemma generate_account_number_eq:
  "generate_account_number r = generate_account_number r' \<Longrightarrow> r mod 1000000000 = r' mod 1000000000"
  by (auto simp: generate_account_number_def format_010d_def dest: zero_pad_inj)

lemma generate_account_number_cfield:
  "length (generate_account_number r) = 13 \<and> CHR 0x00 \<notin> set (generate_account_number r)"
proof -
  have "length (format_010d (r mod 1000000000)) = 10"
    unfolding format_010d_def by (rule zero_pad_length) simp_all
  then show ?thesis
    using zero_pad_no_nul [of 10 "r mod 1000000000"] by (simp add: generate_account_number_def format_010d_def)
qed

text \<open>
  C31: an account number is always \<open>SAR\<close> and ten digits, thirteen characters
  with no NUL, so it fits the 15-byte \<open>account_number\<close> field with its terminator;
  and two account numbers are equal exactly when the random values agree modulo
  \<open>10^9\<close>: printing with \<open>%010d\<close> loses nothing.
\<close>

theorem account_number_format:
  "length (generate_account_number r) = 13 \<and> CHR 0x00 \<notin> set (generate_account_number r) \<and>
   take 3 (generate_account_number r) = ''SAR'' \<and>
   (generate_account_number r = generate_account_number r' \<longleftrightarrow> r mod 1000000000 = r' mod 1000000000)"
  using generate_account_number_cfield [of r] generate_account_number_eq [of r r']
  by (auto simp: generate_account_number_def)

text \<open>
  With the ranges \<open>localtime\<close> returns (two-digit day, month, hour and minute,
  a four-digit year), the date string is sixteen characters, so it fits the
  20-byte \<open>date\<close> and \<open>created_date\<close> fields with its terminator.
\<close>

theorem get_current_date_length:
  "tm_mday t < 100 \<Longrightarrow> tm_mon t + 1 < 100 \<Longrightarrow> tm_year t + 1900 < 10000 \<Longrightarrow>
   tm_hour t < 100 \<Longrightarrow> tm_min t < 100 \<Longrightarrow> length (get_current_date t) = 16"
  by (simp add: get_current_date_def zero_pad_length)

end
