(* ===== verification/Account_Store.thy ===== *)
theory Account_Store
  imports Ledger Persistence Hasher Validation Printing
begin

text \<open>
  The account store of \<^verbatim>\<open>src/bank.c\<close>: the two lookups (lines 152--168), account
  numbers (theory \<open>Printing\<close>), \<open>create_account\<close> (433--596), \<open>deposit_money\<close> (598--625),
  \<open>withdraw_money\<close> (627--664), \<open>change_password\<close> (785--850), and the administrator's
  listing and totals (852--875, 308--313). Each handler takes the values it reads
  from the keyboard as arguments, in the order it reads them, and the current date
  and random number as inputs; it returns its message and the new state. Every
  early \<open>return\<close> of the source is a \<open>Failure\<close> that leaves the state unchanged.
  \<open>account_ok\<close> is the per-account invariant every handler keeps.
\<close>

subsection \<open>Lookups\<close>

definition find_account_by_username :: "bank \<Rightarrow> string \<Rightarrow> acct_index option" where
  "find_account_by_username st u = find_index (\<lambda>a. username a = u) (accounts st)"

definition find_account_by_number :: "bank \<Rightarrow> string \<Rightarrow> acct_index option" where
  "find_account_by_number st n = find_index (\<lambda>a. account_number a = n) (accounts st)"

subsection \<open>Creating an account\<close>

text \<open>The values \<open>create_account\<close> reads, in the order it reads them.\<close>

record create_form =
  cf_name :: string
  cf_username :: string
  cf_email :: string
  cf_mobile :: string
  cf_dob :: string
  cf_password :: string
  cf_confirm :: string
  cf_type_choice :: int
  cf_deposit :: money

definition new_account ::
  "string \<Rightarrow> create_form \<Rightarrow> string \<Rightarrow> string \<Rightarrow> bank_account" where
  "new_account acct_no f ty now =
     add_transaction
       (zero_account\<lparr>account_number := acct_no, name := cf_name f, username := cf_username f,
          email := cf_email f, mobile := cf_mobile f, dob := cf_dob f, account_type := ty,
          balance := cf_deposit f, password_hash := hash_password (cf_password f),
          is_active := True, failed_attempts := 0, created_date := now\<rparr>)
       DEPOSIT (cf_deposit f) ''Initial Deposit'' None now"

definition create_account :: "nat \<Rightarrow> create_form \<Rightarrow> string \<Rightarrow> bank \<Rightarrow> bank outcome" where
  "create_account r f now st =
     (if total_accounts st \<ge> MAX_ACCOUNTS then fail MaxAccountsReached st
      else let acct_no = generate_account_number r in
      if \<not> validate_name (cf_name f) then fail InvalidName st
      else if \<not> validate_username_length (cf_username f) then fail InvalidUsernameLength st
      else if find_account_by_username st (cf_username f) \<noteq> None then fail UsernameExists st
      else if \<not> validate_email (cf_email f) then fail InvalidEmail st
      else if \<not> validate_mobile (cf_mobile f) then fail InvalidMobile st
      else if cstr (cf_password f) \<noteq> cstr (cf_confirm f) then fail PasswordsDontMatch st
      else case account_type_choice (cf_type_choice f) of
        None \<Rightarrow> fail InvalidAccountTypeChoice st
      | Some (ty, min_deposit) \<Rightarrow>
          if cf_deposit f < min_deposit then fail InsufficientInitialDeposit st
          else (Success, persist (st\<lparr>accounts := accounts st @ [new_account acct_no f ty now]\<rparr>)))"

subsection \<open>Deposit, withdrawal, password change\<close>

text \<open>
  The three run on \<open>current_user\<close>; from the menus they are reached only with a user
  logged in (theory \<open>Session\<close>), \<open>NoSession\<close> stands for the NULL dereference.
\<close>

definition deposit_money :: "money \<Rightarrow> string \<Rightarrow> bank \<Rightarrow> bank outcome" where
  "deposit_money amt now st =
     (case current_user st of None \<Rightarrow> fail NoSession st
      | Some u \<Rightarrow>
          if \<not> validate_amount amt then fail InvalidAmount st
          else let a = accounts st ! u;
                   a1 = a\<lparr>balance := balance a + amt\<rparr>;
                   a2 = add_transaction a1 DEPOSIT amt ''Cash Deposit'' None now
               in (Success, persist (st\<lparr>accounts := (accounts st)[u := a2]\<rparr>)))"

definition withdraw_money :: "money \<Rightarrow> string \<Rightarrow> bank \<Rightarrow> bank outcome" where
  "withdraw_money amt now st =
     (case current_user st of None \<Rightarrow> fail NoSession st
      | Some u \<Rightarrow>
          if \<not> validate_amount amt then fail InvalidAmount st
          else let a = accounts st ! u; m = min_balance (account_type a) in
          if balance a - amt < m then fail (InsufficientBalance m) st
          else let a1 = a\<lparr>balance := balance a - amt\<rparr>;
                   a2 = add_transaction a1 WITHDRAW amt ''Cash Withdrawal'' None now
               in (Success, persist (st\<lparr>accounts := (accounts st)[u := a2]\<rparr>)))"

definition change_password :: "string \<Rightarrow> string \<Rightarrow> string \<Rightarrow> bank \<Rightarrow> bank outcome" where
  "change_password old new confirm st =
     (case current_user st of None \<Rightarrow> fail NoSession st
      | Some u \<Rightarrow>
          let a = accounts st ! u in
          if password_hash a \<noteq> hash_password old then fail IncorrectCurrentPassword st
          else if cstr new \<noteq> cstr confirm then fail NewPasswordsDontMatch st
          else (Success, persist (st\<lparr>accounts :=
                  (accounts st)[u := a\<lparr>password_hash := hash_password new\<rparr>]\<rparr>)))"

subsection \<open>Administrator views\<close>

definition admin_view_all_accounts :: "bank \<Rightarrow> (string \<times> string \<times> string \<times> money \<times> bool) list" where
  "admin_view_all_accounts st =
     map (\<lambda>a. (account_number a, name a, account_type a, balance a, is_active a)) (accounts st)"

definition admin_totals :: "bank \<Rightarrow> nat \<times> money" where
  "admin_totals st = (total_accounts st, foldl (\<lambda>s a. s + balance a) 0 (accounts st))"

subsection \<open>The per-account invariant\<close>

definition account_ok :: "bank_account \<Rightarrow> bool" where
  "account_ok a \<longleftrightarrow>
     valid_account_type (account_type a) \<and> min_balance (account_type a) \<le> balance a \<and>
     ledger_ok a \<and> failed_attempts a \<le> 3 \<and> (is_active a \<longrightarrow> failed_attempts a < 3)"

definition store_ok :: "bank \<Rightarrow> bool" where
  "store_ok st \<longleftrightarrow>
     total_accounts st \<le> MAX_ACCOUNTS \<and> (\<forall>a \<in> set (accounts st). account_ok a) \<and>
     distinct (map username (accounts st)) \<and>
     (case current_user st of None \<Rightarrow> True | Some u \<Rightarrow> u < total_accounts st)"

subsection \<open>Lemmas: saving, lookups, the invariant\<close>

lemma persist_frame [simp]:
  "accounts (persist st) = accounts st" "current_user (persist st) = current_user st"
  "fs_writable (persist st) = fs_writable st"
  by (simp_all add: persist_def save_accounts_def)

lemma persist_disk:
  "accounts_dat (persist st) = (if fs_writable st then Some (encode_snapshot (accounts st)) else accounts_dat st)"
  by (simp add: persist_def save_accounts_def)

lemma store_ok_persist [simp]: "store_ok (persist st) = store_ok st"
  by (simp add: store_ok_def split: option.splits)

lemma find_account_by_username_None:
  "find_account_by_username st u = None \<longleftrightarrow> u \<notin> set (map username (accounts st))"
  by (auto simp: find_account_by_username_def find_index_None_iff)

lemma account_ok_balance_then_add:
  "account_ok a \<Longrightarrow> 0 < amt \<Longrightarrow> min_balance (account_type a) \<le> b \<Longrightarrow>
     account_ok (add_transaction (a\<lparr>balance := b\<rparr>) ty amt d r now)"
  by (simp add: account_ok_def ledger_ok_balance_then_add)

lemma new_account_fields:
  "balance (new_account acct_no f ty now) = cf_deposit f"
  "account_type (new_account acct_no f ty now) = ty"
  "account_number (new_account acct_no f ty now) = acct_no"
  "username (new_account acct_no f ty now) = cf_username f"
  "is_active (new_account acct_no f ty now)"
  "failed_attempts (new_account acct_no f ty now) = 0"
  "password_hash (new_account acct_no f ty now) = hash_password (cf_password f)"
  "transactions (new_account acct_no f ty now) =
     [\<lparr>date = now, txn_kind = DEPOSIT, amount = cf_deposit f, balance_after = cf_deposit f,
       description = ''Initial Deposit'', reference_account = ''N/A''\<rparr>]"
  "name (new_account acct_no f ty now) = cf_name f" "email (new_account acct_no f ty now) = cf_email f"
  "mobile (new_account acct_no f ty now) = cf_mobile f" "dob (new_account acct_no f ty now) = cf_dob f"
  by (simp_all add: new_account_def add_transaction_def zero_account_def bank_limits)

lemma account_ok_new_account:
  "account_type_choice c = Some (ty, m) \<Longrightarrow> m \<le> cf_deposit f \<Longrightarrow>
     account_ok (new_account acct_no f ty now)"
  using account_type_choice_Some [of c ty m] min_balance_pos [of ty]
  by (auto simp: account_ok_def ledger_ok_def new_account_fields bank_limits)

lemma store_ok_update:
  "store_ok st \<Longrightarrow> u < total_accounts st \<Longrightarrow> account_ok a' \<Longrightarrow>
     username a' = username (accounts st ! u) \<Longrightarrow>
     store_ok (st\<lparr>accounts := (accounts st)[u := a']\<rparr>)"
proof -
  assume ok: "store_ok st" and u: "u < total_accounts st" and a': "account_ok a'"
    and un: "username a' = username (accounts st ! u)"
  have "map username ((accounts st)[u := a']) =
      (map username (accounts st))[u := map username (accounts st) ! u]"
    using u un by (simp add: map_update)
  also have "\<dots> = map username (accounts st)" by (rule list_update_id)
  finally have "map username ((accounts st)[u := a']) = map username (accounts st)" .
  moreover have "\<forall>a \<in> set ((accounts st)[u := a']). account_ok a"
    using ok a' by (metis list_all_iff list_all_update store_ok_def)
  ultimately show ?thesis using ok by (simp add: store_ok_def split: option.splits)
qed

lemma store_ok_current:
  "store_ok st \<Longrightarrow> current_user st = Some u \<Longrightarrow> u < total_accounts st \<and> account_ok (accounts st ! u)"
  by (auto simp: store_ok_def)

subsection \<open>Each handler keeps the invariant\<close>

lemma create_account_Success:
  "fst (create_account r f now st) = Success \<Longrightarrow>
     \<exists>ty. accounts (snd (create_account r f now st)) = accounts st @ [new_account (generate_account_number r) f ty now]"
  by (auto simp: create_account_def Let_def split: option.splits if_splits)

lemma create_account_Success_cases:
  "fst (create_account r f now st) = Success \<Longrightarrow>
     \<exists>ty m. account_type_choice (cf_type_choice f) = Some (ty, m) \<and> m \<le> cf_deposit f \<and>
       find_account_by_username st (cf_username f) = None \<and>
       snd (create_account r f now st) =
         persist (st\<lparr>accounts := accounts st @ [new_account (generate_account_number r) f ty now]\<rparr>)"
  by (auto simp: create_account_def Let_def split: option.splits if_splits)

lemma create_account_fail_same:
  "fst (create_account r f now st) \<noteq> Success \<Longrightarrow> snd (create_account r f now st) = st"
  by (auto simp: create_account_def Let_def split: option.splits if_splits)

lemma create_account_store_ok:
  "store_ok st \<Longrightarrow> store_ok (snd (create_account r f now st))"
proof -
  assume ok: "store_ok st"
  show ?thesis
  proof (cases "fst (create_account r f now st) = Success")
    case False
    then have "snd (create_account r f now st) = st"
      by (auto simp: create_account_def Let_def split: if_splits option.splits)
    with ok show ?thesis by simp
  next
    case True
    then obtain ty m where c: "account_type_choice (cf_type_choice f) = Some (ty, m)"
      and m: "m \<le> cf_deposit f" and lt: "total_accounts st < MAX_ACCOUNTS"
      and fresh: "find_account_by_username st (cf_username f) = None"
      and res: "snd (create_account r f now st) =
        persist (st\<lparr>accounts := accounts st @ [new_account (generate_account_number r) f ty now]\<rparr>)"
      by (auto simp: create_account_def Let_def split: if_splits option.splits)
    from fresh have "cf_username f \<notin> set (map username (accounts st))"
      by (simp add: find_account_by_username_None)
    with ok c m lt show ?thesis
      by (auto simp: res store_ok_def account_ok_new_account new_account_fields
          split: option.splits)
  qed
qed

lemma deposit_money_store_ok:
  "store_ok st \<Longrightarrow> store_ok (snd (deposit_money amt now st))"
proof (cases "current_user st")
  case (Some u)
  assume ok: "store_ok st"
  from store_ok_current [OF ok Some] have u: "u < total_accounts st"
    and a: "account_ok (accounts st ! u)" by simp_all
  show ?thesis
  proof (cases "validate_amount amt")
    case True
    then have amt: "0 < amt" by (simp add: validate_amount_def)
    from a amt have "min_balance (account_type (accounts st ! u)) \<le> balance (accounts st ! u) + amt"
      by (simp add: account_ok_def)
    with a amt have "account_ok (add_transaction ((accounts st ! u)\<lparr>balance := balance (accounts st ! u) + amt\<rparr>)
        DEPOSIT amt ''Cash Deposit'' None now)"
      by (rule account_ok_balance_then_add)
    with ok u Some True show ?thesis
      by (simp add: deposit_money_def Let_def store_ok_update)
  next
    case False
    with ok Some show ?thesis by (simp add: deposit_money_def)
  qed
qed (simp add: deposit_money_def)

lemma withdraw_money_store_ok:
  "store_ok st \<Longrightarrow> store_ok (snd (withdraw_money amt now st))"
proof (cases "current_user st")
  case (Some u)
  assume ok: "store_ok st"
  from store_ok_current [OF ok Some] have u: "u < total_accounts st"
    and a: "account_ok (accounts st ! u)" by simp_all
  let ?a = "accounts st ! u"
  show ?thesis
  proof (cases "validate_amount amt \<and> \<not> balance ?a - amt < min_balance (account_type ?a)")
    case True
    then have amt: "0 < amt" and fl: "min_balance (account_type ?a) \<le> balance ?a - amt"
      by (simp_all add: validate_amount_def)
    from a amt fl have "account_ok (add_transaction (?a\<lparr>balance := balance ?a - amt\<rparr>)
        WITHDRAW amt ''Cash Withdrawal'' None now)"
      by (rule account_ok_balance_then_add)
    with ok u Some True show ?thesis
      by (simp add: withdraw_money_def Let_def store_ok_update)
  next
    case False
    with ok Some show ?thesis by (auto simp: withdraw_money_def Let_def)
  qed
qed (simp add: withdraw_money_def)

lemma change_password_store_ok:
  "store_ok st \<Longrightarrow> store_ok (snd (change_password old new confirm st))"
proof (cases "current_user st")
  case (Some u)
  assume ok: "store_ok st"
  from store_ok_current [OF ok Some] have u: "u < total_accounts st"
    and a: "account_ok (accounts st ! u)" by simp_all
  from a have "account_ok ((accounts st ! u)\<lparr>password_hash := hash_password new\<rparr>)"
    by (simp add: account_ok_def ledger_ok_def)
  with ok u Some show ?thesis
    by (auto simp: change_password_def Let_def store_ok_update)
qed (simp add: change_password_def)

subsection \<open>Properties of the store's handlers\<close>

text \<open>
  C10: a successful \<open>create_account\<close> appends one account, active, with no failed
  attempts, the hash of the password, the initial deposit as balance, and a ledger
  of exactly one \<open>DEPOSIT\<close> of that amount whose balance-after is the deposit.
\<close>

theorem create_account_creates:
  assumes "total_accounts st < MAX_ACCOUNTS" "validate_name (cf_name f)"
    "validate_username_length (cf_username f)" "find_account_by_username st (cf_username f) = None"
    "validate_email (cf_email f)" "validate_mobile (cf_mobile f)"
    "cstr (cf_password f) = cstr (cf_confirm f)"
    "account_type_choice (cf_type_choice f) = Some (ty, m)" "m \<le> cf_deposit f"
  shows "\<exists>st'. create_account r f now st = (Success, st') \<and>
     accounts st' = accounts st @ [new_account (generate_account_number r) f ty now] \<and>
     balance (last (accounts st')) = cf_deposit f \<and> is_active (last (accounts st')) \<and>
     failed_attempts (last (accounts st')) = 0 \<and>
     password_hash (last (accounts st')) = hash_password (cf_password f) \<and>
     transactions (last (accounts st')) =
       [\<lparr>date = now, txn_kind = DEPOSIT, amount = cf_deposit f, balance_after = cf_deposit f,
         description = ''Initial Deposit'', reference_account = ''N/A''\<rparr>]"
  using assms by (simp add: create_account_def Let_def new_account_fields)

text \<open>
  C8: \<open>withdraw_money\<close> by a logged-in user succeeds exactly when the amount is valid
  and the balance stays at or above the account type's minimum; it then lowers the
  balance by the amount and records a \<open>WITHDRAW\<close>, the ledger permitting.
\<close>

theorem withdraw_money_spec:
  assumes "current_user st = Some u" "u < total_accounts st"
  shows "(fst (withdraw_money amt now st) = Success \<longleftrightarrow>
           validate_amount amt \<and> min_balance (account_type (accounts st ! u)) \<le> balance (accounts st ! u) - amt) \<and>
         (fst (withdraw_money amt now st) = Success \<longrightarrow>
           accounts (snd (withdraw_money amt now st)) = (accounts st)[u :=
             add_transaction ((accounts st ! u)\<lparr>balance := balance (accounts st ! u) - amt\<rparr>)
               WITHDRAW amt ''Cash Withdrawal'' None now])"
  using assms by (auto simp: withdraw_money_def Let_def)

text \<open>
  C9: \<open>deposit_money\<close> by a logged-in user succeeds exactly when the amount is in
  \<open>(0, 1000000]\<close>; it then raises the balance by the amount and records a
  \<open>DEPOSIT\<close> whose balance-after is the new balance, the ledger permitting.
\<close>

theorem deposit_money_spec:
  assumes "current_user st = Some u" "u < total_accounts st"
  shows "(fst (deposit_money amt now st) = Success \<longleftrightarrow> 0 < amt \<and> amt \<le> 1000000) \<and>
         (fst (deposit_money amt now st) = Success \<longrightarrow>
           accounts (snd (deposit_money amt now st)) = (accounts st)[u :=
             add_transaction ((accounts st ! u)\<lparr>balance := balance (accounts st ! u) + amt\<rparr>)
               DEPOSIT amt ''Cash Deposit'' None now])"
  using assms by (auto simp: deposit_money_def Let_def validate_amount_def)

text \<open>
  C14: every failure of the store's handlers leaves the whole state as it was:
  validation finishes before any field is written.
\<close>

theorem store_handlers_fail_unchanged:
  "(fst (create_account r f now st) = Success \<or> snd (create_account r f now st) = st) \<and>
   (fst (deposit_money amt now st) = Success \<or> snd (deposit_money amt now st) = st) \<and>
   (fst (withdraw_money amt now st) = Success \<or> snd (withdraw_money amt now st) = st) \<and>
   (fst (change_password old new confirm st) = Success \<or> snd (change_password old new confirm st) = st)"
  by (auto simp: create_account_def deposit_money_def withdraw_money_def change_password_def Let_def
      split: option.splits)

text \<open>
  C21: the account number depends only on the random value \<open>r\<close>, and nothing checks
  it against the table: two successful creations with the same \<open>r\<close> (the same
  second of \<open>time (NULL)\<close>) store two accounts with the same number.
\<close>

theorem create_account_number_collision:
  "fst (create_account r f now st) = Success \<Longrightarrow>
   fst (create_account r g now' (snd (create_account r f now st))) = Success \<Longrightarrow>
   \<not> distinct (map account_number (accounts (snd (create_account r g now' (snd (create_account r f now st))))))"
  by (auto dest!: create_account_Success simp: new_account_def)

text \<open>
  C22: \<open>deposit_money\<close> reports success when \<open>save_accounts\<close> cannot write the file:
  the balance in memory has changed, the file has not.
\<close>

theorem deposit_success_unsaved:
  "\<not> fs_writable st \<Longrightarrow> current_user st = Some u \<Longrightarrow> u < total_accounts st \<Longrightarrow> validate_amount amt \<Longrightarrow>
     fst (deposit_money amt now st) = Success \<and>
     balance (accounts (snd (deposit_money amt now st)) ! u) = balance (accounts st ! u) + amt \<and>
     accounts_dat (snd (deposit_money amt now st)) = accounts_dat st"
  by (simp add: deposit_money_def Let_def persist_def save_accounts_def)

end
