(* ===== verification/Authentication.thy ===== *)
theory Authentication
  imports Account_Store
begin

text \<open>
  Authentication and lockout: the checks of \<open>user_login\<close> (\<^verbatim>\<open>src/bank.c\<close> lines
  355--383) after the username and the masked password have been read, the
  administrator's credential check (279--280), and the administrator's
  \<open>admin_block_account\<close> (877--895) and \<open>admin_unblock_account\<close> (897--916).
  Per account the protocol is a two-state machine, active and blocked: a wrong
  password counts a failed attempt and the third one blocks; a right password
  resets the count and opens a session; only the administrator unblocks.
\<close>

definition user_login :: "string \<Rightarrow> string \<Rightarrow> bank \<Rightarrow> bank outcome" where
  "user_login uname pw st =
     (case find_account_by_username st uname of
        None \<Rightarrow> fail AccountNotFound st
      | Some i \<Rightarrow>
          let a = accounts st ! i in
          if \<not> is_active a then fail AccountBlocked st
          else if password_hash a \<noteq> hash_password pw then
            let fa = Suc (failed_attempts a);
                a' = (if fa \<ge> 3 then a\<lparr>failed_attempts := fa, is_active := False\<rparr>
                      else a\<lparr>failed_attempts := fa\<rparr>)
            in (Failure (if fa \<ge> 3 then BlockedAfterFailedAttempts else InvalidPassword (3 - fa)),
                persist (st\<lparr>accounts := (accounts st)[i := a']\<rparr>))
          else (Success, st\<lparr>accounts := (accounts st)[i := a\<lparr>failed_attempts := 0\<rparr>],
                            current_user := Some i\<rparr>))"

definition admin_login_ok :: "string \<Rightarrow> string \<Rightarrow> bool" where
  "admin_login_ok uname pw \<longleftrightarrow> uname = admin_username \<and> cstr pw = admin_password"

definition admin_block_account :: "string \<Rightarrow> bank \<Rightarrow> bank outcome" where
  "admin_block_account num st =
     (case find_account_by_number st num of
        None \<Rightarrow> fail AccountNotFound st
      | Some i \<Rightarrow> (Success, persist (st\<lparr>accounts :=
                     (accounts st)[i := (accounts st ! i)\<lparr>is_active := False\<rparr>]\<rparr>)))"

definition admin_unblock_account :: "string \<Rightarrow> bank \<Rightarrow> bank outcome" where
  "admin_unblock_account num st =
     (case find_account_by_number st num of
        None \<Rightarrow> fail AccountNotFound st
      | Some i \<Rightarrow> (Success, persist (st\<lparr>accounts :=
                     (accounts st)[i := (accounts st ! i)\<lparr>is_active := True, failed_attempts := 0\<rparr>]\<rparr>)))"

subsection \<open>Lookups across updates\<close>

lemma find_username_update:
  "username a' = username (accounts st ! i) \<Longrightarrow>
     find_account_by_username (st\<lparr>accounts := (accounts st)[i := a']\<rparr>) u = find_account_by_username st u"
  unfolding find_account_by_username_def by (simp add: find_index_update_key)

lemma find_number_update:
  "account_number a' = account_number (accounts st ! i) \<Longrightarrow>
     find_account_by_number (st\<lparr>accounts := (accounts st)[i := a']\<rparr>) n = find_account_by_number st n"
  unfolding find_account_by_number_def by (simp add: find_index_update_key)

lemma find_persist [simp]:
  "find_account_by_username (persist st) u = find_account_by_username st u"
  "find_account_by_number (persist st) n = find_account_by_number st n"
  by (simp_all add: find_account_by_username_def find_account_by_number_def)

lemma find_username_Some:
  "find_account_by_username st u = Some i \<Longrightarrow> i < total_accounts st \<and> username (accounts st ! i) = u"
  by (simp add: find_account_by_username_def find_index_Some_iff)

lemma find_number_Some:
  "find_account_by_number st n = Some i \<Longrightarrow> i < total_accounts st \<and> account_number (accounts st ! i) = n"
  by (simp add: find_account_by_number_def find_index_Some_iff)

subsection \<open>The handlers keep the invariant\<close>

lemma user_login_store_ok:
  "store_ok st \<Longrightarrow> store_ok (snd (user_login uname pw st))"
proof (cases "find_account_by_username st uname")
  case (Some i)
  assume ok: "store_ok st"
  from find_username_Some [OF Some] have i: "i < total_accounts st" by simp
  with ok have a: "account_ok (accounts st ! i)" by (simp add: store_ok_def)
  let ?a = "accounts st ! i"
  have wrong: "account_ok (if Suc (failed_attempts ?a) \<ge> 3
                 then ?a\<lparr>failed_attempts := Suc (failed_attempts ?a), is_active := False\<rparr>
                 else ?a\<lparr>failed_attempts := Suc (failed_attempts ?a)\<rparr>)" if "is_active ?a"
    using a that by (simp add: account_ok_def ledger_ok_def)
  have right: "account_ok (?a\<lparr>failed_attempts := 0\<rparr>)"
    using a by (simp add: account_ok_def ledger_ok_def)
  have "store_ok (st\<lparr>accounts := (accounts st)[i := ?a\<lparr>failed_attempts := 0\<rparr>]\<rparr>)"
    using ok i right by (simp add: store_ok_update)
  then have "store_ok (st\<lparr>accounts := (accounts st)[i := ?a\<lparr>failed_attempts := 0\<rparr>],
                         current_user := Some i\<rparr>)"
    using i by (simp add: store_ok_def)
  with ok i wrong Some show ?thesis
    by (auto simp: user_login_def Let_def store_ok_update simp del: store_ok_persist
        intro: store_ok_persist [THEN iffD2])
qed (simp add: user_login_def)

lemma store_ok_modify:
  "store_ok st \<Longrightarrow> i < total_accounts st \<Longrightarrow> (account_ok (accounts st ! i) \<Longrightarrow> account_ok a') \<Longrightarrow>
     username a' = username (accounts st ! i) \<Longrightarrow> store_ok (st\<lparr>accounts := (accounts st)[i := a']\<rparr>)"
proof -
  assume ok: "store_ok st" and i: "i < total_accounts st"
    and f: "account_ok (accounts st ! i) \<Longrightarrow> account_ok a'" and un: "username a' = username (accounts st ! i)"
  from ok i have "account_ok (accounts st ! i)" by (simp add: store_ok_def)
  then have "account_ok a'" by (rule f)
  from ok i this un show ?thesis by (rule store_ok_update)
qed

lemma admin_block_store_ok:
  "store_ok st \<Longrightarrow> store_ok (snd (admin_block_account num st))"
proof (cases "find_account_by_number st num")
  case (Some i)
  assume ok: "store_ok st"
  from find_number_Some [OF Some] have i: "i < total_accounts st" by simp
  have "store_ok (st\<lparr>accounts := (accounts st)[i := (accounts st ! i)\<lparr>is_active := False\<rparr>]\<rparr>)"
    by (rule store_ok_modify [OF ok i]) (simp_all add: account_ok_def ledger_ok_def)
  with Some show ?thesis by (simp add: admin_block_account_def)
qed (simp add: admin_block_account_def)

lemma admin_unblock_store_ok:
  "store_ok st \<Longrightarrow> store_ok (snd (admin_unblock_account num st))"
proof (cases "find_account_by_number st num")
  case (Some i)
  assume ok: "store_ok st"
  from find_number_Some [OF Some] have i: "i < total_accounts st" by simp
  have "store_ok (st\<lparr>accounts := (accounts st)[i :=
          (accounts st ! i)\<lparr>is_active := True, failed_attempts := 0\<rparr>]\<rparr>)"
    by (rule store_ok_modify [OF ok i]) (simp_all add: account_ok_def ledger_ok_def)
  with Some show ?thesis by (simp add: admin_unblock_account_def)
qed (simp add: admin_unblock_account_def)

subsection \<open>Single login attempts\<close>

lemma user_login_wrong:
  assumes "find_account_by_username st un = Some i" "is_active (accounts st ! i)"
    "password_hash (accounts st ! i) \<noteq> hash_password pw"
  shows "user_login un pw st =
    (Failure (if Suc (failed_attempts (accounts st ! i)) \<ge> 3 then BlockedAfterFailedAttempts
              else InvalidPassword (3 - Suc (failed_attempts (accounts st ! i)))),
     persist (st\<lparr>accounts := (accounts st)[i :=
       (if Suc (failed_attempts (accounts st ! i)) \<ge> 3
        then (accounts st ! i)\<lparr>failed_attempts := Suc (failed_attempts (accounts st ! i)), is_active := False\<rparr>
        else (accounts st ! i)\<lparr>failed_attempts := Suc (failed_attempts (accounts st ! i))\<rparr>)]\<rparr>))"
  using assms by (simp add: user_login_def Let_def)

lemma user_login_blocked:
  "find_account_by_username st un = Some i \<Longrightarrow> \<not> is_active (accounts st ! i) \<Longrightarrow>
     user_login un pw st = (Failure AccountBlocked, st)"
  by (simp add: user_login_def fail_def)

lemma user_login_right:
  "find_account_by_username st un = Some i \<Longrightarrow> is_active (accounts st ! i) \<Longrightarrow>
     password_hash (accounts st ! i) = hash_password pw \<Longrightarrow>
     user_login un pw st = (Success, st\<lparr>accounts := (accounts st)[i := (accounts st ! i)\<lparr>failed_attempts := 0\<rparr>],
                                         current_user := Some i\<rparr>)"
  by (simp add: user_login_def)

subsection \<open>Properties of the lockout protocol\<close>

text \<open>
  C15: three wrong passwords in a row on an active account with no failed attempts
  answer "2 attempts remaining", "1 attempt remaining", then block the account; a
  login with the right password then fails with \<open>AccountBlocked\<close> and changes
  nothing.
\<close>

theorem login_three_strikes:
  assumes f: "find_account_by_username st un = Some i"
    and act: "is_active (accounts st ! i)" and zero: "failed_attempts (accounts st ! i) = 0"
    and bad: "password_hash (accounts st ! i) \<noteq> hash_password wrong"
  defines "st1 \<equiv> snd (user_login un wrong st)"
    and "st2 \<equiv> snd (user_login un wrong (snd (user_login un wrong st)))"
    and "st3 \<equiv> snd (user_login un wrong (snd (user_login un wrong (snd (user_login un wrong st)))))"
  shows "fst (user_login un wrong st) = Failure (InvalidPassword 2) \<and>
         fst (user_login un wrong st1) = Failure (InvalidPassword 1) \<and>
         fst (user_login un wrong st2) = Failure BlockedAfterFailedAttempts \<and>
         \<not> is_active (accounts st3 ! i) \<and>
         user_login un right st3 = (Failure AccountBlocked, st3)"
proof -
  from find_username_Some [OF f] have i: "i < total_accounts st" by simp
  have f1: "find_account_by_username st1 un = Some i"
    and a1: "accounts st1 ! i = (accounts st ! i)\<lparr>failed_attempts := Suc 0\<rparr>"
    and l1: "total_accounts st1 = total_accounts st"
    and r1: "fst (user_login un wrong st) = Failure (InvalidPassword 2)"
    using f i act zero bad by (simp_all add: st1_def user_login_wrong find_username_update)
  have f2: "find_account_by_username st2 un = Some i"
    and a2: "accounts st2 ! i = (accounts st ! i)\<lparr>failed_attempts := Suc (Suc 0)\<rparr>"
    and l2: "total_accounts st2 = total_accounts st"
    and r2: "fst (user_login un wrong st1) = Failure (InvalidPassword 1)"
    using f1 a1 l1 i act bad
    by (simp_all add: st1_def st2_def user_login_wrong find_username_update)
  have f3: "find_account_by_username st3 un = Some i"
    and a3: "\<not> is_active (accounts st3 ! i)"
    and r3: "fst (user_login un wrong st2) = Failure BlockedAfterFailedAttempts"
    using f2 a2 l2 i act bad
    by (simp_all add: st2_def st3_def st1_def user_login_wrong find_username_update)
  from f3 a3 have "user_login un right st3 = (Failure AccountBlocked, st3)"
    by (rule user_login_blocked)
  with r1 r2 r3 a3 show ?thesis by simp
qed

text \<open>
  C16: a login with the right password on an active account succeeds whatever the
  count of failed attempts was, resets that count to zero and opens a session on
  that account.
\<close>

theorem login_success_resets:
  "find_account_by_username st un = Some i \<Longrightarrow> is_active (accounts st ! i) \<Longrightarrow>
     password_hash (accounts st ! i) = hash_password pw \<Longrightarrow>
     fst (user_login un pw st) = Success \<and>
     failed_attempts (accounts (snd (user_login un pw st)) ! i) = 0 \<and>
     current_user (snd (user_login un pw st)) = Some i"
  by (simp add: user_login_right find_username_Some)

text \<open>
  C23: the successful login does not call \<open>save_accounts\<close>: the file keeps the old
  count of failed attempts, and a crash before the next saving operation brings it
  back.
\<close>

theorem login_success_not_saved:
  "find_account_by_username st un = Some i \<Longrightarrow> is_active (accounts st ! i) \<Longrightarrow>
     password_hash (accounts st ! i) = hash_password pw \<Longrightarrow>
     accounts_dat (snd (user_login un pw st)) = accounts_dat st"
  by (simp add: user_login_right)

text \<open>
  C17: unblocking an account makes it active with no failed attempts, so that its
  owner's right password logs in again.
\<close>

theorem unblock_then_login:
  assumes n: "find_account_by_number st num = Some i"
    and u: "find_account_by_username st un = Some i"
    and pw: "password_hash (accounts st ! i) = hash_password p"
  shows "fst (admin_unblock_account num st) = Success \<and>
         is_active (accounts (snd (admin_unblock_account num st)) ! i) \<and>
         failed_attempts (accounts (snd (admin_unblock_account num st)) ! i) = 0 \<and>
         fst (user_login un p (snd (admin_unblock_account num st))) = Success"
proof -
  from find_number_Some [OF n] have i: "i < total_accounts st" by simp
  let ?st' = "snd (admin_unblock_account num st)"
  have a: "accounts ?st' ! i = (accounts st ! i)\<lparr>is_active := True, failed_attempts := 0\<rparr>"
    and ok: "fst (admin_unblock_account num st) = Success"
    using n i by (simp_all add: admin_unblock_account_def)
  have "find_account_by_username ?st' un = Some i"
    using n u by (simp add: admin_unblock_account_def find_username_update)
  with a pw have "fst (user_login un p ?st') = Success" by (simp add: user_login_right)
  with a ok show ?thesis by simp
qed

end
