(* ===== verification/Transfer_Engine.thy ===== *)
theory Transfer_Engine
  imports Authentication
begin

text \<open>
  The transfer engine, \<open>transfer_money\<close> (\<^verbatim>\<open>src/bank.c\<close> lines 666--737). The checks
  come in the order of the source, the first that fails answers: the target exists,
  is active, is not the source's own number, the amount is valid, the source keeps
  its minimum balance. The two pointers \<open>current_user\<close> and \<open>target\<close> point into the
  one array \<open>accounts[]\<close>; the four writes of the source (debit, credit, the
  \<open>TRANSFER_OUT\<close> record, the \<open>TRANSFER_IN\<close> record) are four updates of the list,
  each reading the array as the previous one left it, and the table is saved once.
\<close>

definition transfer_money :: "string \<Rightarrow> money \<Rightarrow> string \<Rightarrow> bank \<Rightarrow> bank outcome" where
  "transfer_money target_account amt now st =
     (case current_user st of None \<Rightarrow> fail NoSession st
      | Some u \<Rightarrow>
      (case find_account_by_number st target_account of None \<Rightarrow> fail TargetNotFound st
       | Some t \<Rightarrow>
         let accs = accounts st in
         if \<not> is_active (accs ! t) then fail TargetBlocked st
         else if account_number (accs ! t) = account_number (accs ! u) then fail SameAccount st
         else if \<not> validate_amount amt then fail InvalidAmount st
         else let m = min_balance (account_type (accs ! u)) in
         if balance (accs ! u) - amt < m then fail (InsufficientBalance m) st
         else
           let accs1 = accs[u := (accs ! u)\<lparr>balance := balance (accs ! u) - amt\<rparr>];
               accs2 = accs1[t := (accs1 ! t)\<lparr>balance := balance (accs1 ! t) + amt\<rparr>];
               accs3 = accs2[u := add_transaction (accs2 ! u) TRANSFER_OUT amt
                                   (''Transfer to '' @ name (accs2 ! t))
                                   (Some (account_number (accs2 ! t))) now];
               accs4 = accs3[t := add_transaction (accs3 ! t) TRANSFER_IN amt
                                   (''Transfer from '' @ name (accs3 ! u))
                                   (Some (account_number (accs3 ! u))) now]
           in (Success, persist (st\<lparr>accounts := accs4\<rparr>))))"

subsection \<open>The result of a transfer\<close>

text \<open>The conditions under which \<open>transfer_money\<close> goes through, in one predicate.\<close>

definition transfer_ok :: "bank \<Rightarrow> acct_index \<Rightarrow> acct_index \<Rightarrow> money \<Rightarrow> bool" where
  "transfer_ok st u t amt \<longleftrightarrow>
     is_active (accounts st ! t) \<and> account_number (accounts st ! t) \<noteq> account_number (accounts st ! u) \<and>
     validate_amount amt \<and> min_balance (account_type (accounts st ! u)) \<le> balance (accounts st ! u) - amt"

text \<open>The two legs, each a balance change followed by its ledger record.\<close>

definition debit_leg :: "bank_account \<Rightarrow> bank_account \<Rightarrow> money \<Rightarrow> string \<Rightarrow> bank_account" where
  "debit_leg src tgt amt now =
     add_transaction (src\<lparr>balance := balance src - amt\<rparr>) TRANSFER_OUT amt
       (''Transfer to '' @ name tgt) (Some (account_number tgt)) now"

definition credit_leg :: "bank_account \<Rightarrow> bank_account \<Rightarrow> money \<Rightarrow> string \<Rightarrow> bank_account" where
  "credit_leg tgt src amt now =
     add_transaction (tgt\<lparr>balance := balance tgt + amt\<rparr>) TRANSFER_IN amt
       (''Transfer from '' @ name src) (Some (account_number src)) now"

lemma transfer_money_success:
  assumes "current_user st = Some u" "u < total_accounts st"
    "find_account_by_number st target = Some t" "transfer_ok st u t amt"
  shows "t \<noteq> u \<and> transfer_money target amt now st =
    (Success, persist (st\<lparr>accounts := (accounts st)
        [u := debit_leg (accounts st ! u) (accounts st ! t) amt now,
         t := credit_leg (accounts st ! t) (accounts st ! u) amt now]\<rparr>))"
proof -
  from find_number_Some [OF assms(3)] have t: "t < total_accounts st" by simp
  from assms(4) have tu: "t \<noteq> u" by (auto simp: transfer_ok_def)
  with assms t show ?thesis
    by (simp add: transfer_money_def transfer_ok_def Let_def debit_leg_def credit_leg_def
        list_update_swap [of t u])
qed

lemma transfer_money_failure:
  "current_user st = Some u \<Longrightarrow> find_account_by_number st target = Some t \<Longrightarrow>
     \<not> transfer_ok st u t amt \<Longrightarrow> snd (transfer_money target amt now st) = st"
  by (auto simp: transfer_money_def transfer_ok_def Let_def)

lemma transfer_success_iff:
  "current_user st = Some u \<Longrightarrow> find_account_by_number st target = Some t \<Longrightarrow>
     fst (transfer_money target amt now st) = Success \<longleftrightarrow> transfer_ok st u t amt"
  by (auto simp: transfer_money_def transfer_ok_def Let_def)

lemma transfer_fail_same:
  "fst (transfer_money target amt now st) \<noteq> Success \<Longrightarrow> snd (transfer_money target amt now st) = st"
  by (auto simp: transfer_money_def Let_def split: option.splits)

lemma debit_leg_fields [simp]:
  "balance (debit_leg src tgt amt now) = balance src - amt"
  "username (debit_leg src tgt amt now) = username src"
  "account_number (debit_leg src tgt amt now) = account_number src"
  by (simp_all add: debit_leg_def)

lemma credit_leg_fields [simp]:
  "balance (credit_leg tgt src amt now) = balance tgt + amt"
  "username (credit_leg tgt src amt now) = username tgt"
  "account_number (credit_leg tgt src amt now) = account_number tgt"
  by (simp_all add: credit_leg_def)

lemma transfer_store_ok:
  "store_ok st \<Longrightarrow> store_ok (snd (transfer_money target amt now st))"
proof (cases "current_user st")
  case (Some u)
  assume ok: "store_ok st"
  from store_ok_current [OF ok Some] have u: "u < total_accounts st"
    and au: "account_ok (accounts st ! u)" by simp_all
  show ?thesis
  proof (cases "find_account_by_number st target")
    case (Some t)
    from find_number_Some [OF Some] have t: "t < total_accounts st" by simp
    from ok t have at: "account_ok (accounts st ! t)" by (simp add: store_ok_def)
    show ?thesis
    proof (cases "transfer_ok st u t amt")
      case True
      from transfer_money_success [OF \<open>current_user st = Some u\<close> u Some True]
      have tu: "t \<noteq> u" and res: "transfer_money target amt now st =
        (Success, persist (st\<lparr>accounts := (accounts st)
           [u := debit_leg (accounts st ! u) (accounts st ! t) amt now,
            t := credit_leg (accounts st ! t) (accounts st ! u) amt now]\<rparr>))" by simp_all
      from True have amt: "0 < amt"
        and fl: "min_balance (account_type (accounts st ! u)) \<le> balance (accounts st ! u) - amt"
        by (simp_all add: transfer_ok_def validate_amount_def)
      have d: "account_ok (debit_leg (accounts st ! u) (accounts st ! t) amt now)"
        unfolding debit_leg_def using au amt fl by (rule account_ok_balance_then_add)
      from at amt have "min_balance (account_type (accounts st ! t)) \<le> balance (accounts st ! t) + amt"
        by (simp add: account_ok_def)
      with at amt have c: "account_ok (credit_leg (accounts st ! t) (accounts st ! u) amt now)"
        unfolding credit_leg_def by (rule account_ok_balance_then_add)
      let ?st1 = "st\<lparr>accounts := (accounts st)[u := debit_leg (accounts st ! u) (accounts st ! t) amt now]\<rparr>"
      have ok1: "store_ok ?st1" using ok u d by (simp add: store_ok_update)
      have "store_ok (?st1\<lparr>accounts := (accounts ?st1)[t := credit_leg (accounts st ! t) (accounts st ! u) amt now]\<rparr>)"
        using store_ok_update [of ?st1 t, OF ok1 _ c] t tu by simp
      then show ?thesis by (simp add: res)
    next
      case False
      with ok \<open>current_user st = Some u\<close> Some show ?thesis by (simp add: transfer_money_failure)
    qed
  qed (simp add: transfer_money_def ok \<open>current_user st = Some u\<close>)
qed (simp add: transfer_money_def)

subsection \<open>Properties of the transfer\<close>

text \<open>
  C3: a transfer by the logged-in user to an existing account succeeds exactly when
  the target is active, is another account, the amount is valid and the source keeps
  its minimum balance; it then takes the amount from the source, gives it to the
  target, and leaves every other account as it was.
\<close>

theorem transfer_spec:
  assumes "current_user st = Some u" "u < total_accounts st" "find_account_by_number st target = Some t"
  shows "(fst (transfer_money target amt now st) = Success \<longleftrightarrow> transfer_ok st u t amt) \<and>
    (transfer_ok st u t amt \<longrightarrow>
      balance (accounts (snd (transfer_money target amt now st)) ! u) = balance (accounts st ! u) - amt \<and>
      balance (accounts (snd (transfer_money target amt now st)) ! t) = balance (accounts st ! t) + amt \<and>
      (\<forall>k. k \<noteq> u \<and> k \<noteq> t \<longrightarrow> accounts (snd (transfer_money target amt now st)) ! k = accounts st ! k))"
proof -
  from find_number_Some [OF assms(3)] have t: "t < total_accounts st" by simp
  have iff: "fst (transfer_money target amt now st) = Success \<longleftrightarrow> transfer_ok st u t amt"
    using assms(1,3) by (rule transfer_success_iff)
  have "transfer_ok st u t amt \<Longrightarrow>
      balance (accounts (snd (transfer_money target amt now st)) ! u) = balance (accounts st ! u) - amt \<and>
      balance (accounts (snd (transfer_money target amt now st)) ! t) = balance (accounts st ! t) + amt \<and>
      (\<forall>k. k \<noteq> u \<and> k \<noteq> t \<longrightarrow> accounts (snd (transfer_money target amt now st)) ! k = accounts st ! k)"
    using transfer_money_success [OF assms] t assms(2) by (simp add: nth_list_update)
  with iff show ?thesis by blast
qed

text \<open>
  C5: when both ledgers have room, a successful transfer appends exactly one
  \<open>TRANSFER_OUT\<close> record to the source and one \<open>TRANSFER_IN\<close> record to the target,
  with the same amount, each naming the other account's number and recording its
  own account's new balance.
\<close>

theorem transfer_records:
  assumes "current_user st = Some u" "u < total_accounts st" "find_account_by_number st target = Some t"
    "transfer_ok st u t amt"
    "transaction_count (accounts st ! u) < MAX_TRANSACTIONS"
    "transaction_count (accounts st ! t) < MAX_TRANSACTIONS"
  shows "transactions (accounts (snd (transfer_money target amt now st)) ! u) =
           transactions (accounts st ! u) @
             [\<lparr>date = now, txn_kind = TRANSFER_OUT, amount = amt,
               balance_after = balance (accounts st ! u) - amt,
               description = ''Transfer to '' @ name (accounts st ! t),
               reference_account = account_number (accounts st ! t)\<rparr>] \<and>
         transactions (accounts (snd (transfer_money target amt now st)) ! t) =
           transactions (accounts st ! t) @
             [\<lparr>date = now, txn_kind = TRANSFER_IN, amount = amt,
               balance_after = balance (accounts st ! t) + amt,
               description = ''Transfer from '' @ name (accounts st ! u),
               reference_account = account_number (accounts st ! u)\<rparr>]"
proof -
  from find_number_Some [OF assms(3)] have t: "t < total_accounts st" by simp
  from transfer_money_success [OF assms(1-4)] t assms(2,5,6) show ?thesis
    by (simp add: nth_list_update debit_leg_def credit_leg_def add_transaction_room)
qed

text \<open>
  C4: a transfer either succeeds or changes nothing at all: no check fails after a
  field has been written, and there is no path that applies one leg only.
\<close>

theorem transfer_fail_unchanged:
  "fst (transfer_money target amt now st) = Success \<or> snd (transfer_money target amt now st) = st"
  by (auto simp: transfer_money_def Let_def split: option.splits)

text \<open>
  C20: \<open>add_transaction\<close> drops the record when a ledger is full, after the balance
  has been changed: a transfer from an account whose ledger holds
  \<open>MAX_TRANSACTIONS\<close> records succeeds, moves the money, and leaves a
  \<open>TRANSFER_IN\<close> on the target with no \<open>TRANSFER_OUT\<close> on the source.
\<close>

theorem transfer_full_ledger_one_record:
  assumes "current_user st = Some u" "u < total_accounts st" "find_account_by_number st target = Some t"
    "transfer_ok st u t amt"
    "transaction_count (accounts st ! u) = MAX_TRANSACTIONS"
    "transaction_count (accounts st ! t) < MAX_TRANSACTIONS"
  shows "fst (transfer_money target amt now st) = Success \<and>
         balance (accounts (snd (transfer_money target amt now st)) ! u) = balance (accounts st ! u) - amt \<and>
         transactions (accounts (snd (transfer_money target amt now st)) ! u) = transactions (accounts st ! u) \<and>
         transaction_count (accounts (snd (transfer_money target amt now st)) ! t) =
           Suc (transaction_count (accounts st ! t))"
proof -
  from find_number_Some [OF assms(3)] have t: "t < total_accounts st" by simp
  from transfer_money_success [OF assms(1-4)] t assms(2,5,6) show ?thesis
    by (simp add: nth_list_update debit_leg_def credit_leg_def add_transaction_full add_transaction_count)
qed

end
