(* ===== verification/Console_Input.thy ===== *)
theory Console_Input
  imports Bank_Prelude
begin

text \<open>
  Masked password entry, repeated six times in \<^verbatim>\<open>src/bank.c\<close> (lines 266--277,
  340--353, 499--525, 793--837):
  \<^verbatim>\<open>while ((ch = getch()) != '\r' && i < 19) {
      if (ch == '\b' && i > 0) { printf("\b \b"); i--; }
      else if (ch != '\b') { password[i++] = ch; printf("*"); }
  }
  password[i] = '\0';\<close>
  The keyboard is the list of keys still to be typed. \<open>getch\<close> is called before
  \<open>i < 19\<close> is tested, so the key read when the buffer is full is consumed and
  dropped. When the keys run out before the loop stops, \<open>getch\<close> waits for ever:
  the result is \<open>None\<close>. The buffer \<open>password[0..i-1]\<close> is the list \<open>buf\<close>.
\<close>

definition CR :: char where "CR = CHR 0x0D"
definition BS :: char where "BS = CHR 0x08"

fun read_masked_loop :: "string \<Rightarrow> char list \<Rightarrow> (string \<times> char list) option" where
  "read_masked_loop buf [] = None"
| "read_masked_loop buf (ch # keys) =
     (if ch = CR \<or> \<not> length buf < 19 then Some (buf, keys)
      else if ch = BS \<and> 0 < length buf then read_masked_loop (butlast buf) keys
      else if ch \<noteq> BS then read_masked_loop (buf @ [ch]) keys
      else read_masked_loop buf keys)"

definition read_masked :: "char list \<Rightarrow> (string \<times> char list) option" where
  "read_masked keys = read_masked_loop [] keys"

subsection \<open>Lemmas\<close>

lemma CR_BS_distinct [simp]: "BS \<noteq> CR" "CR \<noteq> BS"
  by (simp_all add: BS_def CR_def)

lemma read_masked_loop_length:
  "read_masked_loop buf keys = Some (pw, rest) \<Longrightarrow> length buf \<le> 19 \<Longrightarrow> length pw \<le> 19"
  by (induction buf keys rule: read_masked_loop.induct) (auto split: if_splits)

lemma read_masked_loop_no_BS:
  "read_masked_loop buf keys = Some (pw, rest) \<Longrightarrow> BS \<notin> set buf \<Longrightarrow> BS \<notin> set pw"
  by (induction buf keys rule: read_masked_loop.induct)
    (auto split: if_splits dest: in_set_butlastD)

lemma read_masked_loop_CR:
  "CR \<in> set keys \<Longrightarrow> length buf \<le> 19 \<Longrightarrow> \<exists>pw rest. read_masked_loop buf keys = Some (pw, rest)"
proof (induction buf keys rule: read_masked_loop.induct)
  case (1 buf)
  then show ?case by simp
next
  case (2 buf ch keys)
  show ?case
  proof (cases "ch = CR \<or> \<not> length buf < 19")
    case True
    then show ?thesis by auto
  next
    case False
    with "2.prems" have "CR \<in> set keys" and "length buf < 19" by auto
    with False "2.IH" show ?thesis by auto
  qed
qed

lemma read_masked_loop_typed:
  "length buf + length w \<le> 19 \<Longrightarrow> CR \<notin> set w \<Longrightarrow> BS \<notin> set w \<Longrightarrow>
     read_masked_loop buf (w @ CR # rest) = Some (buf @ w, rest)"
proof (induction w arbitrary: buf)
  case Nil
  then show ?case by simp
next
  case (Cons c w)
  then have "read_masked_loop (buf @ [c]) (w @ CR # rest) = Some (buf @ [c] @ w, rest)"
    by simp
  with Cons.prems show ?case by auto
qed

subsection \<open>Properties of masked entry\<close>

text \<open>
  C27: masked entry returns once a carriage return is among the keys: the loop cannot
  spin on backspaces for ever.
\<close>

theorem read_masked_terminates:
  "CR \<in> set keys \<Longrightarrow> \<exists>pw rest. read_masked keys = Some (pw, rest)"
  unfolding read_masked_def by (rule read_masked_loop_CR) simp_all

theorem read_masked_terminates_witness:
  "CR \<in> set (''ab'' @ [CR]) \<and> (\<exists>pw rest. read_masked (''ab'' @ [CR]) = Some (pw, rest))"
  using read_masked_terminates [of "''ab'' @ [CR]"] by simp

text \<open>
  C28: the password read has at most 19 characters and no backspace in it, so
  \<open>password[i] = '\0'\<close> stays inside \<open>char password[20]\<close>.
\<close>

theorem read_masked_bound:
  "read_masked keys = Some (pw, rest) \<Longrightarrow> length pw \<le> 19 \<and> BS \<notin> set pw"
  unfolding read_masked_def
  using read_masked_loop_length read_masked_loop_no_BS by fastforce

theorem read_masked_bound_witness:
  "read_masked (''ab'' @ [CR]) = Some (''ab'', []) \<and> length ''ab'' \<le> 19 \<and> BS \<notin> set ''ab''"
proof -
  have r: "read_masked (''ab'' @ [CR]) = Some (''ab'', [])"
    by (simp add: read_masked_def CR_def BS_def)
  show ?thesis using r read_masked_bound [OF r] by simp
qed

lemma read_masked_full:
  "length w = 19 \<Longrightarrow> CR \<notin> set w \<Longrightarrow> BS \<notin> set w \<Longrightarrow>
     read_masked (w @ c # rest) = Some (w, rest)"
proof -
  assume h: "length w = 19" "CR \<notin> set w" "BS \<notin> set w"
  have "\<And>buf. length buf + length w = 19 \<Longrightarrow>
          read_masked_loop buf (w @ c # rest) = Some (buf @ w, rest)"
    using h(2,3)
  proof (induction w)
    case Nil
    then show ?case by simp
  next
    case (Cons x w)
    then have "read_masked_loop (buf @ [x]) (w @ c # rest) = Some ((buf @ [x]) @ w, rest)"
      by simp
    with Cons.prems show ?case by auto
  qed
  from this [of "[]"] h(1) show ?thesis by (simp add: read_masked_def)
qed

text \<open>
  C29: typing a password of at most 19 ordinary keys and then Enter yields exactly
  that password and leaves the following keys unread; but with 19 characters in the
  buffer the next key, whatever it is, ends the entry and is lost: a 20-character
  password is cut to its first 19 characters without notice, and the Enter key that
  follows stays pending for the next read.
\<close>

theorem read_masked_typed:
  "length w \<le> 19 \<Longrightarrow> CR \<notin> set w \<Longrightarrow> BS \<notin> set w \<Longrightarrow>
     read_masked (w @ CR # rest) = Some (w, rest) \<and>
     (length w = 19 \<longrightarrow> read_masked (w @ c # rest) = Some (w, rest))"
  unfolding read_masked_def using read_masked_loop_typed [of "[]" w rest] read_masked_full [of w c rest]
  by (simp add: read_masked_def)

theorem read_masked_typed_witness:
  "read_masked (''secret'' @ CR # ''x'') = Some (''secret'', ''x'') \<and>
   read_masked (''abcdefghijklmnopqrs'' @ CHR ''t'' # [CR]) = Some (''abcdefghijklmnopqrs'', [CR])"
proof -
  have h: "length ''secret'' \<le> 19" "CR \<notin> set ''secret''" "BS \<notin> set ''secret''"
    by (simp_all add: CR_def BS_def)
  have g: "length ''abcdefghijklmnopqrs'' \<le> 19" "CR \<notin> set ''abcdefghijklmnopqrs''"
    "BS \<notin> set ''abcdefghijklmnopqrs''"
    by (simp_all add: CR_def BS_def)
  show ?thesis
    using read_masked_typed [OF h, of "''x''" c] read_masked_typed [OF g, of "[CR]" "CHR ''t''"] by simp
qed

end
