(* ===== verification/Session.thy ===== *)
theory Session
  imports Transfer_Engine Console_Input
begin

text \<open>
  The menus of \<^verbatim>\<open>src/bank.c\<close>: \<open>main_menu\<close> (lines 212--251), the administrator's
  login and dashboard (\<open>admin_panel\<close>, 253--327), the user's login and dashboard
  (\<open>user_login\<close>, 329--431). The three loops are one machine whose state is the
  screen being shown and the bank; an event is one menu choice together with
  what the handler then reads (passwords as the keys typed, read by
  \<open>read_masked\<close>; dates and random numbers as inputs). \<open>menu_step\<close> is one
  iteration of the loop showing the screen; \<open>None\<close> is "no such choice on this
  screen" or "the masked read waits for ever". Choices that only display
  (account details, history, the account list, statistics) leave the state as it is.
\<close>

datatype screen = MainMenu | AdminDashboard | UserDashboard | Exited

datatype event =
    ChooseAdminLogin string "char list"
  | ChooseUserLogin string "char list"
  | ChooseCreateAccount nat create_form "char list" "char list" string double_in
  | ChooseExit
  | MainInvalid
  | AdminViewAll
  | AdminBlock string
  | AdminUnblock string
  | AdminStats
  | AdminBack
  | AdminInvalid
  | UserViewDetails
  | UserDeposit money string
  | UserWithdraw money string
  | UserTransfer string money string
  | UserHistory
  | UserChangePassword "char list" "char list" "char list"
  | UserLogout
  | UserInvalid

type_synonym session = "screen \<times> bank"

definition read_pw :: "char list \<Rightarrow> string option" where
  "read_pw keys = map_option fst (read_masked keys)"

text \<open>
  \<open>create_account\<close> reads the two masked passwords only after its first six checks
  pass, and \<open>change_password\<close> reads the new password and its confirmation only
  after the current one is accepted: a handler that returns before a prompt does not
  wait for its keys.
\<close>

definition fails_before_password :: "bank outcome \<Rightarrow> bool" where
  "fails_before_password r \<longleftrightarrow>
     (case fst r of
        Failure e \<Rightarrow> e \<in> {MaxAccountsReached, InvalidName, InvalidUsernameLength, UsernameExists,
                          InvalidEmail, InvalidMobile}
      | Success \<Rightarrow> False)"

text \<open>
  The initial deposit (lines 562--568): \<open>scanf ("%lf")\<close> stores \<open>d\<close>, and the account
  is created unless \<open>d < min_deposit\<close>. A number takes the place of the form's deposit;
  \<open>-inf\<close> is refused like a number below the minimum; \<open>nan\<close> and \<open>inf\<close> pass the check
  and create an account whose balance is no number, which the model's balances cannot
  hold: that step is \<open>None\<close>, the model stops there.
\<close>

definition create_with_deposit :: "nat \<Rightarrow> create_form \<Rightarrow> string \<Rightarrow> double_in \<Rightarrow> bank \<Rightarrow> session option" where
  "create_with_deposit r f now d st =
     (case d of
        Finite x \<Rightarrow> Some (MainMenu, snd (create_account r (f\<lparr>cf_deposit := x\<rparr>) now st))
      | _ \<Rightarrow> (case account_type_choice (cf_type_choice f) of
               None \<Rightarrow> Some (MainMenu, st)
             | Some (ty, m) \<Rightarrow>
                 if fst (create_account r (f\<lparr>cf_deposit := m\<rparr>) now st) = Success \<and> \<not> double_less d m
                 then None else Some (MainMenu, st)))"

fun main_step :: "event \<Rightarrow> bank \<Rightarrow> session option" where
  "main_step (ChooseAdminLogin un keys) st =
     map_option (\<lambda>pw. (if admin_login_ok un pw then AdminDashboard else MainMenu, st)) (read_pw keys)"
| "main_step (ChooseUserLogin un keys) st =
     map_option (\<lambda>pw. let r = user_login un pw st in
                       (if fst r = Success then UserDashboard else MainMenu, snd r)) (read_pw keys)"
| "main_step (ChooseCreateAccount r f k1 k2 now d) st =
     (if fails_before_password (create_account r (f\<lparr>cf_password := [], cf_confirm := []\<rparr>) now st)
      then Some (MainMenu, st)
      else case (read_pw k1, read_pw k2) of
        (Some p, Some c) \<Rightarrow> create_with_deposit r (f\<lparr>cf_password := p, cf_confirm := c\<rparr>) now d st
      | _ \<Rightarrow> None)"
| "main_step ChooseExit st = Some (Exited, persist st)"
| "main_step MainInvalid st = Some (MainMenu, st)"
| "main_step _ st = None"

fun admin_step :: "event \<Rightarrow> bank \<Rightarrow> session option" where
  "admin_step AdminViewAll st = Some (AdminDashboard, st)"
| "admin_step (AdminBlock num) st = Some (AdminDashboard, snd (admin_block_account num st))"
| "admin_step (AdminUnblock num) st = Some (AdminDashboard, snd (admin_unblock_account num st))"
| "admin_step AdminStats st = Some (AdminDashboard, st)"
| "admin_step AdminBack st = Some (MainMenu, st)"
| "admin_step AdminInvalid st = Some (AdminDashboard, st)"
| "admin_step _ st = None"

fun user_step :: "event \<Rightarrow> bank \<Rightarrow> session option" where
  "user_step UserViewDetails st = Some (UserDashboard, st)"
| "user_step (UserDeposit amt now) st = Some (UserDashboard, snd (deposit_money amt now st))"
| "user_step (UserWithdraw amt now) st = Some (UserDashboard, snd (withdraw_money amt now st))"
| "user_step (UserTransfer num amt now) st = Some (UserDashboard, snd (transfer_money num amt now st))"
| "user_step UserHistory st = Some (UserDashboard, st)"
| "user_step (UserChangePassword k1 k2 k3) st =
     (case read_pw k1 of
        None \<Rightarrow> None
      | Some old \<Rightarrow>
          if fst (change_password old [] [] st) = Failure IncorrectCurrentPassword then Some (UserDashboard, st)
          else case (read_pw k2, read_pw k3) of
            (Some new, Some confirm) \<Rightarrow> Some (UserDashboard, snd (change_password old new confirm st))
          | _ \<Rightarrow> None)"
| "user_step UserLogout st = Some (MainMenu, st\<lparr>current_user := None\<rparr>)"
| "user_step UserInvalid st = Some (UserDashboard, st)"
| "user_step _ st = None"

fun menu_step :: "event \<Rightarrow> session \<Rightarrow> session option" where
  "menu_step ev (MainMenu, st) = main_step ev st"
| "menu_step ev (AdminDashboard, st) = admin_step ev st"
| "menu_step ev (UserDashboard, st) = user_step ev st"
| "menu_step ev (Exited, st) = None"

text \<open>\<open>main\<close> calls \<open>load_accounts\<close> on an empty table, then shows the main menu.\<close>

definition initial_bank :: "cell list option \<Rightarrow> bool \<Rightarrow> bank" where
  "initial_bank file writable = \<lparr>accounts = [], current_user = None, accounts_dat = file,
                                  fs_writable = writable\<rparr>"

inductive reachable :: "session \<Rightarrow> bool" where
  start: "load_accounts (initial_bank fl w) = Some st \<Longrightarrow> store_ok st \<Longrightarrow> reachable (MainMenu, st)"
| step: "reachable s \<Longrightarrow> menu_step ev s = Some s' \<Longrightarrow> reachable s'"

text \<open>
  The session invariant: the store is consistent, the user dashboard is shown
  exactly when a user is logged in, and that user's account is active.
\<close>

definition session_inv :: "session \<Rightarrow> bool" where
  "session_inv s \<longleftrightarrow>
     (case s of (scr, st) \<Rightarrow>
        store_ok st \<and>
        (if scr = UserDashboard then (\<exists>u. current_user st = Some u \<and> is_active (accounts st ! u))
         else current_user st = None))"

subsection \<open>What each handler leaves alone\<close>

lemma handlers_current_user:
  "current_user (snd (create_account r f now st)) = current_user st"
  "current_user (snd (deposit_money amt now st)) = current_user st"
  "current_user (snd (withdraw_money amt now st)) = current_user st"
  "current_user (snd (change_password old new confirm st)) = current_user st"
  "current_user (snd (transfer_money num amt now st)) = current_user st"
  "current_user (snd (admin_block_account num st)) = current_user st"
  "current_user (snd (admin_unblock_account num st)) = current_user st"
  by (simp_all add: create_account_def deposit_money_def withdraw_money_def change_password_def
      transfer_money_def admin_block_account_def admin_unblock_account_def Let_def
      split: option.splits)

lemma handlers_active:
  "map is_active (accounts (snd (deposit_money amt now st))) = map is_active (accounts st)"
  "map is_active (accounts (snd (withdraw_money amt now st))) = map is_active (accounts st)"
  "map is_active (accounts (snd (change_password old new confirm st))) = map is_active (accounts st)"
  "map is_active (accounts (snd (transfer_money num amt now st))) = map is_active (accounts st)"
  by (simp_all add: deposit_money_def withdraw_money_def change_password_def transfer_money_def
      Let_def map_update_same_key split: option.splits)

lemma active_of_map:
  "map is_active xs' = map is_active xs \<Longrightarrow> u < length xs \<Longrightarrow> is_active (xs' ! u) = is_active (xs ! u)"
  by (metis length_map nth_map)

lemma user_login_session:
  "fst (user_login un pw st) = Success \<Longrightarrow>
     \<exists>i. current_user (snd (user_login un pw st)) = Some i \<and> is_active (accounts (snd (user_login un pw st)) ! i)"
  "fst (user_login un pw st) \<noteq> Success \<Longrightarrow> current_user (snd (user_login un pw st)) = current_user st"
  by (auto simp: user_login_def Let_def dest: find_username_Some split: option.splits if_splits)

lemma create_with_deposit_cases:
  "create_with_deposit r f now d st = Some s' \<Longrightarrow>
     fst s' = MainMenu \<and> (snd s' = st \<or> (\<exists>x. snd s' = snd (create_account r (f\<lparr>cf_deposit := x\<rparr>) now st)))"
  by (cases d) (auto simp: create_with_deposit_def split: option.splits if_splits)

lemma main_step_create_cases:
  "main_step (ChooseCreateAccount r f k1 k2 now d) st = Some s' \<Longrightarrow>
     fst s' = MainMenu \<and> (snd s' = st \<or> (\<exists>f'. snd s' = snd (create_account r f' now st)))"
  by (auto split: if_splits option.splits dest!: create_with_deposit_cases)

subsection \<open>One step keeps the session invariant\<close>

lemma main_step_inv:
  "session_inv (MainMenu, st) \<Longrightarrow> main_step ev st = Some s' \<Longrightarrow> session_inv s'"
proof (cases ev)
  case (ChooseUserLogin un keys)
  assume inv: "session_inv (MainMenu, st)" and s': "main_step ev st = Some s'"
  from inv have ok: "store_ok st" and cu: "current_user st = None" by (simp_all add: session_inv_def)
  from s' ChooseUserLogin obtain pw where s'_eq: "s' = (if fst (user_login un pw st) = Success
       then UserDashboard else MainMenu, snd (user_login un pw st))"
    by (auto simp: Let_def)
  have "store_ok (snd (user_login un pw st))" using ok by (rule user_login_store_ok)
  with user_login_session [of un pw st] cu show ?thesis
    by (auto simp: s'_eq session_inv_def)
next
  case (ChooseCreateAccount r f k1 k2 now d)
  assume inv: "session_inv (MainMenu, st)" and s': "main_step ev st = Some s'"
  with ChooseCreateAccount have "fst s' = MainMenu \<and> (snd s' = st \<or> (\<exists>f'. snd s' = snd (create_account r f' now st)))"
    by (simp add: main_step_create_cases)
  with inv show ?thesis
    by (cases s') (auto simp: session_inv_def create_account_store_ok handlers_current_user)
qed (auto simp: session_inv_def split: option.splits if_splits)

lemma admin_step_inv:
  "session_inv (AdminDashboard, st) \<Longrightarrow> admin_step ev st = Some s' \<Longrightarrow> session_inv s'"
  by (cases ev) (auto simp: session_inv_def admin_block_store_ok admin_unblock_store_ok
      handlers_current_user)

lemma user_step_inv:
  "session_inv (UserDashboard, st) \<Longrightarrow> user_step ev st = Some s' \<Longrightarrow> session_inv s'"
proof -
  assume inv: "session_inv (UserDashboard, st)" and s': "user_step ev st = Some s'"
  from inv obtain u where ok: "store_ok st" and cu: "current_user st = Some u"
    and act: "is_active (accounts st ! u)" by (auto simp: session_inv_def)
  from store_ok_current [OF ok cu] have u: "u < total_accounts st" by simp
  have keep: "\<And>st'. store_ok st' \<Longrightarrow> current_user st' = current_user st \<Longrightarrow>
      map is_active (accounts st') = map is_active (accounts st) \<Longrightarrow> session_inv (UserDashboard, st')"
    using cu act u by (auto simp: session_inv_def dest: active_of_map)
  show ?thesis
  proof (cases ev)
    case (UserDeposit amt now)
    with s' show ?thesis
      by (auto intro!: keep deposit_money_store_ok ok simp: handlers_current_user handlers_active)
  next
    case (UserWithdraw amt now)
    with s' show ?thesis
      by (auto intro!: keep withdraw_money_store_ok ok simp: handlers_current_user handlers_active)
  next
    case (UserTransfer num amt now)
    with s' show ?thesis
      by (auto intro!: keep transfer_store_ok ok simp: handlers_current_user handlers_active)
  next
    case (UserChangePassword k1 k2 k3)
    with s' show ?thesis
      by (auto intro!: keep change_password_store_ok ok simp: handlers_current_user handlers_active
          split: option.splits if_splits)
  next
    case UserLogout
    with s' ok show ?thesis by (auto simp: session_inv_def store_ok_def)
  qed (use s' inv in auto)
qed

lemma menu_step_inv: "session_inv s \<Longrightarrow> menu_step ev s = Some s' \<Longrightarrow> session_inv s'"
proof (cases s)
  case (Pair scr st)
  assume inv: "session_inv s" and st: "menu_step ev s = Some s'"
  show ?thesis
  proof (cases scr)
    case MainMenu with inv st Pair show ?thesis by (simp add: main_step_inv)
  next
    case AdminDashboard with inv st Pair show ?thesis by (simp add: admin_step_inv)
  next
    case UserDashboard with inv st Pair show ?thesis by (simp add: user_step_inv)
  next
    case Exited with st Pair show ?thesis by simp
  qed
qed

subsection \<open>Every reachable session satisfies the invariant\<close>

lemma load_initial_no_user:
  "load_accounts (initial_bank fl w) = Some st \<Longrightarrow> current_user st = None"
  by (auto simp: load_accounts_def initial_bank_def split: option.splits)

lemma reachable_inv: "reachable s \<Longrightarrow> session_inv s"
proof (induction rule: reachable.induct)
  case (start fl w st)
  then show ?case by (simp add: session_inv_def load_initial_no_user)
next
  case (step s ev s')
  then show ?case by (blast intro: menu_step_inv)
qed

text \<open>
  C1: In every session reachable from start-up (a consistent file, or none), the
  store invariant holds; the user dashboard is shown only with a user logged in
  whose account is active, and on every other screen nobody is logged in. The
  reachable sessions are those whose initial deposits were numbers: a \<open>nan\<close> or
  \<open>inf\<close> deposit passes the check at line 565 and creates an account with no numeric
  balance, where the model stops (\<open>create_with_deposit\<close>); that account breaks the
  floor, as the findings record.
\<close>

theorem reachable_session_inv:
  "reachable (scr, st) \<Longrightarrow>
     store_ok st \<and>
     (if scr = UserDashboard then \<exists>u. current_user st = Some u \<and> u < total_accounts st \<and>
                                       is_active (accounts st ! u)
      else current_user st = None)"
proof -
  assume "reachable (scr, st)"
  then have inv: "session_inv (scr, st)" by (rule reachable_inv)
  then have "store_ok st" by (simp add: session_inv_def)
  with inv store_ok_current [of st] show ?thesis by (auto simp: session_inv_def)
qed

end
