(* ===== verification/Refinement.thy ===== *)
theory Refinement
  imports Session
begin

text \<open>
  The account store as the specification describes it (section 4): a map from
  username to what the specification's operations observe of an account, its
  balance, whether it is active and its type. \<open>abs_step\<close> is the specification's
  set of state changes: opening an account, a deposit, a withdrawal, a transfer
  between two distinct accounts, setting the active flag, or no change. Each
  guard of the specification is a premise: the floors of the account type, active
  accounts for money movements, amounts in \<open>(0, 1000000]\<close>.

  \<open>abs_of\<close> is the refinement mapping from the concrete table of
  \<^verbatim>\<open>src/bank.c\<close> (the array \<open>accounts\<close>) to that map. The theorems show that every
  handler, and every step of the menus, is one abstract step of the image.
\<close>

record acct_view =
  v_balance :: money
  v_active :: bool
  v_type :: string

type_synonym abs_store = "string \<rightharpoonup> acct_view"

definition view :: "bank_account \<Rightarrow> acct_view" where
  "view a = \<lparr>v_balance = balance a, v_active = is_active a, v_type = account_type a\<rparr>"

definition abs_of :: "bank \<Rightarrow> abs_store" where
  "abs_of st = map_of (map (\<lambda>a. (username a, view a)) (accounts st))"

inductive abs_step :: "abs_store \<Rightarrow> abs_store \<Rightarrow> bool" where
  abs_stutter: "abs_step m m"
| abs_open: "m u = None \<Longrightarrow> valid_account_type ty \<Longrightarrow> min_balance ty \<le> b \<Longrightarrow>
    abs_step m (m(u \<mapsto> \<lparr>v_balance = b, v_active = True, v_type = ty\<rparr>))"
| abs_deposit: "m u = Some a \<Longrightarrow> v_active a \<Longrightarrow> 0 < amt \<Longrightarrow> amt \<le> 1000000 \<Longrightarrow>
    abs_step m (m(u \<mapsto> a\<lparr>v_balance := v_balance a + amt\<rparr>))"
| abs_withdraw: "m u = Some a \<Longrightarrow> v_active a \<Longrightarrow> 0 < amt \<Longrightarrow> amt \<le> 1000000 \<Longrightarrow>
    min_balance (v_type a) \<le> v_balance a - amt \<Longrightarrow>
    abs_step m (m(u \<mapsto> a\<lparr>v_balance := v_balance a - amt\<rparr>))"
| abs_transfer: "m u = Some a \<Longrightarrow> m v = Some b \<Longrightarrow> u \<noteq> v \<Longrightarrow> v_active a \<Longrightarrow> v_active b \<Longrightarrow>
    0 < amt \<Longrightarrow> amt \<le> 1000000 \<Longrightarrow> min_balance (v_type a) \<le> v_balance a - amt \<Longrightarrow>
    abs_step m (m(u \<mapsto> a\<lparr>v_balance := v_balance a - amt\<rparr>, v \<mapsto> b\<lparr>v_balance := v_balance b + amt\<rparr>))"
| abs_set_active: "m u = Some a \<Longrightarrow> abs_step m (m(u \<mapsto> a\<lparr>v_active := x\<rparr>))"

subsection \<open>The refinement mapping on table updates\<close>

lemma abs_of_frame [simp]:
  "abs_of (persist st) = abs_of st"
  "abs_of (st\<lparr>current_user := c\<rparr>) = abs_of st"
  by (simp_all add: abs_of_def)

lemma abs_of_nth:
  "distinct (map username (accounts st)) \<Longrightarrow> i < total_accounts st \<Longrightarrow>
     abs_of st (username (accounts st ! i)) = Some (view (accounts st ! i))"
  unfolding abs_of_def by (rule map_of_keyed_nth)

lemma abs_of_update:
  "distinct (map username (accounts st)) \<Longrightarrow> i < total_accounts st \<Longrightarrow>
     username a = username (accounts st ! i) \<Longrightarrow>
     abs_of (st\<lparr>accounts := (accounts st)[i := a]\<rparr>) = (abs_of st)(username a \<mapsto> view a)"
  unfolding abs_of_def by (simp add: map_of_keyed_update)

lemma abs_of_update_same:
  assumes "distinct (map username (accounts st))" "i < total_accounts st"
    "username a = username (accounts st ! i)" "view a = view (accounts st ! i)"
  shows "abs_of (st\<lparr>accounts := (accounts st)[i := a]\<rparr>) = abs_of st"
  using assms by (simp add: abs_of_update abs_of_nth fun_upd_idem)

lemma abs_of_snoc:
  "username a \<notin> set (map username (accounts st)) \<Longrightarrow>
     abs_of (st\<lparr>accounts := accounts st @ [a]\<rparr>) = (abs_of st)(username a \<mapsto> view a)"
  unfolding abs_of_def using map_of_keyed_snoc [of username a "accounts st" view] by simp

lemma view_updates [simp]:
  "view (a\<lparr>balance := b\<rparr>) = (view a)\<lparr>v_balance := b\<rparr>"
  "view (a\<lparr>is_active := x\<rparr>) = (view a)\<lparr>v_active := x\<rparr>"
  "view (a\<lparr>failed_attempts := n\<rparr>) = view a"
  "view (a\<lparr>password_hash := h\<rparr>) = view a"
  "view (add_transaction a ty amt d r now) = view a"
  "v_balance (view a) = balance a" "v_active (view a) = is_active a" "v_type (view a) = account_type a"
  by (simp_all add: view_def)

lemma store_ok_distinct: "store_ok st \<Longrightarrow> distinct (map username (accounts st))"
  by (simp add: store_ok_def)

subsection \<open>Each handler is one abstract step\<close>

lemma deposit_refines:
  assumes ok: "store_ok st" and u: "current_user st = Some u" and act: "is_active (accounts st ! u)"
  shows "abs_step (abs_of st) (abs_of (snd (deposit_money amt now st)))"
proof (cases "validate_amount amt")
  case True
  let ?a = "accounts st ! u"
  from store_ok_current [OF ok u] have ul: "u < total_accounts st" by simp
  have "abs_of (snd (deposit_money amt now st)) =
          (abs_of st)(username ?a \<mapsto> (view ?a)\<lparr>v_balance := v_balance (view ?a) + amt\<rparr>)"
    using True u ul store_ok_distinct [OF ok] by (simp add: deposit_money_def Let_def abs_of_update)
  moreover have "abs_step (abs_of st) ((abs_of st)(username ?a \<mapsto> (view ?a)\<lparr>v_balance := v_balance (view ?a) + amt\<rparr>))"
    using abs_of_nth [OF store_ok_distinct [OF ok] ul] act True
    by (intro abs_deposit) (simp_all add: validate_amount_def)
  ultimately show ?thesis by simp
next
  case False
  with u show ?thesis by (simp add: deposit_money_def abs_stutter)
qed

lemma withdraw_refines:
  assumes ok: "store_ok st" and u: "current_user st = Some u" and act: "is_active (accounts st ! u)"
  shows "abs_step (abs_of st) (abs_of (snd (withdraw_money amt now st)))"
proof (cases "validate_amount amt \<and> min_balance (account_type (accounts st ! u)) \<le> balance (accounts st ! u) - amt")
  case True
  let ?a = "accounts st ! u"
  from store_ok_current [OF ok u] have ul: "u < total_accounts st" by simp
  have "abs_of (snd (withdraw_money amt now st)) =
          (abs_of st)(username ?a \<mapsto> (view ?a)\<lparr>v_balance := v_balance (view ?a) - amt\<rparr>)"
    using True u ul store_ok_distinct [OF ok] by (simp add: withdraw_money_def Let_def abs_of_update)
  moreover have "abs_step (abs_of st) ((abs_of st)(username ?a \<mapsto> (view ?a)\<lparr>v_balance := v_balance (view ?a) - amt\<rparr>))"
    using abs_of_nth [OF store_ok_distinct [OF ok] ul] act True
    by (intro abs_withdraw) (simp_all add: validate_amount_def)
  ultimately show ?thesis by simp
next
  case False
  with u show ?thesis by (auto simp: withdraw_money_def Let_def abs_stutter)
qed

lemma change_password_refines:
  assumes ok: "store_ok st"
  shows "abs_step (abs_of st) (abs_of (snd (change_password old new confirm st)))"
proof (cases "current_user st")
  case (Some u)
  from store_ok_current [OF ok Some] have ul: "u < total_accounts st" by simp
  with Some store_ok_distinct [OF ok] show ?thesis
    by (simp add: change_password_def Let_def abs_of_update_same abs_stutter)
qed (simp add: change_password_def abs_stutter)

lemma abs_of_update2:
  assumes d: "distinct (map username (accounts st))" and i: "i < total_accounts st"
    and j: "j < total_accounts st" and ij: "i \<noteq> j"
    and ka: "username a = username (accounts st ! i)" and kb: "username b = username (accounts st ! j)"
  shows "abs_of (st\<lparr>accounts := (accounts st)[i := a, j := b]\<rparr>) =
           (abs_of st)(username a \<mapsto> view a, username b \<mapsto> view b)"
proof -
  let ?st1 = "st\<lparr>accounts := (accounts st)[i := a]\<rparr>"
  have d1: "distinct (map username (accounts ?st1))"
    using d ka by (simp add: map_update_same_key)
  have "abs_of (?st1\<lparr>accounts := (accounts ?st1)[j := b]\<rparr>) = (abs_of ?st1)(username b \<mapsto> view b)"
    using abs_of_update [OF d1] j ij kb by simp
  then show ?thesis using abs_of_update [OF d i ka] by simp
qed

lemma username_nth_neq:
  "distinct (map username xs) \<Longrightarrow> i < length xs \<Longrightarrow> j < length xs \<Longrightarrow> i \<noteq> j \<Longrightarrow>
     username (xs ! i) \<noteq> username (xs ! j)"
  by (metis distinct_conv_nth length_map nth_map)

lemma transfer_refines:
  assumes ok: "store_ok st" and u: "current_user st = Some u" and act: "is_active (accounts st ! u)"
  shows "abs_step (abs_of st) (abs_of (snd (transfer_money target amt now st)))"
proof (cases "fst (transfer_money target amt now st) = Success")
  case True
  then obtain t where f: "find_account_by_number st target = Some t"
    using u by (auto simp: transfer_money_def split: option.splits)
  from store_ok_current [OF ok u] have ul: "u < total_accounts st" by simp
  from find_number_Some [OF f] have tl: "t < total_accounts st" by simp
  from True u f have tok: "transfer_ok st u t amt" by (simp add: transfer_success_iff)
  let ?a = "accounts st ! u" and ?b = "accounts st ! t"
  from transfer_money_success [OF u ul f tok] have tu: "t \<noteq> u" and res:
    "snd (transfer_money target amt now st) = persist (st\<lparr>accounts := (accounts st)
        [u := debit_leg ?a ?b amt now, t := credit_leg ?b ?a amt now]\<rparr>)" by simp_all
  have d: "distinct (map username (accounts st))" using ok by (rule store_ok_distinct)
  have "abs_of (snd (transfer_money target amt now st)) =
          (abs_of st)(username ?a \<mapsto> (view ?a)\<lparr>v_balance := v_balance (view ?a) - amt\<rparr>,
                      username ?b \<mapsto> (view ?b)\<lparr>v_balance := v_balance (view ?b) + amt\<rparr>)"
    using abs_of_update2 [OF d ul tl tu [symmetric]] by (simp add: res debit_leg_def credit_leg_def)
  moreover have "abs_step (abs_of st)
      ((abs_of st)(username ?a \<mapsto> (view ?a)\<lparr>v_balance := v_balance (view ?a) - amt\<rparr>,
                   username ?b \<mapsto> (view ?b)\<lparr>v_balance := v_balance (view ?b) + amt\<rparr>))"
    using abs_of_nth [OF d ul] abs_of_nth [OF d tl] username_nth_neq [OF d ul tl tu [symmetric]] act tok
    by (intro abs_transfer) (simp_all add: transfer_ok_def validate_amount_def)
  ultimately show ?thesis by simp
next
  case False
  then show ?thesis by (simp add: transfer_fail_same abs_stutter)
qed

lemma create_refines:
  assumes ok: "store_ok st"
  shows "abs_step (abs_of st) (abs_of (snd (create_account r f now st)))"
proof (cases "fst (create_account r f now st) = Success")
  case True
  from create_account_Success_cases [OF True] obtain ty m where
    c: "account_type_choice (cf_type_choice f) = Some (ty, m)" and dep: "m \<le> cf_deposit f"
    and fresh: "find_account_by_username st (cf_username f) = None"
    and res: "snd (create_account r f now st) =
         persist (st\<lparr>accounts := accounts st @ [new_account (generate_account_number r) f ty now]\<rparr>)"
    by blast
  let ?v = "\<lparr>v_balance = cf_deposit f, v_active = True, v_type = ty\<rparr>"
  from fresh have nin: "cf_username f \<notin> set (map username (accounts st))"
    by (simp add: find_account_by_username_None)
  have vn: "view (new_account (generate_account_number r) f ty now) = ?v"
    by (simp add: view_def new_account_fields)
  have "abs_of (snd (create_account r f now st)) = (abs_of st)(cf_username f \<mapsto> ?v)"
    using nin abs_of_snoc [of "new_account (generate_account_number r) f ty now" st]
    by (simp add: res new_account_fields vn)
  moreover have "abs_step (abs_of st) ((abs_of st)(cf_username f \<mapsto> ?v))"
    using nin account_type_choice_Some [OF c] dep
    by (intro abs_open) (auto simp: abs_of_def map_of_eq_None_iff)
  ultimately show ?thesis by simp
next
  case False
  then show ?thesis by (simp add: create_account_fail_same abs_stutter)
qed

lemma abs_step_set_active_at:
  assumes d: "distinct (map username (accounts st))" and i: "i < total_accounts st"
  shows "abs_step (abs_of st) (abs_of (st\<lparr>accounts := (accounts st)[i := (accounts st ! i)\<lparr>is_active := x\<rparr>]\<rparr>))"
proof -
  let ?a = "accounts st ! i"
  have "abs_of (st\<lparr>accounts := (accounts st)[i := ?a\<lparr>is_active := x\<rparr>]\<rparr>) =
          (abs_of st)(username ?a \<mapsto> (view ?a)\<lparr>v_active := x\<rparr>)"
    using abs_of_update [OF d i] by simp
  moreover have "abs_step (abs_of st) ((abs_of st)(username ?a \<mapsto> (view ?a)\<lparr>v_active := x\<rparr>))"
    using abs_of_nth [OF d i] by (rule abs_set_active)
  ultimately show ?thesis by simp
qed

lemma admin_block_refines:
  "store_ok st \<Longrightarrow> abs_step (abs_of st) (abs_of (snd (admin_block_account num st)))"
  by (auto simp: admin_block_account_def abs_stutter store_ok_distinct
      dest: find_number_Some intro: abs_step_set_active_at split: option.splits)

lemma admin_unblock_refines:
  assumes ok: "store_ok st"
  shows "abs_step (abs_of st) (abs_of (snd (admin_unblock_account num st)))"
proof (cases "find_account_by_number st num")
  case (Some i)
  from find_number_Some [OF Some] have i: "i < total_accounts st" by simp
  have "abs_of (st\<lparr>accounts := (accounts st)[i := (accounts st ! i)\<lparr>is_active := True, failed_attempts := 0\<rparr>]\<rparr>) =
        abs_of (st\<lparr>accounts := (accounts st)[i := (accounts st ! i)\<lparr>is_active := True\<rparr>]\<rparr>)"
    using store_ok_distinct [OF ok] i by (simp add: abs_of_update)
  with abs_step_set_active_at [OF store_ok_distinct [OF ok] i, of True] Some show ?thesis
    by (simp add: admin_unblock_account_def)
qed (simp add: admin_unblock_account_def abs_stutter)

lemma user_login_refines:
  assumes ok: "store_ok st"
  shows "abs_step (abs_of st) (abs_of (snd (user_login un pw st)))"
proof (cases "find_account_by_username st un")
  case (Some i)
  have d: "distinct (map username (accounts st))" using ok by (rule store_ok_distinct)
  from find_username_Some [OF Some] have i: "i < total_accounts st" by simp
  let ?a = "accounts st ! i"
  have same: "abs_of (st\<lparr>accounts := (accounts st)[i := ?a\<lparr>failed_attempts := n\<rparr>]\<rparr>) = abs_of st" for n
    using d i by (simp add: abs_of_update_same)
  have blocked: "abs_of (st\<lparr>accounts := (accounts st)[i := ?a\<lparr>failed_attempts := n, is_active := False\<rparr>]\<rparr>) =
      abs_of (st\<lparr>accounts := (accounts st)[i := ?a\<lparr>is_active := False\<rparr>]\<rparr>)" for n
    using d i by (simp add: abs_of_update)
  show ?thesis
    using Some same blocked abs_step_set_active_at [OF d i, of False]
    by (simp add: user_login_def Let_def abs_stutter)
qed (simp add: user_login_def abs_stutter)

lemma abs_step_frozen:
  assumes "abs_step m m'" "m k = Some a" "\<not> v_active a"
  shows "\<exists>a'. m' k = Some a' \<and> v_balance a' = v_balance a"
  using assms by (cases rule: abs_step.cases) auto

subsection \<open>Every menu step is one abstract step\<close>

lemma main_step_refines:
  assumes ok: "store_ok st" and s': "main_step ev st = Some s'"
  shows "abs_step (abs_of st) (abs_of (snd s'))"
proof (cases ev)
  case (ChooseCreateAccount r f k1 k2 now d)
  with s' have "snd s' = st \<or> (\<exists>f'. snd s' = snd (create_account r f' now st))"
    by (simp add: main_step_create_cases)
  with ok show ?thesis by (auto simp: abs_stutter create_refines)
qed (use s' ok in \<open>auto simp: Let_def abs_stutter user_login_refines split: option.splits if_splits\<close>)

lemma admin_step_refines:
  "store_ok st \<Longrightarrow> admin_step ev st = Some s' \<Longrightarrow> abs_step (abs_of st) (abs_of (snd s'))"
  by (cases ev) (auto simp: abs_stutter admin_block_refines admin_unblock_refines)

lemma user_step_refines:
  assumes ok: "store_ok st" and u: "current_user st = Some u" and act: "is_active (accounts st ! u)"
    and s': "user_step ev st = Some s'"
  shows "abs_step (abs_of st) (abs_of (snd s'))"
  using s' deposit_refines [OF ok u act] withdraw_refines [OF ok u act] transfer_refines [OF ok u act]
    change_password_refines [OF ok]
  by (cases ev) (auto simp: abs_stutter split: option.splits if_splits)

lemma menu_step_refines:
  assumes inv: "session_inv s" and st: "menu_step ev s = Some s'"
  shows "abs_step (abs_of (snd s)) (abs_of (snd s'))"
proof (cases s)
  case (Pair scr b)
  from inv Pair have ok: "store_ok b" by (simp add: session_inv_def)
  show ?thesis
  proof (cases scr)
    case MainMenu with st Pair ok show ?thesis by (simp add: main_step_refines)
  next
    case AdminDashboard with st Pair ok show ?thesis by (simp add: admin_step_refines)
  next
    case UserDashboard
    with inv Pair obtain u where "current_user b = Some u" "is_active (accounts b ! u)"
      by (auto simp: session_inv_def)
    with UserDashboard st Pair ok show ?thesis by (simp add: user_step_refines)
  next
    case Exited with st Pair show ?thesis by simp
  qed
qed

text \<open>
  C2: the concrete program refines the specification's account store: every step
  of the menus from a reachable session changes the username-to-account map as one
  of the specification's operations does (open, deposit, withdraw, transfer,
  block or unblock) with that operation's guards holding (floors, active accounts,
  amounts in \<open>(0, 1000000]\<close>), or not at all. Reachable sessions are those in
  which every initial deposit that passed the check at line 565 was a number; a
  \<open>nan\<close> or \<open>inf\<close> deposit stops the model (see \<open>create_with_deposit\<close>).
\<close>

theorem reachable_step_refines:
  "reachable (scr, st) \<Longrightarrow> menu_step ev (scr, st) = Some (scr', st') \<Longrightarrow>
     abs_step (abs_of st) (abs_of st')"
  using reachable_inv menu_step_refines by fastforce

text \<open>
  C6: money never moves in or out of a blocked account: across any step of the
  menus from a reachable session, an account that is blocked keeps its username and
  its balance (it may only be unblocked).
\<close>

theorem blocked_balance_frozen:
  "reachable (scr, st) \<Longrightarrow> menu_step ev (scr, st) = Some (scr', st') \<Longrightarrow>
     abs_of st un = Some a \<Longrightarrow> \<not> v_active a \<Longrightarrow>
     \<exists>a'. abs_of st' un = Some a' \<and> v_balance a' = v_balance a"
  using reachable_inv menu_step_refines abs_step_frozen by fastforce

end
