(* ===== verification/Ledger_History.thy ===== *)
theory Ledger_History
  imports Session "HOL-Library.Sublist"
begin

text \<open>
  The specification calls each account's ledger append-only (sections 2 and 3):
  a transaction once recorded is never changed or removed. \<open>ledgers_extend st st'\<close>
  says that the table of \<open>st'\<close> has at least the accounts of \<open>st\<close> and that each of
  their ledgers in \<open>st'\<close> starts with the ledger it had in \<open>st\<close>. The lemmas show
  that every handler of \<^verbatim>\<open>src/bank.c\<close>, and so every step of the menus, extends
  the ledgers in this sense.
\<close>

definition ledgers_extend :: "bank \<Rightarrow> bank \<Rightarrow> bool" where
  "ledgers_extend st st' \<longleftrightarrow>
     total_accounts st \<le> total_accounts st' \<and>
     (\<forall>i < total_accounts st. prefix (transactions (accounts st ! i)) (transactions (accounts st' ! i)))"

subsection \<open>The relation and the table updates\<close>

lemma ledgers_extend_refl [simp]: "ledgers_extend st st"
  by (simp add: ledgers_extend_def)

lemma ledgers_extend_trans:
  "ledgers_extend s1 s2 \<Longrightarrow> ledgers_extend s2 s3 \<Longrightarrow> ledgers_extend s1 s3"
  unfolding ledgers_extend_def by (meson order_trans less_le_trans prefix_order.order_trans)

lemma ledgers_extend_frame [simp]:
  "ledgers_extend st (persist st') = ledgers_extend st st'"
  "ledgers_extend st (st'\<lparr>current_user := c\<rparr>) = ledgers_extend st st'"
  by (simp_all add: ledgers_extend_def)

lemma ledgers_extend_update:
  "prefix (transactions (accounts st ! i)) (transactions a) \<Longrightarrow>
     ledgers_extend st (st\<lparr>accounts := (accounts st)[i := a]\<rparr>)"
  unfolding ledgers_extend_def
proof (intro conjI allI impI)
  fix j assume p: "prefix (transactions (accounts st ! i)) (transactions a)" and j: "j < total_accounts st"
  show "prefix (transactions (accounts st ! j)) (transactions (accounts (st\<lparr>accounts := (accounts st)[i := a]\<rparr>) ! j))"
  proof (cases "j = i")
    case True with p j show ?thesis by simp
  next
    case False then show ?thesis by simp
  qed
qed simp

lemma ledgers_extend_snoc: "ledgers_extend st (st\<lparr>accounts := accounts st @ [a]\<rparr>)"
  by (simp add: ledgers_extend_def nth_append)

lemma prefix_add_transaction: "prefix (transactions a) (transactions (add_transaction a ty amt d r now))"
  using add_transaction_prefix [of a ty amt d r now] by (auto simp: prefix_def)

lemma prefix_add_transaction_balance:
  "prefix (transactions a) (transactions (add_transaction (a\<lparr>balance := b\<rparr>) ty amt d r now))"
  using prefix_add_transaction [of "a\<lparr>balance := b\<rparr>" ty amt d r now] by simp

lemma transactions_field_updates [simp]:
  "transactions (a\<lparr>balance := b\<rparr>) = transactions a"
  "transactions (a\<lparr>is_active := x\<rparr>) = transactions a"
  "transactions (a\<lparr>failed_attempts := n\<rparr>) = transactions a"
  "transactions (a\<lparr>password_hash := h\<rparr>) = transactions a"
  by simp_all

lemmas ledger_step_rules = ledgers_extend_update ledgers_extend_snoc prefix_add_transaction
  prefix_add_transaction_balance

subsection \<open>Each handler extends the ledgers\<close>

lemma handlers_extend_ledgers:
  "ledgers_extend st (snd (deposit_money amt now st))"
  "ledgers_extend st (snd (withdraw_money amt now st))"
  "ledgers_extend st (snd (change_password old new confirm st))"
  "ledgers_extend st (snd (user_login un pw st))"
  "ledgers_extend st (snd (admin_block_account num st))"
  "ledgers_extend st (snd (admin_unblock_account num st))"
  "ledgers_extend st (snd (create_account r f now st))"
  by (simp_all add: deposit_money_def withdraw_money_def change_password_def user_login_def
      admin_block_account_def admin_unblock_account_def create_account_def Let_def ledger_step_rules
      split: option.splits)

lemma transfer_extends_ledgers: "ledgers_extend st (snd (transfer_money target amt now st))"
proof (cases "fst (transfer_money target amt now st) = Success")
  case True
  then obtain u t where u: "current_user st = Some u" and f: "find_account_by_number st target = Some t"
    by (auto simp: transfer_money_def split: option.splits)
  from True u f have tok: "transfer_ok st u t amt" by (simp add: transfer_success_iff)
  from find_number_Some [OF f] have tl: "t < total_accounts st" by simp
  show ?thesis
  proof (cases "u < total_accounts st")
    case ul: True
    let ?a = "accounts st ! u" and ?b = "accounts st ! t"
    let ?st1 = "st\<lparr>accounts := (accounts st)[u := debit_leg ?a ?b amt now]\<rparr>"
    from transfer_money_success [OF u ul f tok] have tu: "t \<noteq> u" and res:
      "snd (transfer_money target amt now st) =
         persist (?st1\<lparr>accounts := (accounts ?st1)[t := credit_leg ?b ?a amt now]\<rparr>)" by simp_all
    have "ledgers_extend st ?st1"
      by (rule ledgers_extend_update) (simp add: debit_leg_def prefix_add_transaction_balance)
    moreover have "ledgers_extend ?st1 (?st1\<lparr>accounts := (accounts ?st1)[t := credit_leg ?b ?a amt now]\<rparr>)"
      using tu by (intro ledgers_extend_update) (simp add: credit_leg_def prefix_add_transaction_balance)
    ultimately show ?thesis by (simp add: res ledgers_extend_trans [of st ?st1])
  next
    case False
    with True u f tl show ?thesis
      by (auto simp: transfer_money_def transfer_ok_def Let_def ledger_step_rules list_update_beyond not_less)
  qed
next
  case False
  then show ?thesis by (simp add: transfer_fail_same)
qed

subsection \<open>Every menu step extends the ledgers\<close>

text \<open>
  C7: the ledgers are append-only: after any step of the menus no account has
  disappeared and every account's ledger begins with every record it held before;
  nothing is rewritten or removed (not even by a failed operation).
\<close>

theorem menu_step_append_only:
  "menu_step ev (scr, st) = Some (scr', st') \<Longrightarrow> ledgers_extend st st'"
  by (cases scr; cases ev)
    (auto simp: Let_def handlers_extend_ledgers transfer_extends_ledgers create_with_deposit_def
      split: option.splits if_splits double_in.splits)

end
