(* ===== verification/Presentation.thy ===== *)
theory Presentation
  imports Session
begin

text \<open>
  What the screens of \<^verbatim>\<open>src/bank.c\<close> show, as data: the account details of
  \<open>view_account_details\<close> (lines 739--758), the name and balance in the header of
  the user dashboard (389, 399), and the receipt \<open>create_account\<close> prints
  (590--592). The layout of \<open>printf\<close>, \<open>clear_screen\<close> and \<open>pause_system\<close> is not
  modelled. The details read \<open>current_user\<close>; \<open>None\<close> stands for the NULL
  dereference when nobody is logged in.
\<close>

definition status_text :: "bool \<Rightarrow> string" where
  "status_text b = (if b then ''ACTIVE'' else ''BLOCKED'')"

record details =
  d_number :: string
  d_holder :: string
  d_type :: string
  d_username :: string
  d_email :: string
  d_mobile :: string
  d_dob :: string
  d_created :: string
  d_balance :: money
  d_status :: string
  d_transactions :: nat

definition view_account_details :: "bank \<Rightarrow> details option" where
  "view_account_details st =
     map_option (\<lambda>u. let a = accounts st ! u in
        \<lparr>d_number = account_number a, d_holder = name a, d_type = account_type a,
         d_username = username a, d_email = email a, d_mobile = mobile a, d_dob = dob a,
         d_created = created_date a, d_balance = balance a, d_status = status_text (is_active a),
         d_transactions = transaction_count a\<rparr>) (current_user st)"

definition dashboard_header :: "bank \<Rightarrow> (string \<times> money) option" where
  "dashboard_header st = map_option (\<lambda>u. (name (accounts st ! u), balance (accounts st ! u))) (current_user st)"

definition creation_receipt :: "bank_account \<Rightarrow> string \<times> string \<times> money" where
  "creation_receipt a = (account_number a, account_type a, balance a)"

subsection \<open>Lemmas\<close>

lemma view_account_details_Some:
  "current_user st = Some u \<Longrightarrow>
     view_account_details st = Some
       \<lparr>d_number = account_number (accounts st ! u), d_holder = name (accounts st ! u),
        d_type = account_type (accounts st ! u), d_username = username (accounts st ! u),
        d_email = email (accounts st ! u), d_mobile = mobile (accounts st ! u), d_dob = dob (accounts st ! u),
        d_created = created_date (accounts st ! u), d_balance = balance (accounts st ! u),
        d_status = status_text (is_active (accounts st ! u)),
        d_transactions = transaction_count (accounts st ! u)\<rparr> \<and>
     dashboard_header st = Some (name (accounts st ! u), balance (accounts st ! u))"
  by (simp add: view_account_details_def dashboard_header_def Let_def)

end
