(* ===== verification/Field_Buffers.thy ===== *)
theory Field_Buffers
  imports Account_Store "HOL-Library.Monad_Syntax"
begin

text \<open>
  The reads of \<open>create_account\<close> (\<^verbatim>\<open>src/bank.c\<close> lines 440--497) at the level of the
  bytes of the local \<open>BankAccount new_account = {0}\<close>. \<open>scanf ("%s", ...)\<close> and
  \<open>scanf (" %[^\n]", ...)\<close> store the typed text and a NUL with no bound, so a long
  entry runs into the fields that follow it in the struct. The char arrays at the
  start of \<open>BankAccount\<close> (lines 25--32) have alignment 1 and follow each other
  without padding; the image holds these 212 bytes. A store that would run past
  the end of \<open>email\<close> is \<open>None\<close>: the model does not follow the bytes of \<open>balance\<close>
  and the later fields.
\<close>

type_synonym image = "char list"

datatype char_field = F_account_number | F_name | F_username | F_password_hash | F_dob | F_mobile | F_email

fun field_off :: "char_field \<Rightarrow> nat" where
  "field_off F_account_number = 0"
| "field_off F_name = 15"
| "field_off F_username = 65"
| "field_off F_password_hash = 85"
| "field_off F_dob = 135"
| "field_off F_mobile = 147"
| "field_off F_email = 162"

fun field_size :: "char_field \<Rightarrow> nat" where
  "field_size F_account_number = 15"
| "field_size F_name = 50"
| "field_size F_username = 20"
| "field_size F_password_hash = 50"
| "field_size F_dob = 12"
| "field_size F_mobile = 15"
| "field_size F_email = 50"

definition CHAR_FIELDS_END :: nat where "CHAR_FIELDS_END = 212"

definition blank_image :: image where
  "blank_image = replicate CHAR_FIELDS_END (CHR 0x00)"

text \<open>Storing a C string at an offset: its characters, then the terminator.\<close>

definition put_cstr :: "nat \<Rightarrow> string \<Rightarrow> image \<Rightarrow> image" where
  "put_cstr off s img = take off img @ s @ CHR 0x00 # drop (off + length s + 1) img"

definition store_cstr :: "nat \<Rightarrow> string \<Rightarrow> image \<Rightarrow> image option" where
  "store_cstr off s img = (if off + length s < length img then Some (put_cstr off s img) else None)"

definition scan_field :: "char_field \<Rightarrow> string \<Rightarrow> image \<Rightarrow> image option" where
  "scan_field fld s img = store_cstr (field_off fld) s img"

definition read_field :: "char_field \<Rightarrow> image \<Rightarrow> string" where
  "read_field fld img = cstr (drop (field_off fld) img)"

text \<open>The profile fields as \<open>accounts[total_accounts] = new_account\<close> copies them.\<close>

definition image_form :: "image \<Rightarrow> create_form \<Rightarrow> create_form" where
  "image_form img f =
     f\<lparr>cf_name := read_field F_name img, cf_username := read_field F_username img,
       cf_email := read_field F_email img, cf_mobile := read_field F_mobile img,
       cf_dob := read_field F_dob img\<rparr>"

text \<open>
  \<open>create_account\<close> with its reads in source order: each check sees the field as it
  is in memory when the check runs, the account is built from the bytes as they are
  after the last read.
\<close>

definition create_account_scan :: "nat \<Rightarrow> create_form \<Rightarrow> string \<Rightarrow> bank \<Rightarrow> bank outcome option" where
  "create_account_scan r f now st =
     (if total_accounts st \<ge> MAX_ACCOUNTS then Some (fail MaxAccountsReached st)
      else do {
        img0 \<leftarrow> scan_field F_account_number (generate_account_number r) blank_image;
        img1 \<leftarrow> scan_field F_name (cf_name f) img0;
        if \<not> validate_name (read_field F_name img1) then Some (fail InvalidName st) else do {
        img2 \<leftarrow> scan_field F_username (cf_username f) img1;
        if \<not> validate_username_length (read_field F_username img2) then Some (fail InvalidUsernameLength st)
        else if find_account_by_username st (read_field F_username img2) \<noteq> None then Some (fail UsernameExists st)
        else do {
        img3 \<leftarrow> scan_field F_email (cf_email f) img2;
        if \<not> validate_email (read_field F_email img3) then Some (fail InvalidEmail st) else do {
        img4 \<leftarrow> scan_field F_mobile (cf_mobile f) img3;
        if \<not> validate_mobile (read_field F_mobile img4) then Some (fail InvalidMobile st) else do {
        img5 \<leftarrow> scan_field F_dob (cf_dob f) img4;
        if cstr (cf_password f) \<noteq> cstr (cf_confirm f) then Some (fail PasswordsDontMatch st)
        else case account_type_choice (cf_type_choice f) of
          None \<Rightarrow> Some (fail InvalidAccountTypeChoice st)
        | Some (ty, min_deposit) \<Rightarrow>
            if cf_deposit f < min_deposit then Some (fail InsufficientInitialDeposit st)
            else Some (Success, persist (st\<lparr>accounts := accounts st @
                   [new_account (read_field F_account_number img5) (image_form img5 f) ty now]\<rparr>))
        }}}}})"

text \<open>\<open>holds_at p s img\<close>: the bytes from \<open>p\<close> on are \<open>s\<close> and a NUL.\<close>

definition holds_at :: "nat \<Rightarrow> string \<Rightarrow> image \<Rightarrow> bool" where
  "holds_at p s img \<longleftrightarrow> p + length s < length img \<and> take (length s + 1) (drop p img) = s @ [CHR 0x00]"

text \<open>An entry fits its field when it leaves room for the terminator and has no NUL.\<close>

definition fits_field :: "char_field \<Rightarrow> string \<Rightarrow> bool" where
  "fits_field fld s \<longleftrightarrow> length s < field_size fld \<and> CHR 0x00 \<notin> set s"

subsection \<open>Bytes of the image\<close>

lemma length_put_cstr [simp]: "off + length s < length img \<Longrightarrow> length (put_cstr off s img) = length img"
  by (simp add: put_cstr_def)

lemma nth_put_cstr:
  "off + length s < length img \<Longrightarrow> i < length img \<Longrightarrow>
     put_cstr off s img ! i = (if i < off then img ! i else if i \<le> off + length s then (s @ [CHR 0x00]) ! (i - off) else img ! i)"
  by (auto simp: put_cstr_def nth_append min_def not_less le_Suc_eq Suc_diff_le dest: le_antisym)

lemma holds_at_nth:
  "holds_at p s img \<longleftrightarrow> p + length s < length img \<and> (\<forall>i \<le> length s. img ! (p + i) = (s @ [CHR 0x00]) ! i)"
  by (auto simp: holds_at_def list_eq_iff_nth_eq less_Suc_eq_le)

lemma holds_put_cstr: "off + length s < length img \<Longrightarrow> holds_at off s (put_cstr off s img)"
  by (simp add: holds_at_nth nth_put_cstr)

lemma holds_put_cstr_frame:
  "off + length s < length img \<Longrightarrow> holds_at p t img \<Longrightarrow> p + length t < off \<or> off + length s < p \<Longrightarrow>
     holds_at p t (put_cstr off s img)"
  by (auto simp: holds_at_nth nth_put_cstr)

lemma holds_at_drop: "holds_at p s img \<Longrightarrow> k \<le> length s \<Longrightarrow> holds_at (p + k) (drop k s) img"
  by (auto simp: holds_at_nth nth_append add.assoc)

lemma cstr_holds_at: "holds_at p s img \<Longrightarrow> CHR 0x00 \<notin> set s \<Longrightarrow> cstr (drop p img) = s"
proof -
  assume h: "holds_at p s img" and s: "CHR 0x00 \<notin> set s"
  have "drop p img = take (length s + 1) (drop p img) @ drop (length s + 1) (drop p img)"
    by (rule append_take_drop_id [symmetric])
  with h have "drop p img = s @ CHR 0x00 # drop (length s + 1) (drop p img)"
    by (simp only: holds_at_def) simp
  with s show ?thesis by simp
qed

lemma read_holds_at: "holds_at (field_off fld) s img \<Longrightarrow> CHR 0x00 \<notin> set s \<Longrightarrow> read_field fld img = s"
  by (simp add: read_field_def cstr_holds_at)

lemma scan_field_put:
  "field_off fld + length s < length img \<Longrightarrow> scan_field fld s img = Some (put_cstr (field_off fld) s img)"
  by (simp add: scan_field_def store_cstr_def)

lemma length_blank_image [simp]: "length blank_image = 212"
  by (simp add: blank_image_def CHAR_FIELDS_END_def)

subsection \<open>The reads of create_account\<close>

text \<open>
  When name, username, email and mobile fit their fields and the date of birth has
  fewer than 27 characters, every read stores its entry, every check sees the entry
  typed, and after the last read only \<open>mobile\<close> can differ from what was typed: a
  date of birth of twelve characters or more runs into it.
\<close>

lemma profile_scan:
  assumes n: "fits_field F_name (cf_name f)" and u: "fits_field F_username (cf_username f)"
    and e: "fits_field F_email (cf_email f)" and m: "fits_field F_mobile (cf_mobile f)"
    and d: "CHR 0x00 \<notin> set (cf_dob f)" "length (cf_dob f) < 27"
  obtains img0 img1 img2 img3 img4 img5 where
    "scan_field F_account_number (generate_account_number r) blank_image = Some img0"
    "scan_field F_name (cf_name f) img0 = Some img1" "read_field F_name img1 = cf_name f"
    "scan_field F_username (cf_username f) img1 = Some img2" "read_field F_username img2 = cf_username f"
    "scan_field F_email (cf_email f) img2 = Some img3" "read_field F_email img3 = cf_email f"
    "scan_field F_mobile (cf_mobile f) img3 = Some img4" "read_field F_mobile img4 = cf_mobile f"
    "scan_field F_dob (cf_dob f) img4 = Some img5"
    "read_field F_account_number img5 = generate_account_number r"
    "image_form img5 f = f\<lparr>cf_mobile := (if length (cf_dob f) < 12 then cf_mobile f else drop 12 (cf_dob f))\<rparr>"
proof -
  let ?a = "generate_account_number r"
  from generate_account_number_cfield [of r] have a: "length ?a = 13" "CHR 0x00 \<notin> set ?a" by simp_all
  from n u e m have l: "length (cf_name f) < 50" "length (cf_username f) < 20" "length (cf_email f) < 50"
    "length (cf_mobile f) < 15" by (simp_all add: fits_field_def)
  from n u e m have z: "CHR 0x00 \<notin> set (cf_name f)" "CHR 0x00 \<notin> set (cf_username f)"
    "CHR 0x00 \<notin> set (cf_email f)" "CHR 0x00 \<notin> set (cf_mobile f)" by (simp_all add: fits_field_def)
  define img0 where "img0 = put_cstr 0 ?a blank_image"
  define img1 where "img1 = put_cstr 15 (cf_name f) img0"
  define img2 where "img2 = put_cstr 65 (cf_username f) img1"
  define img3 where "img3 = put_cstr 162 (cf_email f) img2"
  define img4 where "img4 = put_cstr 147 (cf_mobile f) img3"
  define img5 where "img5 = put_cstr 135 (cf_dob f) img4"
  have len: "length img0 = 212" "length img1 = 212" "length img2 = 212" "length img3 = 212"
    "length img4 = 212" "length img5 = 212"
    using a l d by (simp_all add: img0_def img1_def img2_def img3_def img4_def img5_def)
  have h0: "holds_at 0 ?a img0" using a by (simp add: img0_def holds_put_cstr)
  have h1: "holds_at 15 (cf_name f) img1" "holds_at 0 ?a img1"
    using a l len h0 by (simp_all add: img1_def holds_put_cstr holds_put_cstr_frame)
  have h2: "holds_at 65 (cf_username f) img2" "holds_at 15 (cf_name f) img2" "holds_at 0 ?a img2"
    using a l len h1 by (simp_all add: img2_def holds_put_cstr holds_put_cstr_frame)
  have h3: "holds_at 162 (cf_email f) img3" "holds_at 65 (cf_username f) img3"
    "holds_at 15 (cf_name f) img3" "holds_at 0 ?a img3"
    using a l len h2 by (simp_all add: img3_def holds_put_cstr holds_put_cstr_frame)
  have h4: "holds_at 147 (cf_mobile f) img4" "holds_at 162 (cf_email f) img4" "holds_at 65 (cf_username f) img4"
    "holds_at 15 (cf_name f) img4" "holds_at 0 ?a img4"
    using a l len h3 by (simp_all add: img4_def holds_put_cstr holds_put_cstr_frame)
  have h5: "holds_at 135 (cf_dob f) img5" "holds_at 162 (cf_email f) img5" "holds_at 65 (cf_username f) img5"
    "holds_at 15 (cf_name f) img5" "holds_at 0 ?a img5"
    using a l d len h4 by (simp_all add: img5_def holds_put_cstr holds_put_cstr_frame)
  have mob: "read_field F_mobile img5 = (if length (cf_dob f) < 12 then cf_mobile f else drop 12 (cf_dob f))"
  proof (cases "length (cf_dob f) < 12")
    case True
    with l d len h4 have "holds_at 147 (cf_mobile f) img5" by (simp add: img5_def holds_put_cstr_frame)
    with True z show ?thesis by (simp add: read_holds_at)
  next
    case False
    with holds_at_drop [OF h5(1), of 12] have "holds_at 147 (drop 12 (cf_dob f)) img5" by simp
    moreover from d have "CHR 0x00 \<notin> set (drop 12 (cf_dob f))" by (auto dest: in_set_dropD)
    ultimately show ?thesis using False read_holds_at [of F_mobile "drop 12 (cf_dob f)" img5] by simp
  qed
  have sc: "scan_field F_account_number ?a blank_image = Some img0"
    "scan_field F_name (cf_name f) img0 = Some img1" "scan_field F_username (cf_username f) img1 = Some img2"
    "scan_field F_email (cf_email f) img2 = Some img3" "scan_field F_mobile (cf_mobile f) img3 = Some img4"
    "scan_field F_dob (cf_dob f) img4 = Some img5"
    using a l d len by (simp_all add: scan_field_put img0_def img1_def img2_def img3_def img4_def img5_def)
  have rd: "read_field F_name img1 = cf_name f" "read_field F_username img2 = cf_username f"
    "read_field F_email img3 = cf_email f" "read_field F_mobile img4 = cf_mobile f"
    "read_field F_account_number img5 = ?a"
    using a z h1 h2 h3 h4 h5 by (simp_all add: read_holds_at)
  have "image_form img5 f = f\<lparr>cf_mobile := (if length (cf_dob f) < 12 then cf_mobile f else drop 12 (cf_dob f))\<rparr>"
    using z d h5 mob by (simp add: image_form_def read_holds_at)
  then show ?thesis by (rule that [OF sc(1) sc(2) rd(1) sc(3) rd(2) sc(4) rd(3) sc(5) rd(4) sc(6) rd(5)])
qed

text \<open>
  The status of \<open>create_account\<close> does not depend on the date of birth, and when the
  other entries fit, its checks see what was typed.
\<close>

lemma create_account_scan_status:
  assumes "fits_field F_name (cf_name f)" "fits_field F_username (cf_username f)"
    "fits_field F_email (cf_email f)" "fits_field F_mobile (cf_mobile f)"
    "CHR 0x00 \<notin> set (cf_dob f)" "length (cf_dob f) < 27"
  shows "map_option fst (create_account_scan r f now st) = Some (fst (create_account r f now st))"
proof (cases "total_accounts st \<ge> MAX_ACCOUNTS")
  case True
  then show ?thesis by (simp add: create_account_scan_def create_account_def)
next
  case False
  from assms obtain img0 img1 img2 img3 img4 img5 where
    "scan_field F_account_number (generate_account_number r) blank_image = Some img0"
    "scan_field F_name (cf_name f) img0 = Some img1" "read_field F_name img1 = cf_name f"
    "scan_field F_username (cf_username f) img1 = Some img2" "read_field F_username img2 = cf_username f"
    "scan_field F_email (cf_email f) img2 = Some img3" "read_field F_email img3 = cf_email f"
    "scan_field F_mobile (cf_mobile f) img3 = Some img4" "read_field F_mobile img4 = cf_mobile f"
    "scan_field F_dob (cf_dob f) img4 = Some img5" by (rule profile_scan)
  with False show ?thesis
    by (cases "account_type_choice (cf_type_choice f)") (auto simp: create_account_scan_def create_account_def fail_def)
qed

subsection \<open>Properties\<close>

text \<open>
  C12: when every entry fits its field (name under 50 characters, username under 20,
  email under 50, mobile under 15, date of birth under 12, none with a NUL), the
  byte-level \<open>create_account\<close> behaves exactly as the string-level one: the model of
  \<open>create_account\<close> on strings is exact for such input.
\<close>

theorem create_account_scan_refines:
  assumes "fits_field F_name (cf_name f)" "fits_field F_username (cf_username f)"
    "fits_field F_email (cf_email f)" "fits_field F_mobile (cf_mobile f)" "fits_field F_dob (cf_dob f)"
  shows "create_account_scan r f now st = Some (create_account r f now st)"
proof (cases "total_accounts st \<ge> MAX_ACCOUNTS")
  case True
  then show ?thesis by (simp add: create_account_scan_def create_account_def)
next
  case False
  from assms(5) have d: "CHR 0x00 \<notin> set (cf_dob f)" "length (cf_dob f) < 12" by (simp_all add: fits_field_def)
  then have d27: "length (cf_dob f) < 27" by simp
  obtain img0 img1 img2 img3 img4 img5 where
    "scan_field F_account_number (generate_account_number r) blank_image = Some img0"
    "scan_field F_name (cf_name f) img0 = Some img1" "read_field F_name img1 = cf_name f"
    "scan_field F_username (cf_username f) img1 = Some img2" "read_field F_username img2 = cf_username f"
    "scan_field F_email (cf_email f) img2 = Some img3" "read_field F_email img3 = cf_email f"
    "scan_field F_mobile (cf_mobile f) img3 = Some img4" "read_field F_mobile img4 = cf_mobile f"
    "scan_field F_dob (cf_dob f) img4 = Some img5"
    "read_field F_account_number img5 = generate_account_number r"
    "image_form img5 f = f\<lparr>cf_mobile := (if length (cf_dob f) < 12 then cf_mobile f else drop 12 (cf_dob f))\<rparr>"
    by (rule profile_scan [OF assms(1-4) d(1) d27])
  with False d show ?thesis
    by (cases "account_type_choice (cf_type_choice f)") (auto simp: create_account_scan_def create_account_def fail_def)
qed

text \<open>
  C11: \<open>scanf ("%s", new_account.dob)\<close> has no bound and \<open>dob\<close> is not checked: a date
  of birth of twelve characters or more runs into \<open>mobile\<close>, which was read and
  validated before it. When the account is then created, the stored mobile is the
  tail of the date after its twelfth character, not the validated number typed.
\<close>

theorem create_account_dob_overflow:
  assumes "fits_field F_name (cf_name f)" "fits_field F_username (cf_username f)"
    "fits_field F_email (cf_email f)" "fits_field F_mobile (cf_mobile f)"
    and d: "CHR 0x00 \<notin> set (cf_dob f)" "12 \<le> length (cf_dob f)" "length (cf_dob f) < 27"
    and ok: "create_account_scan r f now st = Some (Success, st')"
  shows "validate_mobile (cf_mobile f) \<and> mobile (last (accounts st')) = drop 12 (cf_dob f) \<and>
         dob (last (accounts st')) = cf_dob f"
proof -
  obtain img0 img1 img2 img3 img4 img5 where
    "scan_field F_account_number (generate_account_number r) blank_image = Some img0"
    "scan_field F_name (cf_name f) img0 = Some img1" "read_field F_name img1 = cf_name f"
    "scan_field F_username (cf_username f) img1 = Some img2" "read_field F_username img2 = cf_username f"
    "scan_field F_email (cf_email f) img2 = Some img3" "read_field F_email img3 = cf_email f"
    "scan_field F_mobile (cf_mobile f) img3 = Some img4" "read_field F_mobile img4 = cf_mobile f"
    "scan_field F_dob (cf_dob f) img4 = Some img5"
    "read_field F_account_number img5 = generate_account_number r"
    and im: "image_form img5 f = f\<lparr>cf_mobile := (if length (cf_dob f) < 12 then cf_mobile f else drop 12 (cf_dob f))\<rparr>"
    by (rule profile_scan [OF assms(1-4) d(1) d(3)])
  with ok d show ?thesis
    by (cases "account_type_choice (cf_type_choice f)") (auto simp: create_account_scan_def fail_def new_account_fields split: if_splits)
qed

end
