(* ===== verification/Stdin_Scan.thy ===== *)
theory Stdin_Scan
  imports Session "HOL-Library.While_Combinator"
begin

text \<open>
  What the menus of \<^verbatim>\<open>src/bank.c\<close> read from standard input, as functions on the
  unread part of the input stream (a character list). \<open>scanf ("%d", &choice)\<close>
  (lines 230, 295, 402) skips white space and converts an optional sign and at least
  one digit; when no digit follows, the conversion fails, \<open>choice\<close> keeps its value
  and the offending character stays unread.
  \<open>pause_system\<close> waits with \<open>getch\<close>, which reads the console and not this stream.
  A \<open>%d\<close> value outside the range of \<open>int\<close> is undefined in C and is kept here as
  the mathematical integer.
\<close>

definition isspace :: "char \<Rightarrow> bool" where
  "isspace c \<longleftrightarrow> (let n = of_char c :: nat in n = 32 \<or> (9 \<le> n \<and> n \<le> 13))"

definition dec_value :: "string \<Rightarrow> nat" where
  "dec_value ds = foldl (\<lambda>acc c. 10 * acc + (of_char c - 48)) 0 ds"

text \<open>\<open>scanf ("%d")\<close>: the converted value, if any, and the input left unread.\<close>

definition scanf_d :: "string \<Rightarrow> int option \<times> string" where
  "scanf_d s =
     (let t = dropWhile isspace s;
          (neg, u) = (case t of c # r \<Rightarrow> if c = CHR ''-'' then (True, r) else if c = CHR ''+'' then (False, r)
                                           else (False, t)
                       | [] \<Rightarrow> (False, []));
          ds = takeWhile isdigit u
      in if ds = [] then (None, u)
         else (Some ((if neg then -1 else 1) * int (dec_value ds)), dropWhile isdigit u))"

text \<open>\<open>scanf ("%d", &choice)\<close> on the variable \<open>choice\<close>, which keeps its value on failure.\<close>

definition read_choice :: "int \<Rightarrow> string \<Rightarrow> int \<times> string" where
  "read_choice c s = (case scanf_d s of (Some n, rest) \<Rightarrow> (n, rest) | (None, rest) \<Rightarrow> (c, rest))"

text \<open>
  The menu loops up to the case the \<open>switch\<close> takes: read the choice, and while it
  is the \<open>default\<close> case (\<open>Invalid choice!\<close> and \<open>pause_system\<close>) read again. The
  result is the choice that runs and the input left; \<open>None\<close> is a loop that never
  reaches a case.
\<close>

definition choice_loop :: "(int \<Rightarrow> bool) \<Rightarrow> int \<Rightarrow> string \<Rightarrow> (int \<times> string) option" where
  "choice_loop has_case c s =
     while_option (\<lambda>(c, s). \<not> has_case c) (\<lambda>(c, s). read_choice c s) (read_choice c s)"

definition main_menu_choice :: "int \<Rightarrow> string \<Rightarrow> (int \<times> string) option" where
  "main_menu_choice c s = choice_loop (\<lambda>k. 1 \<le> k \<and> k \<le> 4) c s"

definition admin_menu_choice :: "int \<Rightarrow> string \<Rightarrow> (int \<times> string) option" where
  "admin_menu_choice c s = choice_loop (\<lambda>k. 1 \<le> k \<and> k \<le> 5) c s"

definition user_menu_choice :: "int \<Rightarrow> string \<Rightarrow> (int \<times> string) option" where
  "user_menu_choice c s = choice_loop (\<lambda>k. 1 \<le> k \<and> k \<le> 7) c s"

text \<open>Input whose next item is not a number: the next non-blank character is no digit or sign, or there is none.\<close>

definition starts_non_numeric :: "string \<Rightarrow> bool" where
  "starts_non_numeric s \<longleftrightarrow>
     (case dropWhile isspace s of [] \<Rightarrow> True
      | c # _ \<Rightarrow> \<not> isdigit c \<and> c \<noteq> CHR ''-'' \<and> c \<noteq> CHR ''+'')"

subsection \<open>Characters and conversions\<close>

lemma dropWhile_idem [simp]: "dropWhile P (dropWhile P xs) = dropWhile P xs"
  by (induction xs) auto

lemma starts_non_numeric_scanf_d:
  "starts_non_numeric s \<Longrightarrow> scanf_d s = (None, dropWhile isspace s)"
proof -
  assume h: "starts_non_numeric s"
  obtain t where t: "dropWhile isspace s = t" by blast
  from h have h': "case t of [] \<Rightarrow> True | c # _ \<Rightarrow> \<not> isdigit c \<and> c \<noteq> CHR ''-'' \<and> c \<noteq> CHR ''+''"
    unfolding starts_non_numeric_def t .
  show ?thesis unfolding scanf_d_def Let_def t using h' by (cases t) auto
qed

lemma starts_non_numeric_blank [simp]:
  "starts_non_numeric (dropWhile isspace s) = starts_non_numeric s"
  by (simp add: starts_non_numeric_def)

lemma read_choice_non_numeric:
  "starts_non_numeric s \<Longrightarrow> read_choice c s = (c, dropWhile isspace s)"
  by (simp add: read_choice_def starts_non_numeric_scanf_d)

text \<open>A loop whose body leaves a state unchanged where the guard holds never stops.\<close>

lemma while_option_fixpoint_None:
  assumes "b x" "f x = x"
  shows "while_option b f x = None"
proof (rule ccontr)
  assume "while_option b f x \<noteq> None"
  then obtain y where y: "while_option b f x = Some y" by blast
  have "y = x" by (rule while_option_rule [where P = "\<lambda>z. z = x", OF _ y]) (use assms in simp_all)
  with while_option_stop [OF y] assms(1) show False by simp
qed

text \<open>
  C13: a menu whose next input is not a number does not read it: \<open>choice\<close> keeps the
  value of the previous pass. If that value is one of the menu's cases, the case
  runs again on the unread input; if it is not (an invalid number typed before, or
  the uninitialised first value), the menu prints \<open>Invalid choice!\<close> for ever and
  never reaches a case, since each pass reads nothing.
\<close>

theorem choice_loop_non_numeric:
  "starts_non_numeric s \<Longrightarrow>
     choice_loop has_case c s = (if has_case c then Some (c, dropWhile isspace s) else None)"
proof -
  assume s: "starts_non_numeric s"
  let ?x = "(c, dropWhile isspace s)"
  have r: "read_choice c s = ?x" and fx: "(\<lambda>(c, s). read_choice c s) ?x = ?x"
    using s by (simp_all add: read_choice_non_numeric)
  show ?thesis
  proof (cases "has_case c")
    case True
    then show ?thesis by (simp add: choice_loop_def r while_option_unfold [of _ _ ?x])
  next
    case False
    then have "while_option (\<lambda>(c, s). \<not> has_case c) (\<lambda>(c, s). read_choice c s) ?x = None"
      using fx by (intro while_option_fixpoint_None) simp_all
    with False show ?thesis by (simp add: choice_loop_def r)
  qed
qed

end
