(* ===== verification/Spec2Isabelle.thy ===== *)
theory Spec2Isabelle
  imports Refinement Ledger_History Presentation Field_Buffers Stdin_Scan
begin

text \<open>
  \<^bold>\<open>A verification development for \<^verbatim>\<open>src/bank.c\<close>\<close>, the Sarnath bank: a console
  program that keeps a table of up to 1000 accounts in memory, each with a ledger
  of at most 100 transactions, saves the table to \<^verbatim>\<open>accounts.dat\<close> after each change,
  and serves one user or the administrator at a time through three nested menus.

  \<^bold>\<open>Parts and theories.\<close> Each theory opens with a note of what it holds.
  \<^item> \<open>Bank_Prelude\<close>: C strings (\<open>cstr\<close>, the characters before the first NUL), the
    linear search \<open>find_index\<close> that both lookups use, and list lemmas.
  \<^item> \<open>Bank_Types\<close>: the structs \<open>Transaction\<close> and \<open>BankAccount\<close> as records
    (\<open>transaction_count\<close> is the length of the list), the globals as the record
    \<open>bank\<close> (\<open>current_user\<close> is an index, \<open>accounts_dat\<close> the file, \<open>fs_writable\<close>
    whether \<open>fopen\<close> succeeds), the limits, the account-type tables, and the error
    messages as the datatype \<open>error\<close>. A handler returns \<open>(status, bank)\<close>.
  \<^item> \<open>Hasher\<close>: \<open>hash_password\<close> (lines 85--96) as djb2 on a \<open>32 word\<close> (the
    \<open>unsigned long\<close> of the Windows target of \<open>conio.h\<close>) with signed \<open>char\<close>,
    printed by \<open>format_lx\<close>; \<open>parse_lx\<close> reads a token back.
  \<^item> \<open>Printing\<close>: the \<open>sprintf\<close> formatting of \<open>generate_account_number\<close>
    (\<open>"SAR%010d"\<close>) and \<open>get_current_date\<close> (\<open>"%02d/%02d/%04d %02d:%02d"\<close>) as
    \<open>zero_pad\<close> over \<open>dec_nat\<close>; \<open>parse_dec_acc\<close> reads digits back.
  \<^item> \<open>Validation\<close>: \<open>validate_email\<close>, \<open>validate_mobile\<close>, \<open>validate_amount\<close> and
    the name and username checks of \<open>create_account\<close>; \<open>email_rule\<close> is the rule of
    the specification they are compared with.
  \<^item> \<open>Console_Input\<close>: the masked \<open>getch\<close> loop repeated four times in the source,
    over an explicit key list; \<open>None\<close> means the keys ran out and \<open>getch\<close> waits.
  \<^item> \<open>Ledger\<close>: \<open>add_transaction\<close> (170--185), which drops the record on a full
    ledger, and \<open>transaction_history\<close>; \<open>ledger_ok\<close> is its invariant.
  \<^item> \<open>Persistence\<close>: \<open>save_accounts\<close>/\<open>load_accounts\<close> (187--210) over a file of
    cells, one per \<open>fwrite\<close> field; \<open>persist\<close> is a handler's call that ignores
    the result. The reader is an option monad with a cursor.
  \<^item> \<open>Account_Store\<close>: lookups, \<open>create_account\<close>, \<open>deposit_money\<close>,
    \<open>withdraw_money\<close>, \<open>change_password\<close>, the administrator's list and totals;
    \<open>account_ok\<close>/\<open>store_ok\<close> are the invariant each handler keeps.
  \<^item> \<open>Authentication\<close>: the checks of \<open>user_login\<close> with the three-strikes lockout,
    the admin credentials, \<open>admin_block_account\<close>, \<open>admin_unblock_account\<close>.
  \<^item> \<open>Transfer_Engine\<close>: \<open>transfer_money\<close>, the two aliased accounts as two list
    updates, \<open>transfer_ok\<close> its five checks, \<open>debit_leg\<close>/\<open>credit_leg\<close> its writes.
  \<^item> \<open>Session\<close>: \<open>main_menu\<close>, \<open>admin_panel\<close> and the dashboard loop of
    \<open>user_login\<close> as \<open>menu_step\<close> on \<open>(screen, bank)\<close>, one event per menu choice with
    the values the handler reads; \<open>reachable\<close> is the inductive set of sessions
    from start-up, \<open>session_inv\<close> its invariant. The initial deposit of
    \<open>create_account\<close> is the value \<open>scanf ("%lf")\<close> stores (\<open>double_in\<close>: a number,
    \<open>inf\<close>, \<open>-inf\<close> or \<open>nan\<close>); \<open>create_with_deposit\<close> applies C's \<open><\<close> to it.
  \<^item> \<open>Refinement\<close>: the specification's account store (sections 2 and 4) as a map
    from username to balance, active flag and type, its operations as the
    inductive relation \<open>abs_step\<close> with the specification's guards (floors, active
    accounts, amounts in \<open>(0, 1000000]\<close>), and the refinement mapping \<open>abs_of\<close> from
    the array \<open>accounts\<close>; one lemma per handler shows it is one abstract step.
  \<^item> \<open>Presentation\<close>: what \<open>view_account_details\<close>, the dashboard header and
    the creation receipt show, as records of the values printed.
  \<^item> \<open>Field_Buffers\<close>: the \<open>scanf\<close> reads of \<open>create_account\<close> (440--497) over the
    212 bytes of the char arrays at the start of \<open>BankAccount\<close>: \<open>store_cstr\<close>
    writes an entry and its NUL at a field offset with no bound, \<open>read_field\<close> reads
    a field up to its NUL, \<open>create_account_scan\<close> runs the checks on the fields as
    they are when each check runs and builds the account from the bytes after the
    last read; a store past the end of \<open>email\<close> is \<open>None\<close>.
  \<^item> \<open>Stdin_Scan\<close>: the menu choices on the unread standard input: \<open>scanf_d\<close>
    (\<open>%d\<close>), \<open>read_choice\<close> (the variable \<open>choice\<close>, kept on a failed conversion) and
    \<open>choice_loop\<close> (each menu's loop up to the case its \<open>switch\<close> takes, as
    \<open>while_option\<close>).
  \<^item> \<open>Ledger_History\<close>: \<open>ledgers_extend\<close>, the specification's append-only
    ledgers as a relation between two tables, and its proof for every handler.
  \<^item> This theory: example data, the runs it takes (among them a \<open>nan\<close> deposit
    that passes the check), and the witnesses that apply each conditional claim.

  Handlers take what they read from the keyboard as arguments in reading order,
  and the date string and the first \<open>rand ()\<close> value as inputs. Every early
  \<open>return\<close> is a \<open>Failure\<close> with the state unchanged.

  \<^bold>\<open>What is proved.\<close> The store invariant (floors, ledgers, unique usernames, the
  bound on accounts) holds in every reachable session and the dashboard always has
  an active user. For each handler: exactly when it succeeds, what it writes, and
  that its failures write nothing. Transfers write both records when there is room.
  Three wrong passwords block an account. Saving then loading gives the same table.
  The validators meet the rules of the specification. The masked read ends at
  Enter and never holds more than 19 characters. Every step of the menus refines a
  step of the specification's store (a functional simulation through \<open>abs_of\<close>),
  so a blocked account's balance never changes. No step rewrites or removes a
  ledger record. Account numbers always fit their field, and the file has the
  fixed layout of one record per account. When every profile entry fits its field,
  the byte-level \<open>create_account_scan\<close> gives exactly the result of
  \<open>create_account\<close> on strings, which justifies the string-level model elsewhere.

  \<^bold>\<open>Findings\<close>, each proved unless said otherwise: account numbers collide within a
  second; a full ledger drops one leg of a transfer; a failed save is reported as
  success; a successful login is not saved; in any password, \<open>aB\<close> and \<open>b!\<close> can be
  swapped without changing the hash; a date of birth of twelve characters or more
  overwrites the validated mobile number; a menu choice that is not a number is
  never read, so the previous case runs again or the menu loops for ever; \<open>nan\<close> or
  \<open>inf\<close> typed as an initial deposit passes the check at line 565
  (\<open>demo_nan_deposit\<close>), so a NaN balance below every floor enters the table.

  \<^bold>\<open>Bounds and fuel.\<close> No fuel is used. Loops over strings and lists are
  structural recursion; \<open>mobile_loop\<close>, \<open>dec_nat\<close> and \<open>hex_nat\<close> terminate by a
  measure; the menu loops are the reflexive-transitive closure \<open>reachable\<close>, so no
  number of steps is fixed; the \<open>getch\<close> loop is recursion on the finite key list,
  with \<open>None\<close> for waiting for ever, and is proved to return when Enter is present.
  The choice loops are \<open>while_option\<close>, \<open>None\<close> when no case is ever reached, which
  is proved as such.

  \<^bold>\<open>Not modelled.\<close> \<^emph>\<open>Floating point.\<close> Balances and amounts are \<open>real\<close>: the
  rounding of \<open>double\<close> additions (the deposit, withdrawal and transfer updates and
  the statistics sum) is not modelled, so no claim is made about totals, which
  rounding changes. NaN and infinities enter the program only through
  \<open>scanf ("%lf")\<close>: the amounts of deposit, withdrawal and transfer are then refused by
  \<open>validate_amount\<close> (every comparison with NaN is false, \<open>inf\<close> exceeds the ceiling),
  exactly as the model refuses an invalid number; the initial deposit is modelled
  as \<open>double_in\<close>, and a non-numeric one that passes the check ends the model's run,
  because the account it creates has no numeric balance. The session claims are
  therefore about runs whose initial deposits are numbers.
  \<^emph>\<open>Screens and library.\<close> The layout of the screens (\<open>printf\<close> formats,
  \<open>clear_screen\<close>, \<open>pause_system\<close>); what they show is modelled as data. \<open>time\<close>,
  \<open>localtime\<close> and \<open>rand\<close> are inputs (the \<open>struct tm\<close> fields and the first \<open>rand ()\<close>
  value, an unbounded number: \<open>RAND_MAX\<close> is not modelled).
  \<^emph>\<open>Input.\<close> The byte layout of the structs in the file is one cell per field.
  \<open>scanf\<close> overflow of the fixed buffers is modelled for the profile fields of
  \<open>create_account\<close> only (theory \<open>Field_Buffers\<close>, up to the end of \<open>email\<close>); where
  the local buffers of \<open>user_login\<close>, \<open>admin_panel\<close> and the block/unblock handlers
  overflow depends on the stack layout, which C does not fix. Of the reads from
  standard input, the menu choices are modelled on the character stream; the
  events of \<open>Session\<close> stand for choices that were read, and the other reads reach
  the handlers as values.
  \<^emph>\<open>Start.\<close> A file whose table breaks the invariant is excluded by the start rule
  of \<open>reachable\<close>, because \<open>load_accounts\<close> does not check it.
\<close>

section \<open>Example data\<close>

text \<open>
  A table of two accounts, Alice (SAVINGS, 1000) logged in and Bob (CURRENT, 2000),
  on a disk that cannot be written; a creation form for Carol (SAVINGS, 500); and
  the session that starts with no file, creates Carol's account and logs her in.
\<close>

definition demo_now :: string where "demo_now = ''09/11/2026 10:00''"

definition demo_tm :: tm where
  "demo_tm = \<lparr>tm_mday = 9, tm_mon = 10, tm_year = 126, tm_hour = 10, tm_min = 0\<rparr>"

definition demo_txn :: "money \<Rightarrow> transaction" where
  "demo_txn m = \<lparr>date = ''01/01/2025 09:00'', txn_kind = DEPOSIT, amount = m, balance_after = m,
                  description = ''Initial Deposit'', reference_account = ''N/A''\<rparr>"

definition demo_alice :: bank_account where
  "demo_alice = zero_account\<lparr>account_number := ''SAR0000000042'', name := ''Alice Smith'',
     username := ''alicesmith'', password_hash := hash_password ''pa'', email := ''alice@bank.sa'',
     mobile := ''0501234567'', balance := 1000, account_type := ''SAVINGS'', is_active := True,
     transactions := [demo_txn 1000]\<rparr>"

definition demo_bob :: bank_account where
  "demo_bob = zero_account\<lparr>account_number := ''SAR0000000077'', name := ''Bob Jones'',
     username := ''bobjones'', password_hash := hash_password ''pb'', email := ''bob@bank.sa'',
     mobile := ''0559876543'', balance := 2000, account_type := ''CURRENT'', is_active := True,
     transactions := [demo_txn 2000]\<rparr>"

definition demo_bank :: bank where
  "demo_bank = \<lparr>accounts = [demo_alice, demo_bob], current_user = Some 0, accounts_dat = None,
                fs_writable = False\<rparr>"

text \<open>The same table where Alice's ledger is full.\<close>

definition demo_full :: bank where
  "demo_full = demo_bank\<lparr>accounts := [demo_alice\<lparr>transactions := replicate 100 (demo_txn 1000)\<rparr>, demo_bob]\<rparr>"

definition demo_form :: create_form where
  "demo_form = \<lparr>cf_name = ''Carol King'', cf_username = ''carolking'', cf_email = ''carol@bank.sa'',
     cf_mobile = ''0561112233'', cf_dob = ''01/01/1990'', cf_password = ''pc'', cf_confirm = ''pc'',
     cf_type_choice = 1, cf_deposit = 500\<rparr>"

definition demo_form2 :: create_form where
  "demo_form2 = demo_form\<lparr>cf_name := ''Dan Brown'', cf_username := ''danbrown'', cf_email := ''dan@bank.sa''\<rparr>"

definition demo_keys :: "char list" where "demo_keys = ''pc'' @ [CR]"

definition demo_fresh :: bank where "demo_fresh = initial_bank None False"

definition demo_created :: bank where
  "demo_created = snd (create_account 42 demo_form demo_now demo_fresh)"

definition demo_logged_in :: bank where
  "demo_logged_in = snd (user_login ''carolking'' ''pc'' demo_created)"

definition demo_admin_keys :: "char list" where "demo_admin_keys = ''admin'' @ [CR]"

definition demo_blocked :: bank where
  "demo_blocked = snd (admin_block_account (generate_account_number 42) demo_created)"

definition demo_form_dob :: create_form where
  "demo_form_dob = demo_form\<lparr>cf_dob := ''01/January/1990''\<rparr>"

section \<open>Evaluation of the example\<close>

lemma demo_now_clock: "get_current_date demo_tm = demo_now"
  by (simp add: get_current_date_def demo_tm_def demo_now_def zero_pad_def dec_nat.simps)

lemma demo_accounts: "accounts demo_bank = [demo_alice, demo_bob]"
  by (simp add: demo_bank_def)

lemmas demo_defs = demo_accounts demo_alice_def demo_bob_def demo_txn_def zero_account_def

lemma demo_lookups:
  "find_account_by_username demo_bank ''alicesmith'' = Some 0"
  "find_account_by_number demo_bank ''SAR0000000077'' = Some 1"
  "find_account_by_number demo_bank ''SAR0000000042'' = Some 0"
  "current_user demo_bank = Some 0"
  "total_accounts demo_bank = 2"
  "\<not> fs_writable demo_bank"
  "accounts_dat demo_bank = None"
  by (simp_all add: find_account_by_username_def find_account_by_number_def demo_defs demo_bank_def
      find_index_def)

lemma demo_full_lookups:
  "find_account_by_number demo_full ''SAR0000000077'' = Some 1"
  "current_user demo_full = Some 0"
  "total_accounts demo_full = 2"
  "accounts demo_full ! 0 = demo_alice\<lparr>transactions := replicate 100 (demo_txn 1000)\<rparr>"
  "accounts demo_full ! Suc 0 = demo_bob"
  by (simp_all add: find_account_by_number_def demo_full_def demo_defs demo_bank_def find_index_def)

lemma demo_wrong_password: "hash_password ''pa'' \<noteq> hash_password ''px''"
  by (rule hash_password_neq) (simp add: hash_value_def djb2_step_mult c_char_value_def)

lemma demo_store_ok: "store_ok demo_bank"
  by (simp add: store_ok_def demo_bank_def demo_alice_def demo_bob_def zero_account_def demo_txn_def
      account_ok_def ledger_ok_def valid_account_type_def min_balance_def MAX_ACCOUNTS_def
      MAX_TRANSACTIONS_def)

lemma demo_read: "read_pw demo_keys = Some ''pc''"
  by (simp add: read_pw_def read_masked_def demo_keys_def CR_def BS_def)

lemma demo_form_checks:
  "validate_name (cf_name demo_form) \<and> validate_username_length (cf_username demo_form) \<and>
   validate_email (cf_email demo_form) \<and> validate_mobile (cf_mobile demo_form) \<and>
   cstr (cf_password demo_form) = cstr (cf_confirm demo_form) \<and>
   account_type_choice (cf_type_choice demo_form) = Some (''SAVINGS'', 500) \<and> cf_deposit demo_form = 500"
  by (simp add: demo_form_def validate_email_def validate_mobile_def isdigit_def isalpha_def
      mobile_loop.simps validate_username_length_def account_type_choice_def)

lemma demo_form_fresh: "find_account_by_username demo_bank (cf_username demo_form) = None"
  by (simp add: find_account_by_username_def demo_defs demo_form_def find_index_def)

lemma demo_created_accounts:
  "accounts demo_created = [new_account (generate_account_number 42) demo_form ''SAVINGS'' demo_now] \<and>
   current_user demo_created = None"
  using demo_form_checks
  by (simp add: demo_created_def create_account_def demo_fresh_def initial_bank_def MAX_ACCOUNTS_def
      find_account_by_username_def find_index_def Let_def)

lemma demo_login:
  "fst (user_login ''carolking'' ''pc'' demo_created) = Success \<and> current_user demo_logged_in = Some 0"
proof -
  have "find_account_by_username demo_created ''carolking'' = Some 0"
    using demo_created_accounts
    by (simp add: find_account_by_username_def find_index_def new_account_fields demo_form_def)
  then show ?thesis using demo_created_accounts
    by (simp add: user_login_right new_account_fields demo_form_def demo_logged_in_def)
qed

lemma demo_logged_in_state:
  "accounts demo_logged_in =
     [(new_account (generate_account_number 42) demo_form ''SAVINGS'' demo_now)\<lparr>failed_attempts := 0\<rparr>] \<and>
   current_user demo_logged_in = Some 0 \<and> \<not> fs_writable demo_logged_in"
proof -
  have "find_account_by_username demo_created ''carolking'' = Some 0"
    using demo_created_accounts
    by (simp add: find_account_by_username_def find_index_def new_account_fields demo_form_def)
  moreover have "\<not> fs_writable demo_created"
    using demo_form_checks
    by (simp add: demo_created_def create_account_def demo_fresh_def initial_bank_def Let_def
        persist_def save_accounts_def)
  ultimately show ?thesis using demo_created_accounts
    by (simp add: user_login_right new_account_fields demo_form_def demo_logged_in_def)
qed

lemma demo_second_create:
  "fst (create_account 42 demo_form demo_now demo_fresh) = Success \<and>
   fst (create_account 42 demo_form2 demo_now demo_created) = Success"
proof -
  have "validate_name (cf_name demo_form2) \<and> validate_username_length (cf_username demo_form2) \<and>
        validate_email (cf_email demo_form2)"
    by (simp add: demo_form2_def demo_form_def validate_email_def isalpha_def validate_username_length_def)
  moreover have "find_account_by_username demo_created (cf_username demo_form2) = None"
    using demo_created_accounts
    by (simp add: find_account_by_username_def find_index_def new_account_fields demo_form_def demo_form2_def)
  moreover have "cf_mobile demo_form2 = cf_mobile demo_form \<and> cf_password demo_form2 = cf_password demo_form \<and>
      cf_confirm demo_form2 = cf_confirm demo_form \<and> cf_type_choice demo_form2 = cf_type_choice demo_form \<and>
      cf_deposit demo_form2 = cf_deposit demo_form"
    by (simp add: demo_form2_def)
  ultimately show ?thesis using demo_form_checks demo_created_accounts
    by (simp add: create_account_def demo_fresh_def initial_bank_def MAX_ACCOUNTS_def
        find_account_by_username_def find_index_def Let_def)
qed

lemma demo_created_reachable: "reachable (MainMenu, demo_created)"
proof -
  have r0: "reachable (MainMenu, demo_fresh)"
    by (rule reachable.start [where fl=None and w=False])
      (simp_all add: load_accounts_def initial_bank_def demo_fresh_def store_ok_def)
  have "\<not> fails_before_password (create_account 42 (demo_form\<lparr>cf_password := [], cf_confirm := []\<rparr>) demo_now demo_fresh)"
    using demo_form_checks
    by (simp add: fails_before_password_def create_account_def demo_fresh_def initial_bank_def MAX_ACCOUNTS_def
        find_account_by_username_def find_index_def Let_def)
  then have "menu_step (ChooseCreateAccount 42 demo_form demo_keys demo_keys demo_now (Finite 500)) (MainMenu, demo_fresh) =
          Some (MainMenu, demo_created)"
    by (simp add: demo_read demo_created_def demo_form_def create_with_deposit_def)
  with r0 show ?thesis by (rule reachable.step)
qed

text \<open>
  The same creation with \<open>nan\<close> typed as the initial deposit: the check at line 565
  lets it through, and the account would be created with a balance that is no
  number, below every floor; the model stops there.
\<close>

lemma demo_nan_deposit:
  "\<not> double_less NaN 500 \<and>
   menu_step (ChooseCreateAccount 42 demo_form demo_keys demo_keys demo_now NaN) (MainMenu, demo_fresh) = None"
proof -
  have "\<not> fails_before_password (create_account 42 (demo_form\<lparr>cf_password := [], cf_confirm := []\<rparr>) demo_now demo_fresh)"
    using demo_form_checks
    by (simp add: fails_before_password_def create_account_def demo_fresh_def initial_bank_def MAX_ACCOUNTS_def
        find_account_by_username_def find_index_def Let_def)
  moreover have "fst (create_account 42 demo_form demo_now demo_fresh) = Success"
    using demo_second_create by simp
  ultimately show ?thesis using demo_form_checks
    by (simp add: demo_read create_with_deposit_def demo_form_def)
qed

lemma demo_reachable: "reachable (UserDashboard, demo_logged_in)"
proof -
  have "menu_step (ChooseUserLogin ''carolking'' demo_keys) (MainMenu, demo_created) =
          Some (UserDashboard, demo_logged_in)"
    by (simp add: demo_read demo_logged_in_def demo_login)
  with demo_created_reachable show ?thesis by (rule reachable.step)
qed

lemma demo_blocked_reachable: "reachable (AdminDashboard, demo_blocked)"
proof -
  have "read_pw demo_admin_keys = Some ''admin''"
    by (simp add: read_pw_def read_masked_def demo_admin_keys_def CR_def BS_def)
  then have "menu_step (ChooseAdminLogin ''admin'' demo_admin_keys) (MainMenu, demo_created) =
          Some (AdminDashboard, demo_created)"
    by (simp add: admin_login_ok_def admin_username_def admin_password_def)
  with demo_created_reachable have r: "reachable (AdminDashboard, demo_created)" by (rule reachable.step)
  have "menu_step (AdminBlock (generate_account_number 42)) (AdminDashboard, demo_created) =
          Some (AdminDashboard, demo_blocked)"
    by (simp add: demo_blocked_def)
  with r show ?thesis by (rule reachable.step)
qed

lemma demo_blocked_view:
  "abs_of demo_blocked ''carolking'' = Some \<lparr>v_balance = 500, v_active = False, v_type = ''SAVINGS''\<rparr>"
proof -
  have "find_account_by_number demo_created (generate_account_number 42) = Some 0"
    using demo_created_accounts by (simp add: find_account_by_number_def find_index_def new_account_fields)
  then show ?thesis using demo_created_accounts
    by (simp add: demo_blocked_def admin_block_account_def abs_of_def view_def new_account_fields
        demo_form_def)
qed

section \<open>Witnesses\<close>

theorem reachable_session_inv_witness:
  "store_ok demo_logged_in \<and> current_user demo_logged_in = Some 0"
  using reachable_session_inv [OF demo_reachable] demo_login by simp

theorem withdraw_money_spec_witness:
  "fst (withdraw_money 600 demo_now demo_bank) \<noteq> Success \<and> fst (withdraw_money 500 demo_now demo_bank) = Success"
  using withdraw_money_spec [where st=demo_bank and u=0 and amt=600 and now=demo_now]
    withdraw_money_spec [where st=demo_bank and u=0 and amt=500 and now=demo_now]
  by (simp add: demo_lookups validate_amount_def demo_defs min_balance_def)

theorem deposit_money_spec_witness:
  "fst (deposit_money 0 demo_now demo_bank) \<noteq> Success \<and> fst (deposit_money 250 demo_now demo_bank) = Success"
  using deposit_money_spec [where st=demo_bank and u=0 and amt=0 and now=demo_now]
    deposit_money_spec [where st=demo_bank and u=0 and amt=250 and now=demo_now]
  by (simp add: demo_lookups)

theorem create_account_creates_witness:
  "fst (create_account 42 demo_form demo_now demo_bank) = Success \<and>
   balance (last (accounts (snd (create_account 42 demo_form demo_now demo_bank)))) = 500"
proof -
  have "\<exists>st'. create_account 42 demo_form demo_now demo_bank = (Success, st') \<and>
     accounts st' = accounts demo_bank @ [new_account (generate_account_number 42) demo_form ''SAVINGS'' demo_now] \<and>
     balance (last (accounts st')) = cf_deposit demo_form \<and> is_active (last (accounts st')) \<and>
     failed_attempts (last (accounts st')) = 0 \<and>
     password_hash (last (accounts st')) = hash_password (cf_password demo_form) \<and>
     transactions (last (accounts st')) =
       [\<lparr>date = demo_now, txn_kind = DEPOSIT, amount = cf_deposit demo_form, balance_after = cf_deposit demo_form,
         description = ''Initial Deposit'', reference_account = ''N/A''\<rparr>]"
    by (rule create_account_creates [where m=500])
      (simp_all add: demo_form_checks demo_form_fresh demo_lookups MAX_ACCOUNTS_def)
  then show ?thesis using demo_form_checks by auto
qed

theorem login_three_strikes_witness:
  "fst (user_login ''alicesmith'' ''px'' demo_bank) = Failure (InvalidPassword 2) \<and>
   \<not> is_active (accounts (snd (user_login ''alicesmith'' ''px'' (snd (user_login ''alicesmith'' ''px''
       (snd (user_login ''alicesmith'' ''px'' demo_bank)))))) ! 0)"
  using login_three_strikes [where st=demo_bank and un="''alicesmith''" and i=0 and wrong="''px''" and right="''pa''"]
  by (simp add: demo_lookups demo_wrong_password demo_defs)

theorem login_success_resets_witness:
  "fst (user_login ''alicesmith'' ''pa'' demo_bank) = Success"
  using login_success_resets [where st=demo_bank and un="''alicesmith''" and i=0 and pw="''pa''"]
  by (simp add: demo_lookups demo_defs)

theorem transfer_spec_witness:
  "fst (transfer_money ''SAR0000000077'' 600 demo_now demo_bank) \<noteq> Success \<and>
   balance (accounts (snd (transfer_money ''SAR0000000077'' 300 demo_now demo_bank)) ! 1) = 2300"
  using transfer_spec [where st=demo_bank and u=0 and target="''SAR0000000077''" and t=1 and amt=600 and now=demo_now]
    transfer_spec [where st=demo_bank and u=0 and target="''SAR0000000077''" and t=1 and amt=300 and now=demo_now]
  by (simp add: demo_lookups transfer_ok_def validate_amount_def demo_defs min_balance_def)

theorem login_success_not_saved_witness:
  "accounts_dat (snd (user_login ''alicesmith'' ''pa'' demo_bank)) = None"
  using login_success_not_saved [where st=demo_bank and un="''alicesmith''" and i=0 and pw="''pa''"]
  by (simp add: demo_lookups demo_defs)

theorem unblock_then_login_witness:
  "fst (user_login ''alicesmith'' ''pa'' (snd (admin_unblock_account ''SAR0000000042'' demo_bank))) = Success"
  using unblock_then_login [where st=demo_bank and num="''SAR0000000042''" and i=0 and un="''alicesmith''"
      and p="''pa''"]
  by (simp add: demo_lookups demo_defs)

theorem transfer_records_witness:
  "txn_kind (last (transactions (accounts (snd (transfer_money ''SAR0000000077'' 300 demo_now demo_bank)) ! 1)))
     = TRANSFER_IN"
  using transfer_records [where st=demo_bank and u=0 and target="''SAR0000000077''" and t=1 and amt=300
      and now=demo_now]
  by (simp add: demo_lookups transfer_ok_def validate_amount_def demo_defs min_balance_def MAX_TRANSACTIONS_def)

theorem transfer_full_ledger_one_record_witness:
  "fst (transfer_money ''SAR0000000077'' 300 demo_now demo_full) = Success \<and>
   transactions (accounts (snd (transfer_money ''SAR0000000077'' 300 demo_now demo_full)) ! 0) =
     replicate 100 (demo_txn 1000)"
  using transfer_full_ledger_one_record [where st=demo_full and u=0 and target="''SAR0000000077''" and t=1
      and amt=300 and now=demo_now]
  by (simp add: demo_full_lookups transfer_ok_def validate_amount_def demo_defs min_balance_def
      MAX_TRANSACTIONS_def)

theorem deposit_success_unsaved_witness:
  "fst (deposit_money 250 demo_now demo_bank) = Success \<and>
   balance (accounts (snd (deposit_money 250 demo_now demo_bank)) ! 0) = 1250 \<and>
   accounts_dat (snd (deposit_money 250 demo_now demo_bank)) = accounts_dat demo_bank"
  using deposit_success_unsaved [where st=demo_bank and u=0 and amt=250 and now=demo_now]
  by (simp add: demo_lookups validate_amount_def demo_defs)

theorem create_account_number_collision_witness:
  "\<not> distinct (map account_number (accounts (snd (create_account 42 demo_form2 demo_now
       (snd (create_account 42 demo_form demo_now demo_fresh))))))"
  using create_account_number_collision [where r=42 and f=demo_form and g=demo_form2 and now=demo_now
      and now'=demo_now and st=demo_fresh] demo_second_create
  by (simp add: demo_created_def)

theorem load_after_save_witness:
  "load_accounts (persist (demo_bank\<lparr>fs_writable := True\<rparr>)) = Some (persist (demo_bank\<lparr>fs_writable := True\<rparr>))"
proof -
  have "account_storable demo_alice" "account_storable demo_bob"
    by (simp_all add: account_storable_def txn_storable_def fits_def demo_alice_def demo_bob_def
        zero_account_def demo_txn_def hash_password_def hash_value_def djb2_step_mult c_char_value_def
        format_lx_def hex_nat.simps hex_digit_def MAX_TRANSACTIONS_def)
  then show ?thesis
    using load_after_save [where st="demo_bank\<lparr>fs_writable := True\<rparr>"]
    by (simp add: demo_accounts MAX_ACCOUNTS_def)
qed

theorem validate_mobile_iff_witness:
  "validate_mobile ''0561112233'' \<and> \<not> validate_mobile ''05611a2233''"
  using validate_mobile_iff [of "''0561112233''"] validate_mobile_iff [of "''05611a2233''"]
  by (simp add: isdigit_def)

theorem validate_email_iff_witness:
  "validate_email ''a@b.c'' \<and> \<not> validate_email ''a.b@c''"
  using validate_email_iff [of "''a@b.c''"] validate_email_iff [of "''a.b@c''"]
  by (simp add: email_rule_def)

theorem store_handlers_fail_unchanged_witness:
  "fst (withdraw_money 600 demo_now demo_bank) = Success \<or> snd (withdraw_money 600 demo_now demo_bank) = demo_bank"
  using store_handlers_fail_unchanged [where st=demo_bank and amt=600 and now=demo_now] by blast

theorem transfer_fail_unchanged_witness:
  "fst (transfer_money ''SAR0000000077'' 600 demo_now demo_bank) = Success \<or>
   snd (transfer_money ''SAR0000000077'' 600 demo_now demo_bank) = demo_bank"
  by (rule transfer_fail_unchanged)

theorem get_current_date_length_witness:
  "length (get_current_date demo_tm) = 16"
  using get_current_date_length [of demo_tm] by (simp add: demo_tm_def)

theorem encode_snapshot_layout_witness:
  "length (encode_snapshot [demo_alice, demo_bob]) = 1227"
  using encode_snapshot_layout [of "[demo_alice, demo_bob]"]
  by (simp add: demo_alice_def demo_bob_def zero_account_def MAX_TRANSACTIONS_def SLOT_CELLS_def)

theorem menu_step_append_only_witness:
  "ledgers_extend demo_logged_in (snd (deposit_money 100 demo_now demo_logged_in))"
  using menu_step_append_only [of "UserDeposit 100 demo_now" UserDashboard demo_logged_in UserDashboard
      "snd (deposit_money 100 demo_now demo_logged_in)"]
  by simp

theorem history_newest_first_witness:
  "hd (transaction_history (add_transaction demo_alice DEPOSIT 50 ''Cash Deposit'' None demo_now)) =
     \<lparr>date = demo_now, txn_kind = DEPOSIT, amount = 50, balance_after = 1000,
      description = ''Cash Deposit'', reference_account = ''N/A''\<rparr>"
  using history_newest_first [of demo_alice DEPOSIT 50 "''Cash Deposit''" None demo_now]
  by (simp add: demo_alice_def zero_account_def demo_txn_def MAX_TRANSACTIONS_def)

theorem create_account_scan_refines_witness:
  "create_account_scan 42 demo_form demo_now demo_fresh = Some (create_account 42 demo_form demo_now demo_fresh)"
  by (rule create_account_scan_refines) (simp_all add: fits_field_def demo_form_def)

theorem create_account_dob_overflow_witness:
  "\<exists>st'. create_account_scan 42 demo_form_dob demo_now demo_fresh = Some (Success, st') \<and>
     mobile (last (accounts st')) = ''990'' \<and> \<not> validate_mobile ''990''"
proof -
  have fits: "fits_field F_name (cf_name demo_form_dob)" "fits_field F_username (cf_username demo_form_dob)"
    "fits_field F_email (cf_email demo_form_dob)" "fits_field F_mobile (cf_mobile demo_form_dob)"
    and d: "CHR 0x00 \<notin> set (cf_dob demo_form_dob)" "12 \<le> length (cf_dob demo_form_dob)"
    "length (cf_dob demo_form_dob) < 27"
    by (simp_all add: fits_field_def demo_form_dob_def demo_form_def)
  have "fst (create_account 42 demo_form_dob demo_now demo_fresh) = Success"
    using demo_form_checks
    by (simp add: demo_form_dob_def create_account_def demo_fresh_def initial_bank_def MAX_ACCOUNTS_def
        find_account_by_username_def find_index_def Let_def)
  with create_account_scan_status [OF fits d(1) d(3), of 42 demo_now demo_fresh]
  have "map_option fst (create_account_scan 42 demo_form_dob demo_now demo_fresh) = Some Success" by simp
  then obtain st' where ok: "create_account_scan 42 demo_form_dob demo_now demo_fresh = Some (Success, st')"
    by (cases "create_account_scan 42 demo_form_dob demo_now demo_fresh") auto
  from create_account_dob_overflow [OF fits d ok] have "mobile (last (accounts st')) = ''990''"
    by (simp add: demo_form_dob_def)
  with ok show ?thesis by (simp add: validate_mobile_def)
qed

theorem choice_loop_non_numeric_witness:
  "main_menu_choice 7 ''abc'' = None \<and> main_menu_choice 1 ''abc'' = Some (1, ''abc'')"
proof -
  have s: "starts_non_numeric ''abc''" by (simp add: starts_non_numeric_def isspace_def isdigit_def)
  have "dropWhile isspace ''abc'' = ''abc''" by (simp add: isspace_def)
  with choice_loop_non_numeric [OF s] show ?thesis by (simp add: main_menu_choice_def)
qed

theorem reachable_step_refines_witness:
  "abs_step (abs_of demo_logged_in) (abs_of (snd (deposit_money 100 demo_now demo_logged_in)))"
  using reachable_step_refines [OF demo_reachable, of "UserDeposit 100 demo_now" UserDashboard
      "snd (deposit_money 100 demo_now demo_logged_in)"]
  by simp

theorem blocked_balance_frozen_witness:
  "\<exists>a'. abs_of demo_blocked ''carolking'' = Some a' \<and> v_balance a' = 500"
  using blocked_balance_frozen [OF demo_blocked_reachable, of AdminStats AdminDashboard demo_blocked
      "''carolking''" "\<lparr>v_balance = 500, v_active = False, v_type = ''SAVINGS''\<rparr>"]
  by (simp add: demo_blocked_view)

end
